theory Spec2Isabelle
  imports Main "HOL-Library.Sublist"
begin

section \<open>Go runtime: abnormal termination and strings\<close>

text \<open>
  A Go function of the autoscaler either returns, or the process dies: \<open>log.Fatal\<close> and
  \<open>klog.Fatalf\<close> exit the process, an index beyond a slice and a field read through a nil
  pointer panic. Each of them is a value of \<open>crash\<close>; a function that can die returns
  \<open>crash + 'a\<close>.
\<close>

datatype crash = FatalExit | IndexOutOfRange | NilPointerDereference

text \<open>\<open>strings.HasPrefix\<close>, \<open>strings.HasSuffix\<close> and \<open>strings.Contains\<close> on byte strings.\<close>

fun HasPrefix :: "string \<Rightarrow> string \<Rightarrow> bool" where
  "HasPrefix s [] = True"
| "HasPrefix [] (c # p) = False"
| "HasPrefix (x # s) (c # p) = (x = c \<and> HasPrefix s p)"

definition HasSuffix :: "string \<Rightarrow> string \<Rightarrow> bool" where
  "HasSuffix s suf = HasPrefix (rev s) (rev suf)"

fun Contains :: "string \<Rightarrow> string \<Rightarrow> bool" where
  "Contains [] sub = (sub = [])"
| "Contains (x # s) sub = (HasPrefix (x # s) sub \<or> Contains s sub)"

section \<open>Cluster objects\<close>

text \<open>
  The fields of the Kubernetes objects that the autoscaler reads. A Go pointer that may be
  nil is an \<open>option\<close>. Times are nanoseconds on the integer line.
\<close>

type_synonym time = int
type_synonym duration = int

record OwnerReference =
  or_Kind :: string
  or_Name :: string

datatype EmptyDirVolumeSource = EmptyDirVolumeSource string

record Volume =
  vol_Name :: string
  vol_EmptyDir :: "EmptyDirVolumeSource option"

record Pod =
  pod_Name :: string
  pod_Namespace :: string
  pod_NodeName :: string
  pod_OwnerReferences :: "OwnerReference list"
  pod_Volumes :: "Volume list"
  pod_CreationTimestamp :: time

record ReplicaSet =
  rs_Name :: string
  rs_Replicas :: int

record Node =
  node_Name :: string

record Event =
  ev_Message :: string

text \<open>
  The state of the cluster as one iteration reads it through \<open>kube_client.Interface\<close>.
  \<^item> \<open>kc_Pods\<close>: \<open>CoreV1().Pods("").List\<close>, \<open>None\<close> when the call returns an error;
  \<^item> \<open>kc_ReplicaSets ns name\<close>: the pointer that \<open>AppsV1().ReplicaSets(ns).Get(name)\<close>
    returns (its error is discarded by the caller), \<open>None\<close> when it is nil;
  \<^item> \<open>kc_ConfigMap\<close>: the \<open>Data\<close> of \<open>autoscaling-configmap\<close> in \<open>kube-system\<close>,
    \<open>None\<close> when the call returns an error;
  \<^item> \<open>kc_Events ns name\<close>: the pointer that \<open>CoreV1().Events(ns).List\<close> returns for the
    field selector \<open>involvedObject.name=name\<close> (its error is discarded by the caller),
    \<open>None\<close> when it is nil, otherwise its \<open>Items\<close>.
\<close>

record kube_client =
  kc_Pods :: "Pod list option"
  kc_ReplicaSets :: "string \<Rightarrow> string \<Rightarrow> ReplicaSet option"
  kc_ConfigMap :: "(string \<rightharpoonup> string) option"
  kc_Events :: "string \<Rightarrow> string \<Rightarrow> Event list option"

section \<open>The node-removability predicate\<close>

text \<open>The inner loop of \<open>checkWorkerNodeCanBeRemove\<close> over \<open>pod.Spec.Volumes\<close>.\<close>

fun checkVolumes :: "Volume list \<Rightarrow> bool \<Rightarrow> bool" where
  "checkVolumes [] canBeRemove = canBeRemove"
| "checkVolumes (volume # volumes) canBeRemove =
     checkVolumes volumes (if vol_EmptyDir volume \<noteq> None then False else canBeRemove)"

text \<open>
  The loop of \<open>checkWorkerNodeCanBeRemove\<close> over \<open>pods.Items\<close>. The condition
  \<open>pod.Spec.NodeName == workerNodeName && pod.OwnerReferences[0].Kind != "DaemonSet"\<close>
  reads the first owner reference only of a pod on the node (\<open>&&\<close> is short-circuit), and
  panics when there is none.
\<close>

fun checkPods :: "kube_client \<Rightarrow> string \<Rightarrow> Pod list \<Rightarrow> bool \<Rightarrow> crash + bool" where
  "checkPods kubeclient workerNodeName [] canBeRemove = Inr canBeRemove"
| "checkPods kubeclient workerNodeName (pod # pods) canBeRemove =
     (if pod_NodeName pod = workerNodeName then
        (case pod_OwnerReferences pod of
           [] \<Rightarrow> Inl IndexOutOfRange
         | owner # _ \<Rightarrow>
             if or_Kind owner \<noteq> ''DaemonSet'' then
               (case kc_ReplicaSets kubeclient (pod_Namespace pod) (or_Name owner) of
                  None \<Rightarrow> Inl NilPointerDereference
                | Some replicaset \<Rightarrow>
                    checkPods kubeclient workerNodeName pods
                      (checkVolumes (pod_Volumes pod)
                         (if rs_Replicas replicaset = 1 then False else canBeRemove)))
             else checkPods kubeclient workerNodeName pods canBeRemove)
      else checkPods kubeclient workerNodeName pods canBeRemove)"

definition checkWorkerNodeCanBeRemove :: "kube_client \<Rightarrow> string \<Rightarrow> crash + bool" where
  "checkWorkerNodeCanBeRemove kubeclient workerNodeName =
     (case kc_Pods kubeclient of
        None \<Rightarrow> Inl FatalExit
      | Some items \<Rightarrow> checkPods kubeclient workerNodeName items True)"

text \<open>
  The two blocking rules in the words of the specification: a pod blocks the removal of the
  node when it is hosted on it and (a) its first owner reference is not a DaemonSet and its
  replica set reports one replica, or (b) it declares an EmptyDir volume, whatever its owner.
\<close>

definition hasEmptyDir :: "Pod \<Rightarrow> bool" where
  "hasEmptyDir pod = (\<exists>volume \<in> set (pod_Volumes pod). vol_EmptyDir volume \<noteq> None)"

definition singleReplica :: "kube_client \<Rightarrow> Pod \<Rightarrow> bool" where
  "singleReplica kubeclient pod =
     (case pod_OwnerReferences pod of
        [] \<Rightarrow> False
      | owner # _ \<Rightarrow>
          (case kc_ReplicaSets kubeclient (pod_Namespace pod) (or_Name owner) of
             None \<Rightarrow> False
           | Some replicaset \<Rightarrow> rs_Replicas replicaset = 1))"

definition notDaemonSet :: "Pod \<Rightarrow> bool" where
  "notDaemonSet pod =
     (case pod_OwnerReferences pod of [] \<Rightarrow> False | owner # _ \<Rightarrow> or_Kind owner \<noteq> ''DaemonSet'')"

definition spec_blocks :: "kube_client \<Rightarrow> string \<Rightarrow> Pod \<Rightarrow> bool" where
  "spec_blocks kubeclient workerNodeName pod =
     (pod_NodeName pod = workerNodeName \<and>
      ((notDaemonSet pod \<and> singleReplica kubeclient pod) \<or> hasEmptyDir pod))"

text \<open>The rule the code applies: both reasons count only for a pod that is not a DaemonSet's.\<close>

definition blocks :: "kube_client \<Rightarrow> string \<Rightarrow> Pod \<Rightarrow> bool" where
  "blocks kubeclient workerNodeName pod =
     (pod_NodeName pod = workerNodeName \<and> notDaemonSet pod \<and>
      (singleReplica kubeclient pod \<or> hasEmptyDir pod))"

text \<open>
  A pod the loop can pass without a panic: off the node, or with a first owner reference
  and, unless that is a DaemonSet, a replica set object behind it.
\<close>

definition readable :: "kube_client \<Rightarrow> string \<Rightarrow> Pod \<Rightarrow> bool" where
  "readable kubeclient workerNodeName pod =
     (pod_NodeName pod \<noteq> workerNodeName \<or>
      (case pod_OwnerReferences pod of
         [] \<Rightarrow> False
       | owner # _ \<Rightarrow>
           or_Kind owner = ''DaemonSet'' \<or>
           kc_ReplicaSets kubeclient (pod_Namespace pod) (or_Name owner) \<noteq> None))"

subsection \<open>Example clusters for the removability predicate\<close>

text \<open>
  Scenario 2 of the specification: workload \<open>P\<close> on \<open>cluster-worker3\<close>, owned by a replica
  set with one replica.
\<close>

definition pod_P :: Pod where
  "pod_P = \<lparr>pod_Name = ''P'', pod_Namespace = ''default'', pod_NodeName = ''cluster-worker3'',
     pod_OwnerReferences = [\<lparr>or_Kind = ''ReplicaSet'', or_Name = ''rs-p''\<rparr>],
     pod_Volumes = [], pod_CreationTimestamp = 0\<rparr>"

definition kc_scenario2 :: kube_client where
  "kc_scenario2 = \<lparr>kc_Pods = Some [pod_P],
     kc_ReplicaSets = (\<lambda>ns name. Some \<lparr>rs_Name = name, rs_Replicas = 1\<rparr>),
     kc_ConfigMap = Some [''min_node_group_size'' \<mapsto> ''1'', ''max_node_group_size'' \<mapsto> ''2''],
     kc_Events = (\<lambda>ns name. Some [])\<rparr>"

text \<open>A DaemonSet's pod on the node, with an EmptyDir volume.\<close>

definition pod_D :: Pod where
  "pod_D = \<lparr>pod_Name = ''D'', pod_Namespace = ''kube-system'', pod_NodeName = ''cluster-worker3'',
     pod_OwnerReferences = [\<lparr>or_Kind = ''DaemonSet'', or_Name = ''ds-d''\<rparr>],
     pod_Volumes = [\<lparr>vol_Name = ''scratch'', vol_EmptyDir = Some (EmptyDirVolumeSource ''Memory'')\<rparr>],
     pod_CreationTimestamp = 0\<rparr>"

definition kc_daemon :: kube_client where
  "kc_daemon = \<lparr>kc_Pods = Some [pod_D],
     kc_ReplicaSets = (\<lambda>ns name. Some \<lparr>rs_Name = name, rs_Replicas = 3\<rparr>),
     kc_ConfigMap = Some [''min_node_group_size'' \<mapsto> ''1'', ''max_node_group_size'' \<mapsto> ''2''],
     kc_Events = (\<lambda>ns name. Some [])\<rparr>"

section \<open>What an iteration does to the outside world\<close>

text \<open>
  The calls of the autoscaler that leave the process, in the order they are made:
  the provider client of \<open>core_utils\<close> (\<open>PerformScaleUp\<close>, \<open>PerformScaleDown\<close> with the node
  count, \<open>CheckStatusCluster\<close>, \<open>CheckErrorStatusCluster\<close>), \<open>time.Sleep\<close>, the taint
  clean-up of \<open>deletetaint\<close> (with the names of the nodes it is given), a taint set or removed
  on a node by a planner, an event recorded on a pod (\<open>context.Recorder.Event\<close>, with its
  reason), an event of the log recorder, and the status config map written.
\<close>

datatype effect =
    PerformScaleUp int
  | PerformScaleDown int
  | CheckStatusCluster
  | CheckErrorStatusCluster
  | Sleep duration
  | CleanAllToBeDeleted "string list"
  | CleanAllDeletionCandidates "string list"
  | AddTaint string string
  | RemoveTaint string string
  | RecorderEvent Pod string
  | LogRecorderEvent string
  | StatusConfigMapWritten

section \<open>The scale-up status processor\<close>

datatype ScaleUpResult =
    ScaleUpSuccessful | ScaleUpError | ScaleUpNoOptionsAvailable
  | ScaleUpNotNeeded | ScaleUpNotTried | ScaleUpInCooldown

text \<open>
  \<open>status.ScaleUpStatus\<close>: the result and the pods that remain unschedulable (the \<open>Pod\<close> of
  each \<open>NoScaleUpInfo\<close>).
\<close>

record ScaleUpStatus =
  sus_Result :: ScaleUpResult
  sus_PodsRemainUnschedulable :: "Pod list"

text \<open>
  The loop of \<open>EventingScaleUpStatusProcessor.Process\<close>: for each pod the events of the pod
  are listed and the message of the first one, \<open>events.Items[0].Message\<close>, decides the
  reason of the event recorded on the pod. The loop returns the events recorded so far and
  the panic that stopped it, if any.
\<close>

fun Process_pods :: "kube_client \<Rightarrow> Pod list \<Rightarrow> effect list \<times> crash option" where
  "Process_pods kubeclient [] = ([], None)"
| "Process_pods kubeclient (pod # pods) =
     (case kc_Events kubeclient (pod_Namespace pod) (pod_Name pod) of
        None \<Rightarrow> ([], Some NilPointerDereference)
      | Some [] \<Rightarrow> ([], Some IndexOutOfRange)
      | Some (first # _) \<Rightarrow>
          (let recorded =
                 (if Contains (ev_Message first) ''Insufficient'' = False
                  then RecorderEvent pod ''NotTriggerScaleUp''
                  else RecorderEvent pod ''TriggerScaleUp'');
               rest = Process_pods kubeclient pods
           in (recorded # fst rest, snd rest)))"

definition Process :: "kube_client \<Rightarrow> ScaleUpStatus \<Rightarrow> effect list \<times> crash option" where
  "Process kubeclient status = Process_pods kubeclient (sus_PodsRemainUnschedulable status)"

text \<open>The event the specification gives a pod that remains unschedulable.\<close>

definition hasEvents :: "kube_client \<Rightarrow> Pod \<Rightarrow> bool" where
  "hasEvents kubeclient pod =
     (case kc_Events kubeclient (pod_Namespace pod) (pod_Name pod) of
        Some (first # _) \<Rightarrow> True
      | _ \<Rightarrow> False)"

definition eventFor :: "kube_client \<Rightarrow> Pod \<Rightarrow> effect" where
  "eventFor kubeclient pod =
     (case kc_Events kubeclient (pod_Namespace pod) (pod_Name pod) of
        Some (first # _) \<Rightarrow>
          (if Contains (ev_Message first) ''Insufficient''
           then RecorderEvent pod ''TriggerScaleUp''
           else RecorderEvent pod ''NotTriggerScaleUp'')
      | _ \<Rightarrow> RecorderEvent pod ''NotTriggerScaleUp'')"

subsection \<open>Example inputs of the status processor\<close>

definition kc_noEvents :: kube_client where
  "kc_noEvents = \<lparr>kc_Pods = Some [], kc_ReplicaSets = (\<lambda>ns name. None),
     kc_ConfigMap = Some Map.empty, kc_Events = (\<lambda>ns name. Some [])\<rparr>"

definition kc_insufficient :: kube_client where
  "kc_insufficient = \<lparr>kc_Pods = Some [], kc_ReplicaSets = (\<lambda>ns name. None),
     kc_ConfigMap = Some Map.empty,
     kc_Events = (\<lambda>ns name. Some [\<lparr>ev_Message = ''0/2 nodes are available: 2 Insufficient cpu.''\<rparr>])\<rparr>"

text \<open>Only pod \<open>P\<close> has an event; every other pod has none.\<close>

definition kc_onlyP :: kube_client where
  "kc_onlyP = \<lparr>kc_Pods = Some [], kc_ReplicaSets = (\<lambda>ns name. None),
     kc_ConfigMap = Some Map.empty,
     kc_Events = (\<lambda>ns name. if name = ''P''
        then Some [\<lparr>ev_Message = ''0/2 nodes are available: 2 Insufficient cpu.''\<rparr>] else Some [])\<rparr>"

definition status_P :: ScaleUpStatus where
  "status_P = \<lparr>sus_Result = ScaleUpNoOptionsAvailable, sus_PodsRemainUnschedulable = [pod_P]\<rparr>"

definition status_PD :: ScaleUpStatus where
  "status_PD = \<lparr>sus_Result = ScaleUpNoOptionsAvailable, sus_PodsRemainUnschedulable = [pod_P, pod_D]\<rparr>"

section \<open>Go integers, \<open>strconv\<close> and \<open>time\<close>\<close>

text \<open>
  A Go \<open>int\<close> of the 64-bit platforms the autoscaler is built for: an integer from
  \<open>-2^63\<close> to \<open>2^63 - 1\<close>, with subtraction that wraps around.
\<close>

definition wrap64 :: "int \<Rightarrow> int" where
  "wrap64 i = (i + 2 ^ 63) mod 2 ^ 64 - 2 ^ 63"

definition go_sub :: "int \<Rightarrow> int \<Rightarrow> int" where
  "go_sub a b = wrap64 (a - b)"

text \<open>
  \<open>strconv.Atoi\<close>: an optional sign and then one or more decimal digits; an error
  (\<open>None\<close>) for any other string and for a value outside the range of \<open>int\<close>.
\<close>

definition digitValue :: "char \<Rightarrow> int option" where
  "digitValue c = map_of
     [(CHR ''0'', 0), (CHR ''1'', 1), (CHR ''2'', 2), (CHR ''3'', 3), (CHR ''4'', 4),
      (CHR ''5'', 5), (CHR ''6'', 6), (CHR ''7'', 7), (CHR ''8'', 8), (CHR ''9'', 9)] c"

fun parseDigits :: "string \<Rightarrow> int \<Rightarrow> int option" where
  "parseDigits [] n = Some n"
| "parseDigits (c # cs) n =
     (case digitValue c of None \<Rightarrow> None | Some d \<Rightarrow> parseDigits cs (10 * n + d))"

definition fitsInt :: "int \<Rightarrow> bool" where
  "fitsInt v = (- (2 ^ 63) \<le> v \<and> v < 2 ^ 63)"

definition signAndDigits :: "string \<Rightarrow> bool \<times> string" where
  "signAndDigits s =
     (case s of
        [] \<Rightarrow> (False, s)
      | c # rest \<Rightarrow>
          if c = CHR ''-'' then (True, rest)
          else if c = CHR ''+'' then (False, rest)
          else (False, s))"

definition Atoi :: "string \<Rightarrow> int option" where
  "Atoi s =
     (let negative = fst (signAndDigits s); digits = snd (signAndDigits s)
      in if digits = [] then None
         else (case parseDigits digits 0 of
                 None \<Rightarrow> None
               | Some n \<Rightarrow>
                   (let v = (if negative then - n else n)
                    in if fitsInt v then Some v else None)))"

text \<open>\<open>strconv.Itoa\<close>: the decimal digits, most significant first, after a minus sign if any.\<close>

definition digitChar :: "nat \<Rightarrow> char" where
  "digitChar d = ''0123456789'' ! d"

function formatNat :: "nat \<Rightarrow> string" where
  "formatNat n = (if n < 10 then [digitChar n] else formatNat (n div 10) @ [digitChar (n mod 10)])"
  by pat_completeness auto
termination
  by (relation "measure id") auto

declare formatNat.simps [simp del]

definition Itoa :: "int \<Rightarrow> string" where
  "Itoa i = (if i < 0 then CHR ''-'' # formatNat (nat (- i)) else formatNat (nat i))"

text \<open>
  \<open>time.Time\<close> and \<open>time.Duration\<close> in nanoseconds. \<open>Time.Sub\<close> saturates at the largest
  and the smallest \<open>Duration\<close>; \<open>Time.Add\<close> and \<open>Time.After\<close> are the sum and the order
  of the integer line.
\<close>

definition Second :: duration where
  "Second = 1000000000"

definition maxDuration :: duration where
  "maxDuration = 2 ^ 63 - 1"

definition minDuration :: duration where
  "minDuration = - (2 ^ 63)"

definition time_Add :: "time \<Rightarrow> duration \<Rightarrow> time" where
  "time_Add t d = t + d"

definition time_After :: "time \<Rightarrow> time \<Rightarrow> bool" where
  "time_After t u = (u < t)"

definition time_Sub :: "time \<Rightarrow> time \<Rightarrow> duration" where
  "time_Sub t u =
     (if maxDuration < t - u then maxDuration
      else if t - u < minDuration then minDuration
      else t - u)"

section \<open>The gRPC expander\<close>

text \<open>
  \<open>expander.Option\<close>, with the node group stood for by its \<open>Id()\<close>, and the \<open>protos.Option\<close>
  message. A \<open>schedulerframework.NodeInfo\<close> is read only through \<open>Node()\<close>.
\<close>

record ExpanderOption =
  eo_NodeGroupId :: string
  eo_NodeCount :: int
  eo_Debug :: string
  eo_Pods :: "Pod list"

text \<open>
  The conversion \<open>int32(n)\<close> of a Go \<open>int\<close>: the low 32 bits, read as a signed number.
  The field \<open>NodeCount\<close> of the message is an \<open>int32\<close>.
\<close>

definition int32 :: "int \<Rightarrow> int" where
  "int32 n = (n + 2 ^ 31) mod 2 ^ 32 - 2 ^ 31"

record ProtoOption =
  po_NodeGroupId :: string
  po_NodeCount :: int
  po_Debug :: string
  po_Pod :: "Pod list"

record NodeInfo =
  ni_node :: "Node option"

record BestOptionsRequest =
  req_Options :: "ProtoOption option list"
  req_NodeMap :: "string \<rightharpoonup> Node option"

text \<open>\<open>protos.BestOptionsResponse\<close>: the \<open>Options\<close> slice is \<open>None\<close> when it is nil.\<close>

record BestOptionsResponse =
  resp_Options :: "ProtoOption option list option"

datatype grpc_error = DeadlineExceeded | Unavailable

text \<open>The constant \<open>gRPCTimeout\<close>.\<close>

definition gRPCTimeout :: duration where
  "gRPCTimeout = 5 * Second"

text \<open>
  The client is handed a context and a request. The context of \<open>BestOptions\<close> is the
  background context with a timeout, and is stood for by that timeout. The client answers
  with an error (a transport failure, or the deadline of the context passed) or with a
  response pointer, which may be nil.
\<close>

type_synonym ExpanderClient =
  "duration \<Rightarrow> BestOptionsRequest \<Rightarrow> grpc_error + BestOptionsResponse option"

record grpcclientstrategy =
  grpcClient :: "ExpanderClient option"

definition newOptionMessage :: "string \<Rightarrow> int \<Rightarrow> string \<Rightarrow> Pod list \<Rightarrow> ProtoOption" where
  "newOptionMessage nodeGroupId nodeCount debug pods =
     \<lparr>po_NodeGroupId = nodeGroupId, po_NodeCount = nodeCount, po_Debug = debug, po_Pod = pods\<rparr>"

text \<open>
  Modelled from the spec: \<open>populateOptionsForGRPC\<close> is called by \<open>BestOptions\<close> and its body
  is not part of the source (it is commented out there). It "creates a map of nodegroup ID
  and options, as well as a slice of Options objects for the gRPC call": one message per
  input option, in order, with the node count converted to \<open>int32\<close>, and a map from each
  node-group id to the option that carries it (the last one, when an id occurs twice).
\<close>

fun populateOptionsMap :: "ExpanderOption list \<Rightarrow> (string \<rightharpoonup> ExpanderOption) \<Rightarrow> (string \<rightharpoonup> ExpanderOption)" where
  "populateOptionsMap [] nodeGroupIDOptionMap = nodeGroupIDOptionMap"
| "populateOptionsMap (option # options) nodeGroupIDOptionMap =
     populateOptionsMap options (nodeGroupIDOptionMap(eo_NodeGroupId option \<mapsto> option))"

definition populateOptionsForGRPC ::
  "ExpanderOption list \<Rightarrow> ProtoOption option list \<times> (string \<rightharpoonup> ExpanderOption)" where
  "populateOptionsForGRPC expansionOptions =
     (map (\<lambda>option. Some (newOptionMessage (eo_NodeGroupId option) (int32 (eo_NodeCount option))
                            (eo_Debug option) (eo_Pods option))) expansionOptions,
      populateOptionsMap expansionOptions Map.empty)"

definition populateNodeInfoForGRPC :: "(string \<rightharpoonup> NodeInfo option) \<Rightarrow> (string \<rightharpoonup> Node option)" where
  "populateNodeInfoForGRPC nodeInfos =
     (\<lambda>nodeId. case nodeInfos nodeId of
        None \<Rightarrow> None
      | Some None \<Rightarrow> Some None
      | Some (Some nodeInfo) \<Rightarrow> Some (ni_node nodeInfo))"

text \<open>
  \<open>transformAndSanitizeOptionsFromGRPC\<close>: the options of the response, in the order of the
  response, without the nil ones and those whose node-group id is not in the map. The Go
  slice starts nil and is appended to, so it is nil exactly when the list is empty.
\<close>

fun transformAndSanitizeOptionsFromGRPC ::
  "ProtoOption option list \<Rightarrow> (string \<rightharpoonup> ExpanderOption) \<Rightarrow> ExpanderOption list" where
  "transformAndSanitizeOptionsFromGRPC [] nodeGroupIDOptionMap = []"
| "transformAndSanitizeOptionsFromGRPC (None # rest) nodeGroupIDOptionMap =
     transformAndSanitizeOptionsFromGRPC rest nodeGroupIDOptionMap"
| "transformAndSanitizeOptionsFromGRPC (Some option # rest) nodeGroupIDOptionMap =
     (case nodeGroupIDOptionMap (po_NodeGroupId option) of
        Some known \<Rightarrow> known # transformAndSanitizeOptionsFromGRPC rest nodeGroupIDOptionMap
      | None \<Rightarrow> transformAndSanitizeOptionsFromGRPC rest nodeGroupIDOptionMap)"

definition BestOptions ::
  "grpcclientstrategy \<Rightarrow> ExpanderOption list \<Rightarrow> (string \<rightharpoonup> NodeInfo option) \<Rightarrow> ExpanderOption list" where
  "BestOptions g expansionOptions nodeInfo =
     (case grpcClient g of
        None \<Rightarrow> expansionOptions
      | Some client \<Rightarrow>
          (let (grpcOptionsSlice, nodeGroupIDOptionMap) = populateOptionsForGRPC expansionOptions;
               grpcNodeMap = populateNodeInfoForGRPC nodeInfo
           in case client gRPCTimeout
                     \<lparr>req_Options = grpcOptionsSlice, req_NodeMap = grpcNodeMap\<rparr> of
                Inl err \<Rightarrow> expansionOptions
              | Inr None \<Rightarrow> expansionOptions
              | Inr (Some bestOptionsResponse) \<Rightarrow>
                  (case resp_Options bestOptionsResponse of
                     None \<Rightarrow> expansionOptions
                   | Some responseOptions \<Rightarrow>
                       (let options = transformAndSanitizeOptionsFromGRPC responseOptions
                                        nodeGroupIDOptionMap
                        in if options = [] then expansionOptions else options))))"

text \<open>The node-group ids a response names, nil entries left out.\<close>

fun responseIds :: "ProtoOption option list \<Rightarrow> string list" where
  "responseIds [] = []"
| "responseIds (None # rest) = responseIds rest"
| "responseIds (Some option # rest) = po_NodeGroupId option # responseIds rest"

text \<open>
  Words for the statements about \<open>BestOptions\<close>: the request it sends, the node-group ids
  of a response that occur among the input options, in the order of the response, and a
  map that files each option under its own node-group id.
\<close>

definition keyed :: "(string \<rightharpoonup> ExpanderOption) \<Rightarrow> bool" where
  "keyed m = (\<forall>j other. m j = Some other \<longrightarrow> eo_NodeGroupId other = j)"

definition request :: "ExpanderOption list \<Rightarrow> (string \<rightharpoonup> NodeInfo option) \<Rightarrow> BestOptionsRequest" where
  "request expansionOptions nodeInfo =
     \<lparr>req_Options = fst (populateOptionsForGRPC expansionOptions),
      req_NodeMap = populateNodeInfoForGRPC nodeInfo\<rparr>"

definition recognized :: "ExpanderOption list \<Rightarrow> ProtoOption option list \<Rightarrow> string list" where
  "recognized expansionOptions responseOptions =
     filter (\<lambda>i. i \<in> eo_NodeGroupId ` set expansionOptions) (responseIds responseOptions)"

subsection \<open>Example inputs of the expander\<close>

definition option_A :: ExpanderOption where
  "option_A = \<lparr>eo_NodeGroupId = ''group-a'', eo_NodeCount = 1, eo_Debug = ''a'', eo_Pods = []\<rparr>"

definition option_B :: ExpanderOption where
  "option_B = \<lparr>eo_NodeGroupId = ''group-b'', eo_NodeCount = 2, eo_Debug = ''b'', eo_Pods = []\<rparr>"

definition option_C :: ExpanderOption where
  "option_C = \<lparr>eo_NodeGroupId = ''group-c'', eo_NodeCount = 3, eo_Debug = ''c'', eo_Pods = []\<rparr>"

definition answer :: "string list \<Rightarrow> BestOptionsResponse" where
  "answer ids = \<lparr>resp_Options = Some (map (\<lambda>i. Some (newOptionMessage i 0 [] [])) ids)\<rparr>"

definition client_prefers_B_then_A :: grpcclientstrategy where
  "client_prefers_B_then_A =
     \<lparr>grpcClient = Some (\<lambda>timeout request.
        Inr (Some (answer [''group-b'', ''group-x'', ''group-a''])))\<rparr>"

definition client_timeout :: grpcclientstrategy where
  "client_timeout = \<lparr>grpcClient = Some (\<lambda>timeout request. Inl DeadlineExceeded)\<rparr>"

text \<open>A server that needs six seconds for its answer, and one that names a group twice.\<close>

definition client_slow :: grpcclientstrategy where
  "client_slow =
     \<lparr>grpcClient = Some (\<lambda>timeout request.
        if timeout < 6 * Second then Inl DeadlineExceeded
        else Inr (Some (answer [''group-b''])))\<rparr>"

definition client_repeats :: grpcclientstrategy where
  "client_repeats =
     \<lparr>grpcClient = Some (\<lambda>timeout request. Inr (Some (answer [''group-a'', ''group-a''])))\<rparr>"

definition option_huge :: ExpanderOption where
  "option_huge =
     \<lparr>eo_NodeGroupId = ''group-h'', eo_NodeCount = 2 ^ 31, eo_Debug = ''h'', eo_Pods = []\<rparr>"

section \<open>Configuration of the node group\<close>

text \<open>
  \<open>GetMinSizeNodeGroup\<close> and \<open>GetMaxSizeNodeGroup\<close> of \<open>core/utils\<close>: the loop over
  \<open>configmaps.Data\<close> finds at most one entry with the key, so it is a lookup. The size is
  0 when the key is absent; the process exits when the config map cannot be read or the
  value is not an integer.
\<close>

definition GetMinSizeNodeGroup :: "kube_client \<Rightarrow> crash + int" where
  "GetMinSizeNodeGroup kubeclient =
     (case kc_ConfigMap kubeclient of
        None \<Rightarrow> Inl FatalExit
      | Some data \<Rightarrow>
          (case data ''min_node_group_size'' of
             None \<Rightarrow> Inr 0
           | Some v \<Rightarrow> (case Atoi v of None \<Rightarrow> Inl FatalExit | Some value \<Rightarrow> Inr value)))"

definition GetMaxSizeNodeGroup :: "kube_client \<Rightarrow> crash + int" where
  "GetMaxSizeNodeGroup kubeclient =
     (case kc_ConfigMap kubeclient of
        None \<Rightarrow> Inl FatalExit
      | Some data \<Rightarrow>
          (case data ''max_node_group_size'' of
             None \<Rightarrow> Inr 0
           | Some v \<Rightarrow> (case Atoi v of None \<Rightarrow> Inl FatalExit | Some value \<Rightarrow> Inr value)))"

section \<open>The autoscaler and its collaborators\<close>

datatype AutoscalerErrorType =
  CloudProviderError | ApiCallError | InternalError | TransientError | ConfigurationError

datatype ScaleDownResult =
    ScaleDownError | ScaleDownNoUnneeded | ScaleDownNoNodeDeleted | ScaleDownNodeDeleteStarted
  | ScaleDownNotTried | ScaleDownInCooldown | ScaleDownInProgress

text \<open>The fields of \<open>config.AutoscalingOptions\<close> that \<open>RunOnce\<close> reads.\<close>

record AutoscalingOptions =
  ScaleDownEnabled :: bool
  ScaleDownDelayAfterAdd :: duration
  ScaleDownDelayAfterDelete :: duration
  ScaleDownDelayAfterFailure :: duration
  NewPodScaleUpDelay :: duration
  MaxBulkSoftTaintCount :: int
  WriteStatusConfigMap :: bool

text \<open>
  \<open>StaticAutoscaler\<close>: the three cooldown timestamps, \<open>initialized\<close>, the flag
  \<open>disableScaleDownForLoop\<close> of its processor callbacks, its options, and which of the two
  status processors of \<open>a.processors\<close> are set (\<open>a.processors\<close> itself is not nil:
  \<open>RunOnce\<close> reads it unguarded). A scale-up status processor that is set is the
  \<open>EventingScaleUpStatusProcessor\<close>.
\<close>

record StaticAutoscaler =
  lastScaleUpTime :: time
  lastScaleDownDeleteTime :: time
  lastScaleDownFailTime :: time
  initialized :: bool
  disableScaleDownForLoop :: bool
  AutoscalingOptions :: AutoscalingOptions
  ScaleUpStatusProcessor :: bool
  ScaleDownStatusProcessor :: bool

text \<open>
  One round of the polling loops: what \<open>CheckStatusCluster\<close> answers and, when it is asked,
  what \<open>CheckErrorStatusCluster\<close> answers.
\<close>

record poll =
  isSucceededStatus :: bool
  isErrorStatus :: bool

text \<open>What the two planners hand back: their status, their error and what they did outside.\<close>

record scale_up_outcome =
  suo_Status :: ScaleUpStatus
  suo_Err :: "AutoscalerErrorType option"
  suo_Effects :: "effect list"

record scale_down_outcome =
  sdo_Result :: ScaleDownResult
  sdo_Err :: "AutoscalerErrorType option"
  sdo_Effects :: "effect list"

text \<open>
  The answers of the collaborators of \<open>RunOnce\<close> whose code is outside the source, for one
  iteration, in the order of the calls. A lister answers \<open>None\<close> for an error.
  \<^item> \<open>it_ReadyNodesAtCleanUp\<close>: \<open>ReadyNodeLister().List()\<close> in \<open>cleanUpIfRequired\<close>;
  \<^item> \<open>it_AllNodes1\<close>, \<open>it_ReadyNodes1\<close> and \<open>it_AllNodes2\<close>, \<open>it_ReadyNodes2\<close>: the listers
    in the first and the second \<open>obtainNodeLists\<close>;
  \<^item> \<open>it_Provider\<close>: the rounds of status polling of the provider, as long as it is watched;
  \<^item> \<open>it_ScheduledPods\<close>, \<open>it_DaemonSets\<close>, \<open>it_UnschedulablePods\<close>,
    \<open>it_PodDisruptionBudgets\<close>: the other listers;
  \<^item> \<open>it_ShouldAbort\<close>: \<open>ActionableClusterProcessor.ShouldAbort\<close>;
  \<^item> \<open>it_InitializeClusterSnapshot\<close>: the error of \<open>initializeClusterSnapshot\<close>, which comes
    from \<open>ClusterSnapshot.AddNode\<close> and \<open>AddPod\<close>;
  \<^item> \<open>it_IsClusterHealthy\<close>: \<open>clusterStateRegistry.IsClusterHealthy()\<close>;
  \<^item> \<open>it_FilterOutExpendableAndSplit\<close>: \<open>tpu.ClearTPURequests\<close> and then
    \<open>core_utils.FilterOutExpendableAndSplit\<close>: the pods left and those waiting for preemption;
  \<^item> \<open>it_AddPodFails\<close>: whether \<open>ClusterSnapshot.AddPod\<close> fails for a pod waiting for preemption;
  \<^item> \<open>it_PodListProcessor\<close>: \<open>PodListProcessor.Process\<close>;
  \<^item> \<open>it_ScaleUp\<close>: the planner \<open>ScaleUp\<close> on the pods to help;
  \<^item> \<open>it_ScaleDownNodeProcessor\<close>: \<open>None\<close> when the processor is nil, otherwise the answers
    of \<open>GetScaleDownCandidates\<close> and \<open>GetPodDestinationCandidates\<close>;
  \<^item> \<open>it_UpdateUnneededNodes\<close>: the error of \<open>scaleDown.UpdateUnneededNodes\<close>;
  \<^item> \<open>it_IsNonEmptyNodeDeleteInProgress\<close>: the node deletion tracker;
  \<^item> \<open>it_TryToScaleDown\<close>: what the planner \<open>scaleDown.TryToScaleDown\<close> does with the
    unneeded nodes, when there are some;
  \<^item> \<open>it_UnneededNodes\<close>: the names of the nodes that \<open>scaleDown.UpdateUnneededNodes\<close> has
    found unneeded.
\<close>

record iteration =
  it_ReadyNodesAtCleanUp :: "Node list option"
  it_AllNodes1 :: "Node list option"
  it_ReadyNodes1 :: "Node list option"
  it_Provider :: "poll list"
  it_AllNodes2 :: "Node list option"
  it_ReadyNodes2 :: "Node list option"
  it_ScheduledPods :: "Pod list option"
  it_ShouldAbort :: "bool \<times> AutoscalerErrorType option"
  it_DaemonSets :: "string list option"
  it_InitializeClusterSnapshot :: "AutoscalerErrorType option"
  it_IsClusterHealthy :: bool
  it_UnschedulablePods :: "Pod list option"
  it_FilterOutExpendableAndSplit :: "Pod list \<Rightarrow> Pod list \<times> Pod list"
  it_AddPodFails :: "Pod \<Rightarrow> bool"
  it_PodListProcessor :: "Pod list \<Rightarrow> Pod list"
  it_ScaleUp :: "Pod list \<Rightarrow> scale_up_outcome"
  it_PodDisruptionBudgets :: "string list option"
  it_ScaleDownNodeProcessor ::
    "((AutoscalerErrorType + Node list) \<times> (AutoscalerErrorType + Node list)) option"
  it_UpdateUnneededNodes :: "AutoscalerErrorType option"
  it_IsNonEmptyNodeDeleteInProgress :: bool
  it_TryToScaleDown :: scale_down_outcome
  it_UnneededNodes :: "string list"

text \<open>
  The trace of a run: what it does outside, and its calls of the planners and processors.
\<close>

datatype call =
    CleanUpUnneededNodes
  | PodListProcess
  | ScaleUp "Pod list"
  | UpdateUnneededNodes
  | TryToScaleDown
  | SoftTaintUnneededNodes
  | ScaleDownStatusProcess ScaleDownResult
  | AutoscalingStatusProcess

datatype event = Effect effect | Call call

text \<open>
  How a run ends: \<open>RunOnce\<close> returns an error or nil, or the process dies, or the run is
  still in a polling loop when the provider is no longer watched.
\<close>

datatype ending = Returned "AutoscalerErrorType option" | Crashed crash | StillPolling

section \<open>\<open>RunOnce\<close>\<close>

subsection \<open>Clean-up and node lists\<close>

definition cleanUpIfRequired :: "StaticAutoscaler \<Rightarrow> Node list option \<Rightarrow> StaticAutoscaler \<times> effect list" where
  "cleanUpIfRequired a listed =
     (if initialized a then (a, [])
      else
        (a\<lparr>initialized := True\<rparr>,
         case listed of
           None \<Rightarrow> []
         | Some readyNodes \<Rightarrow>
             CleanAllToBeDeleted (map node_Name readyNodes) #
             (if MaxBulkSoftTaintCount (AutoscalingOptions a) = 0
              then [CleanAllDeletionCandidates (map node_Name readyNodes)]
              else [])))"

definition obtainNodeLists ::
  "Node list option \<Rightarrow> Node list option \<Rightarrow> AutoscalerErrorType + Node list \<times> Node list" where
  "obtainNodeLists listedAll listedReady =
     (case listedAll of
        None \<Rightarrow> Inl ApiCallError
      | Some allNodes \<Rightarrow>
          (case listedReady of
             None \<Rightarrow> Inl ApiCallError
           | Some readyNodes \<Rightarrow> Inr (allNodes, readyNodes)))"

subsection \<open>Bounds enforcement\<close>

text \<open>The loop that collects the names of the nodes whose name contains \<open>worker\<close>.\<close>

fun workerNodeNames :: "Node list \<Rightarrow> string list" where
  "workerNodeNames [] = []"
| "workerNodeNames (node # nodes) =
     (if Contains (node_Name node) ''worker''
      then node_Name node # workerNodeNames nodes
      else workerNodeNames nodes)"

text \<open>
  The loop that sets \<open>workerNameToRemove\<close>: every name with the suffix overwrites it, so the
  last one stays, and the initial value (the empty string) stays when there is none.
\<close>

fun selectWorker :: "string list \<Rightarrow> string \<Rightarrow> string \<Rightarrow> string" where
  "selectWorker [] wanted workerNameToRemove = workerNameToRemove"
| "selectWorker (nodeName # rest) wanted workerNameToRemove =
     selectWorker rest wanted
       (if HasSuffix nodeName wanted then nodeName else workerNameToRemove)"

text \<open>
  The inner polling loop, entered after the request was repeated: sleep thirty seconds, ask
  \<open>CheckStatusCluster\<close>, leave when it succeeded. The result says whether the loop was left.
\<close>

fun pollAfterRetry :: "poll list \<Rightarrow> effect list \<times> bool" where
  "pollAfterRetry [] = ([], False)"
| "pollAfterRetry (p # ps) =
     (if isSucceededStatus p then ([Sleep (30 * Second), CheckStatusCluster], True)
      else (let rest = pollAfterRetry ps
            in (Sleep (30 * Second) # CheckStatusCluster # fst rest, snd rest)))"

text \<open>
  The outer polling loop after a request: sleep thirty seconds, ask \<open>CheckStatusCluster\<close>
  and leave when it succeeded; otherwise ask \<open>CheckErrorStatusCluster\<close>, and on an error
  repeat the request, poll in the inner loop, and leave.
\<close>

fun pollProvider :: "effect \<Rightarrow> poll list \<Rightarrow> effect list \<times> bool" where
  "pollProvider scaleRequest [] = ([], False)"
| "pollProvider scaleRequest (p # ps) =
     (if isSucceededStatus p then ([Sleep (30 * Second), CheckStatusCluster], True)
      else if isErrorStatus p then
        (let rest = pollAfterRetry ps
         in (Sleep (30 * Second) # CheckStatusCluster # CheckErrorStatusCluster # scaleRequest # fst rest,
             snd rest))
      else
        (let rest = pollProvider scaleRequest ps
         in (Sleep (30 * Second) # CheckStatusCluster # CheckErrorStatusCluster # fst rest,
             snd rest)))"

text \<open>The trace of rounds of polling: while scaling, while waiting after a retry, and the last.\<close>

definition scalingRounds :: "nat \<Rightarrow> effect list" where
  "scalingRounds n =
     concat (replicate n [Sleep (30 * Second), CheckStatusCluster, CheckErrorStatusCluster])"

definition waitingRounds :: "nat \<Rightarrow> effect list" where
  "waitingRounds n = concat (replicate n [Sleep (30 * Second), CheckStatusCluster])"

definition succeededRound :: "effect list" where
  "succeededRound = [Sleep (30 * Second), CheckStatusCluster]"

definition errorRound :: "effect \<Rightarrow> effect list" where
  "errorRound scaleRequest =
     [Sleep (30 * Second), CheckStatusCluster, CheckErrorStatusCluster, scaleRequest]"

datatype bounds_end = BoundsPassed | BoundsReturnedNil | BoundsCrashed crash | BoundsStillPolling

definition scaleAndPoll :: "effect \<Rightarrow> poll list \<Rightarrow> effect list \<times> bounds_end" where
  "scaleAndPoll scaleRequest polls =
     (let polled = pollProvider scaleRequest polls
      in (scaleRequest # fst polled, if snd polled then BoundsPassed else BoundsStillPolling))"

text \<open>
  Lines 262 to 339 of \<open>RunOnce\<close>: the worker count against the minimum, and only if it is
  not below the minimum, against the maximum.
\<close>

definition enforceBounds :: "kube_client \<Rightarrow> poll list \<Rightarrow> Node list \<Rightarrow> effect list \<times> bounds_end" where
  "enforceBounds kubeclient polls allNodes =
     (let workerNodeNameList = workerNodeNames allNodes;
          numberWorkerNode = int (length workerNodeNameList)
      in case GetMinSizeNodeGroup kubeclient of
           Inl c \<Rightarrow> ([], BoundsCrashed c)
         | Inr minSize \<Rightarrow>
             if numberWorkerNode < minSize then
               (let workerCountNeedToScaledUp = go_sub minSize numberWorkerNode
                in scaleAndPoll (PerformScaleUp workerCountNeedToScaledUp) polls)
             else
               (case GetMaxSizeNodeGroup kubeclient of
                  Inl c \<Rightarrow> ([], BoundsCrashed c)
                | Inr maxSize \<Rightarrow>
                    if maxSize < numberWorkerNode then
                      (let workerNameToRemove =
                             selectWorker workerNodeNameList
                               (''worker'' @ Itoa (int (length workerNodeNameList))) [];
                           workerCountNeedToScaledDown = go_sub numberWorkerNode maxSize
                       in case checkWorkerNodeCanBeRemove kubeclient workerNameToRemove of
                            Inl c \<Rightarrow> ([], BoundsCrashed c)
                          | Inr False \<Rightarrow> ([], BoundsReturnedNil)
                          | Inr True \<Rightarrow>
                              scaleAndPoll (PerformScaleDown workerCountNeedToScaledDown) polls)
                    else ([], BoundsPassed)))"

subsection \<open>Listing and snapshot\<close>

text \<open>
  Lines 341 to 434: the second node lists, the scheduled pods, the abort check, the daemon
  sets and the snapshot. Each failure returns before the deferred status update is set up.
\<close>

definition listCluster :: "iteration \<Rightarrow> ending + Node list \<times> Node list" where
  "listCluster it =
     (case obtainNodeLists (it_AllNodes2 it) (it_ReadyNodes2 it) of
        Inl typedErr \<Rightarrow> Inl (Returned (Some typedErr))
      | Inr nodes \<Rightarrow>
          (case it_ScheduledPods it of
             None \<Rightarrow> Inl (Returned (Some ApiCallError))
           | Some originalScheduledPods \<Rightarrow>
               if fst (it_ShouldAbort it) then Inl (Returned (snd (it_ShouldAbort it)))
               else
                 (case it_DaemonSets it of
                    None \<Rightarrow> Inl (Returned (Some ApiCallError))
                  | Some daemonsets \<Rightarrow>
                      (case it_InitializeClusterSnapshot it of
                         Some typedErr \<Rightarrow> Inl (Returned (Some typedErr))
                       | None \<Rightarrow> Inr nodes))))"

subsection \<open>Young pods\<close>

fun filterOutYoungPods_loop :: "duration \<Rightarrow> time \<Rightarrow> Pod list \<Rightarrow> Pod list" where
  "filterOutYoungPods_loop newPodScaleUpDelay currentTime [] = []"
| "filterOutYoungPods_loop newPodScaleUpDelay currentTime (pod # pods) =
     (let podAge = time_Sub currentTime (pod_CreationTimestamp pod)
      in if newPodScaleUpDelay < podAge
         then pod # filterOutYoungPods_loop newPodScaleUpDelay currentTime pods
         else filterOutYoungPods_loop newPodScaleUpDelay currentTime pods)"

definition filterOutYoungPods :: "StaticAutoscaler \<Rightarrow> Pod list \<Rightarrow> time \<Rightarrow> Pod list" where
  "filterOutYoungPods a allUnschedulablePods currentTime =
     filterOutYoungPods_loop (NewPodScaleUpDelay (AutoscalingOptions a)) currentTime
       allUnschedulablePods"

definition unschedulablePodTimeBuffer :: duration where
  "unschedulablePodTimeBuffer = 2 * Second"

text \<open>
  Modelled from the spec: \<open>core_utils.GetOldestCreateTime\<close> is called by \<open>allPodsAreNew\<close>
  and is not part of the source. The buffer is "measured via the oldest creation time":
  the earliest creation timestamp of the pods. \<open>RunOnce\<close> calls it on a list that is not
  empty; for the empty list, where the specification names no time, it is the origin of
  the time line.
\<close>

fun oldestFrom :: "time \<Rightarrow> Pod list \<Rightarrow> time" where
  "oldestFrom oldest [] = oldest"
| "oldestFrom oldest (pod # pods) =
     oldestFrom (if pod_CreationTimestamp pod < oldest then pod_CreationTimestamp pod else oldest) pods"

definition GetOldestCreateTime :: "Pod list \<Rightarrow> time" where
  "GetOldestCreateTime pods =
     (case pods of [] \<Rightarrow> 0 | pod # rest \<Rightarrow> oldestFrom (pod_CreationTimestamp pod) rest)"

definition allPodsAreNew :: "Pod list \<Rightarrow> time \<Rightarrow> bool" where
  "allPodsAreNew pods currentTime =
     (if time_After (time_Add (GetOldestCreateTime pods) unschedulablePodTimeBuffer)
           currentTime
      then True else False)"

subsection \<open>Scale-up, scale-down and the deferred status update\<close>

text \<open>
  The variables of \<open>RunOnce\<close> from line 436 on: the autoscaler, the trace so far, the two
  status variables and the two flags of the status processors, and \<open>ls_return\<close>, which is set
  once the function has returned or panicked.
\<close>

record loop_state =
  ls_autoscaler :: StaticAutoscaler
  ls_trace :: "event list"
  ls_return :: "ending option"
  ls_scaleUpStatus :: ScaleUpStatus
  ls_scaleUpStatusProcessorAlreadyCalled :: bool
  ls_scaleDownResult :: ScaleDownResult
  ls_scaleDownStatusProcessorAlreadyCalled :: bool

text \<open>Lines 616 to 625: after the planner and the status processor.\<close>

definition afterScaleUp :: "time \<Rightarrow> scale_up_outcome \<Rightarrow> loop_state \<Rightarrow> loop_state" where
  "afterScaleUp currentTime out s =
     (case suo_Err out of
        Some typedErr \<Rightarrow> s\<lparr>ls_return := Some (Returned (Some typedErr))\<rparr>
      | None \<Rightarrow>
          if sus_Result (suo_Status out) = ScaleUpSuccessful then
            s\<lparr>ls_autoscaler := (ls_autoscaler s)\<lparr>lastScaleUpTime := currentTime\<rparr>,
              ls_scaleDownResult := ScaleDownInCooldown,
              ls_return := Some (Returned None)\<rparr>
          else s)"

text \<open>Lines 582 to 626.\<close>

definition tryScaleUp :: "time \<Rightarrow> kube_client \<Rightarrow> iteration \<Rightarrow> Pod list \<Rightarrow> loop_state \<Rightarrow> loop_state" where
  "tryScaleUp currentTime kubeclient it unschedulablePodsToHelp s =
     (if length unschedulablePodsToHelp = 0 then
        s\<lparr>ls_scaleUpStatus := (ls_scaleUpStatus s)\<lparr>sus_Result := ScaleUpNotNeeded\<rparr>\<rparr>
      else if allPodsAreNew unschedulablePodsToHelp currentTime then
        s\<lparr>ls_autoscaler := (ls_autoscaler s)\<lparr>disableScaleDownForLoop := True\<rparr>,
          ls_scaleUpStatus := (ls_scaleUpStatus s)\<lparr>sus_Result := ScaleUpInCooldown\<rparr>\<rparr>
      else
        (let out = it_ScaleUp it unschedulablePodsToHelp;
             s1 = s\<lparr>ls_scaleUpStatus := suo_Status out,
                    ls_trace := ls_trace s @ Call (ScaleUp unschedulablePodsToHelp) #
                                  map Effect (suo_Effects out)\<rparr>
         in if ScaleUpStatusProcessor (ls_autoscaler s) then
              (let processed = Process kubeclient (suo_Status out);
                   s2 = s1\<lparr>ls_trace := ls_trace s1 @ map Effect (fst processed)\<rparr>
               in case snd processed of
                    Some c \<Rightarrow> s2\<lparr>ls_return := Some (Crashed c)\<rparr>
                  | None \<Rightarrow>
                      afterScaleUp currentTime out
                        (s2\<lparr>ls_scaleUpStatusProcessorAlreadyCalled := True\<rparr>))
            else afterScaleUp currentTime out s1))"

text \<open>Lines 719 to 722.\<close>

definition scaleDownInCooldown :: "StaticAutoscaler \<Rightarrow> time \<Rightarrow> bool" where
  "scaleDownInCooldown a currentTime =
     (disableScaleDownForLoop a \<or>
      time_After (time_Add (lastScaleUpTime a) (ScaleDownDelayAfterAdd (AutoscalingOptions a)))
        currentTime \<or>
      time_After (time_Add (lastScaleDownFailTime a) (ScaleDownDelayAfterFailure (AutoscalingOptions a)))
        currentTime \<or>
      time_After (time_Add (lastScaleDownDeleteTime a) (ScaleDownDelayAfterDelete (AutoscalingOptions a)))
        currentTime)"

text \<open>Lines 665 to 701: the candidates and the destinations of a scale-down.\<close>

definition scaleDownNodes :: "Node list \<Rightarrow> iteration \<Rightarrow> AutoscalerErrorType + Node list \<times> Node list" where
  "scaleDownNodes allNodes it =
     (case it_ScaleDownNodeProcessor it of
        None \<Rightarrow> Inr (allNodes, allNodes)
      | Some answers \<Rightarrow>
          (case fst answers of
             Inl err \<Rightarrow> Inl err
           | Inr scaleDownCandidates \<Rightarrow>
               (case snd answers of
                  Inl err \<Rightarrow> Inl err
                | Inr podDestinations \<Rightarrow> Inr (scaleDownCandidates, podDestinations))))"

text \<open>
  Modelled from the spec: the body of \<open>scaleDown.TryToScaleDown\<close> is not part of the source.
  The specification gives the planner the outcome "no-unneeded (nothing qualifies)" when
  no node is unneeded: it has then no node to taint, to drain or to delete, and no request
  for the provider. What it does with unneeded nodes (stabilization, selection, the
  hard-delete path) is the answer \<open>it_TryToScaleDown\<close>.
\<close>

definition scaleDown_TryToScaleDown :: "iteration \<Rightarrow> scale_down_outcome" where
  "scaleDown_TryToScaleDown it =
     (if it_UnneededNodes it = []
      then \<lparr>sdo_Result = ScaleDownNoUnneeded, sdo_Err = None, sdo_Effects = []\<rparr>
      else it_TryToScaleDown it)"

text \<open>
  Modelled from the spec: the body of \<open>scaleDown.SoftTaintUnneededNodes\<close> is not part of the
  source. The specification: "apply the deletion-candidate soft taint to up to
  \<open>max_bulk_soft_taint_count\<close> unneeded nodes".
\<close>

definition scaleDown_SoftTaintUnneededNodes :: "AutoscalingOptions \<Rightarrow> string list \<Rightarrow> effect list" where
  "scaleDown_SoftTaintUnneededNodes options unneeded =
     map (\<lambda>node. AddTaint node ''DeletionCandidate'')
       (take (nat (MaxBulkSoftTaintCount options)) unneeded)"

text \<open>
  Lines 746 to 790. The status that \<open>TryToScaleDown\<close> returns is bound to a new variable of
  the block (\<open>scaleDownStatus, typedErr := ...\<close>), so the status variable of the function,
  which the deferred update reads, keeps its value.
\<close>

definition startScaleDown :: "time \<Rightarrow> iteration \<Rightarrow> loop_state \<Rightarrow> loop_state" where
  "startScaleDown currentTime it s =
     (let out = scaleDown_TryToScaleDown it;
          a = ls_autoscaler s;
          a1 = (if sdo_Result out = ScaleDownNodeDeleteStarted
                then a\<lparr>lastScaleDownDeleteTime := currentTime\<rparr> else a);
          softTaint =
            (if (sdo_Result out = ScaleDownNoNodeDeleted \<or> sdo_Result out = ScaleDownNoUnneeded) \<and>
                MaxBulkSoftTaintCount (AutoscalingOptions a) \<noteq> 0
             then Call SoftTaintUnneededNodes #
                  map Effect (scaleDown_SoftTaintUnneededNodes (AutoscalingOptions a)
                                (it_UnneededNodes it))
             else []);
          processed =
            (if ScaleDownStatusProcessor a then [Call (ScaleDownStatusProcess (sdo_Result out))]
             else []);
          s1 = s\<lparr>ls_autoscaler := a1,
                 ls_trace := ls_trace s @ Call TryToScaleDown # map Effect (sdo_Effects out) @
                               softTaint @ processed,
                 ls_scaleDownStatusProcessorAlreadyCalled :=
                   (ScaleDownStatusProcessor a \<or> ls_scaleDownStatusProcessorAlreadyCalled s)\<rparr>
      in case sdo_Err out of
           Some typedErr \<Rightarrow>
             s1\<lparr>ls_autoscaler := a1\<lparr>lastScaleDownFailTime := currentTime\<rparr>,
                ls_return := Some (Returned (Some typedErr))\<rparr>
         | None \<Rightarrow> s1)"

text \<open>Lines 631 to 792.\<close>

definition tryScaleDown :: "time \<Rightarrow> Node list \<Rightarrow> iteration \<Rightarrow> loop_state \<Rightarrow> loop_state" where
  "tryScaleDown currentTime allNodes it s =
     (if \<not> ScaleDownEnabled (AutoscalingOptions (ls_autoscaler s)) then s
      else
        (case it_PodDisruptionBudgets it of
           None \<Rightarrow>
             s\<lparr>ls_scaleDownResult := ScaleDownError,
               ls_return := Some (Returned (Some ApiCallError))\<rparr>
         | Some pdbs \<Rightarrow>
             (case scaleDownNodes allNodes it of
                Inl err \<Rightarrow> s\<lparr>ls_return := Some (Returned (Some err))\<rparr>
              | Inr nodes \<Rightarrow>
                  (let s1 = s\<lparr>ls_trace := ls_trace s @ [Call UpdateUnneededNodes]\<rparr>
                   in case it_UpdateUnneededNodes it of
                        Some typedErr \<Rightarrow>
                          s1\<lparr>ls_scaleDownResult := ScaleDownError,
                             ls_return := Some (Returned (Some typedErr))\<rparr>
                      | None \<Rightarrow>
                          if scaleDownInCooldown (ls_autoscaler s) currentTime then
                            s1\<lparr>ls_scaleDownResult := ScaleDownInCooldown\<rparr>
                          else if it_IsNonEmptyNodeDeleteInProgress it then
                            s1\<lparr>ls_scaleDownResult := ScaleDownInProgress\<rparr>
                          else startScaleDown currentTime it s1))))"

text \<open>Lines 436 to 793, without the deferred function.\<close>

definition reconcile :: "time \<Rightarrow> kube_client \<Rightarrow> Node list \<Rightarrow> iteration \<Rightarrow> StaticAutoscaler \<Rightarrow> loop_state" where
  "reconcile currentTime kubeclient allNodes it a =
     (let s = \<lparr>ls_autoscaler = a, ls_trace = [], ls_return = None,
               ls_scaleUpStatus =
                 \<lparr>sus_Result = ScaleUpNotTried, sus_PodsRemainUnschedulable = []\<rparr>,
               ls_scaleUpStatusProcessorAlreadyCalled = False,
               ls_scaleDownResult = ScaleDownNotTried,
               ls_scaleDownStatusProcessorAlreadyCalled = False\<rparr>
      in if \<not> it_IsClusterHealthy it then
           s\<lparr>ls_trace := [Call CleanUpUnneededNodes, Effect (LogRecorderEvent ''ClusterUnhealthy'')],
             ls_return := Some (Returned None)\<rparr>
         else
           (case it_UnschedulablePods it of
              None \<Rightarrow> s\<lparr>ls_return := Some (Returned (Some ApiCallError))\<rparr>
            | Some listed \<Rightarrow>
                (let split = it_FilterOutExpendableAndSplit it listed;
                     unschedulablePods = fst split;
                     unschedulableWaitingForLowerPriorityPreemption = snd split
                 in if list_ex (it_AddPodFails it) unschedulableWaitingForLowerPriorityPreemption
                    then s\<lparr>ls_return := Some (Returned (Some InternalError))\<rparr>
                    else
                      (let unschedulablePodsToHelp =
                             filterOutYoungPods a (it_PodListProcessor it unschedulablePods)
                               currentTime;
                           s1 = tryScaleUp currentTime kubeclient it unschedulablePodsToHelp
                                  (s\<lparr>ls_trace := [Call PodListProcess]\<rparr>)
                       in if ls_return s1 \<noteq> None then s1
                          else tryScaleDown currentTime allNodes it s1))))"

text \<open>
  The deferred function of lines 441 to 463, which runs when \<open>RunOnce\<close> returns and when it
  panics: the status config map, the scale-up status processor unless it was called, the
  scale-down status processor unless it was called, the autoscaling status processor. A
  panic in it ends it.
\<close>

definition deferredStatusUpdate :: "kube_client \<Rightarrow> loop_state \<Rightarrow> event list \<times> crash option" where
  "deferredStatusUpdate kubeclient s =
     (let a = ls_autoscaler s;
          written = (if WriteStatusConfigMap (AutoscalingOptions a)
                     then [Effect StatusConfigMapWritten] else []);
          processed = (if \<not> ls_scaleUpStatusProcessorAlreadyCalled s \<and> ScaleUpStatusProcessor a
                       then Process kubeclient (ls_scaleUpStatus s) else ([], None))
      in case snd processed of
           Some c \<Rightarrow> (written @ map Effect (fst processed), Some c)
         | None \<Rightarrow>
             (written @ map Effect (fst processed) @
              (if \<not> ls_scaleDownStatusProcessorAlreadyCalled s \<and> ScaleDownStatusProcessor a
               then [Call (ScaleDownStatusProcess (ls_scaleDownResult s))] else []) @
              [Call AutoscalingStatusProcess],
              None))"

subsection \<open>The whole iteration\<close>

text \<open>
  What a run of \<open>RunOnce\<close> leaves: the autoscaler, the trace, how it ended, and the results
  in the two status variables (not tried, when the run ended before they were set up).
\<close>

record run =
  run_autoscaler :: StaticAutoscaler
  run_trace :: "event list"
  run_ending :: ending
  run_scaleUpResult :: ScaleUpResult
  run_scaleDownResult :: ScaleDownResult

text \<open>
  The node list of line 258: the error of the first \<open>obtainNodeLists\<close> is overwritten at
  line 341 before it is read, and the list is nil when there was one.
\<close>

definition firstNodeList :: "iteration \<Rightarrow> Node list" where
  "firstNodeList it =
     (case obtainNodeLists (it_AllNodes1 it) (it_ReadyNodes1 it) of
        Inl typedErr \<Rightarrow> []
      | Inr nodes \<Rightarrow> fst nodes)"

definition numberWorkerNode :: "iteration \<Rightarrow> int" where
  "numberWorkerNode it = int (length (workerNodeNames (firstNodeList it)))"

definition RunOnce :: "StaticAutoscaler \<Rightarrow> time \<Rightarrow> kube_client \<Rightarrow> iteration \<Rightarrow> run" where
  "RunOnce a0 currentTime kubeclient it =
     (let cleaned = cleanUpIfRequired a0 (it_ReadyNodesAtCleanUp it);
          a = (fst cleaned)\<lparr>disableScaleDownForLoop := False\<rparr>;
          allNodes = firstNodeList it;
          bounds = enforceBounds kubeclient (it_Provider it) allNodes;
          before = map Effect (snd cleaned @ fst bounds);
          early = (\<lambda>e. \<lparr>run_autoscaler = a, run_trace = before, run_ending = e,
                         run_scaleUpResult = ScaleUpNotTried,
                         run_scaleDownResult = ScaleDownNotTried\<rparr>)
      in case snd bounds of
           BoundsCrashed c \<Rightarrow> early (Crashed c)
         | BoundsStillPolling \<Rightarrow> early StillPolling
         | BoundsReturnedNil \<Rightarrow> early (Returned None)
         | BoundsPassed \<Rightarrow>
             (case listCluster it of
                Inl e \<Rightarrow> early e
              | Inr nodes \<Rightarrow>
                  (let s = reconcile currentTime kubeclient (fst nodes) it a;
                       deferred = deferredStatusUpdate kubeclient s
                   in \<lparr>run_autoscaler = ls_autoscaler s,
                       run_trace = before @ ls_trace s @ fst deferred,
                       run_ending =
                         (case snd deferred of
                            Some c \<Rightarrow> Crashed c
                          | None \<Rightarrow>
                              (case ls_return s of None \<Rightarrow> Returned None | Some e \<Rightarrow> e)),
                       run_scaleUpResult = sus_Result (ls_scaleUpStatus s),
                       run_scaleDownResult = ls_scaleDownResult s\<rparr>)))"

subsection \<open>Words and example runs for the bounds enforcement\<close>

definition cleanUpEffects :: "StaticAutoscaler \<Rightarrow> iteration \<Rightarrow> effect list" where
  "cleanUpEffects a it = snd (cleanUpIfRequired a (it_ReadyNodesAtCleanUp it))"

definition options_default :: AutoscalingOptions where
  "options_default =
     \<lparr>ScaleDownEnabled = True, ScaleDownDelayAfterAdd = 600 * Second,
      ScaleDownDelayAfterDelete = 0, ScaleDownDelayAfterFailure = 180 * Second,
      NewPodScaleUpDelay = 0, MaxBulkSoftTaintCount = 10, WriteStatusConfigMap = True\<rparr>"

definition autoscaler_running :: StaticAutoscaler where
  "autoscaler_running =
     \<lparr>lastScaleUpTime = 0, lastScaleDownDeleteTime = 0, lastScaleDownFailTime = 0,
      initialized = True, disableScaleDownForLoop = False,
      AutoscalingOptions = options_default,
      ScaleUpStatusProcessor = True, ScaleDownStatusProcessor = True\<rparr>"

definition nodeNamed :: "string \<Rightarrow> Node" where
  "nodeNamed name = \<lparr>node_Name = name\<rparr>"

definition uneventful :: "Node list \<Rightarrow> iteration" where
  "uneventful nodes =
     \<lparr>it_ReadyNodesAtCleanUp = Some nodes,
      it_AllNodes1 = Some nodes, it_ReadyNodes1 = Some nodes,
      it_Provider = [],
      it_AllNodes2 = Some nodes, it_ReadyNodes2 = Some nodes,
      it_ScheduledPods = Some [],
      it_ShouldAbort = (False, None),
      it_DaemonSets = Some [],
      it_InitializeClusterSnapshot = None,
      it_IsClusterHealthy = True,
      it_UnschedulablePods = Some [],
      it_FilterOutExpendableAndSplit = (\<lambda>pods. (pods, [])),
      it_AddPodFails = (\<lambda>pod. False),
      it_PodListProcessor = (\<lambda>pods. pods),
      it_ScaleUp = (\<lambda>pods.
        \<lparr>suo_Status = \<lparr>sus_Result = ScaleUpNoOptionsAvailable, sus_PodsRemainUnschedulable = pods\<rparr>,
         suo_Err = None, suo_Effects = []\<rparr>),
      it_PodDisruptionBudgets = Some [],
      it_ScaleDownNodeProcessor = None,
      it_UpdateUnneededNodes = None,
      it_IsNonEmptyNodeDeleteInProgress = False,
      it_TryToScaleDown = \<lparr>sdo_Result = ScaleDownNoUnneeded, sdo_Err = None, sdo_Effects = []\<rparr>,
      it_UnneededNodes = []\<rparr>"

definition kc_bounds :: "string \<Rightarrow> string \<Rightarrow> Pod list \<Rightarrow> kube_client" where
  "kc_bounds minSize maxSize pods =
     \<lparr>kc_Pods = Some pods,
      kc_ReplicaSets = (\<lambda>ns name. Some \<lparr>rs_Name = name, rs_Replicas = 1\<rparr>),
      kc_ConfigMap = Some [''min_node_group_size'' \<mapsto> minSize, ''max_node_group_size'' \<mapsto> maxSize],
      kc_Events = (\<lambda>ns name. Some [\<lparr>ev_Message = ''0/2 nodes are available: 2 Insufficient cpu.''\<rparr>])\<rparr>"

definition poll_scaling :: poll where
  "poll_scaling = \<lparr>isSucceededStatus = False, isErrorStatus = False\<rparr>"

definition poll_succeeded :: poll where
  "poll_succeeded = \<lparr>isSucceededStatus = True, isErrorStatus = False\<rparr>"

definition poll_error :: poll where
  "poll_error = \<lparr>isSucceededStatus = False, isErrorStatus = True\<rparr>"

definition it_growth :: iteration where
  "it_growth = (uneventful [nodeNamed ''cluster-master1'', nodeNamed ''cluster-worker1''])
     \<lparr>it_Provider := [poll_scaling, poll_succeeded]\<rparr>"

definition workerNameToRemove :: "iteration \<Rightarrow> string" where
  "workerNameToRemove it =
     selectWorker (workerNodeNames (firstNodeList it)) (''worker'' @ Itoa (numberWorkerNode it)) []"

definition it_shrink :: iteration where
  "it_shrink = (uneventful [nodeNamed ''cluster-worker1'', nodeNamed ''cluster-worker2'',
                            nodeNamed ''cluster-worker3''])
     \<lparr>it_Provider := [poll_succeeded]\<rparr>"

definition it_conflict :: iteration where
  "it_conflict = it_shrink\<lparr>it_AllNodes2 := None\<rparr>"

text \<open>A provider that reports an error in the second round and succeeds two rounds later.\<close>

definition it_retry :: iteration where
  "it_retry = (uneventful [nodeNamed ''cluster-master1'', nodeNamed ''cluster-worker1''])
     \<lparr>it_Provider := [poll_scaling, poll_error, poll_scaling, poll_succeeded]\<rparr>"

text \<open>The requests to the provider among the effects.\<close>

fun isRequest :: "effect \<Rightarrow> bool" where
  "isRequest (PerformScaleUp n) = True"
| "isRequest (PerformScaleDown n) = True"
| "isRequest e = False"

subsection \<open>Words and example runs for the reconciliation\<close>

text \<open>The calls and the effects in a trace, in order.\<close>

fun calls :: "event list \<Rightarrow> call list" where
  "calls [] = []"
| "calls (Call c # es) = c # calls es"
| "calls (Effect e # es) = calls es"

fun effects :: "event list \<Rightarrow> effect list" where
  "effects [] = []"
| "effects (Call c # es) = effects es"
| "effects (Effect e # es) = e # effects es"

text \<open>
  Words for the statements about a whole run: the run passes the bounds enforcement and
  the listing; the node list of the second listing; the autoscaler after the clean-up and
  the reset of the callbacks; the output of the pod-list processor and what is left of it
  after the young pods are dropped; the variables at line 563.
\<close>

definition entersReconcile :: "kube_client \<Rightarrow> iteration \<Rightarrow> bool" where
  "entersReconcile kubeclient it =
     (snd (enforceBounds kubeclient (it_Provider it) (firstNodeList it)) = BoundsPassed \<and>
      (case listCluster it of Inl e \<Rightarrow> False | Inr nodes \<Rightarrow> True))"

definition secondNodeList :: "iteration \<Rightarrow> Node list" where
  "secondNodeList it = (case listCluster it of Inl e \<Rightarrow> [] | Inr nodes \<Rightarrow> fst nodes)"

definition reset :: "StaticAutoscaler \<Rightarrow> StaticAutoscaler" where
  "reset a = a\<lparr>initialized := True, disableScaleDownForLoop := False\<rparr>"

text \<open>
  What a run does after the bounds enforcement, when it gets past it: nothing more when the
  listing fails, and otherwise the reconciliation and the deferred status update. The
  rounds of the provider are not read any more.
\<close>

definition afterBounds :: "StaticAutoscaler \<Rightarrow> time \<Rightarrow> kube_client \<Rightarrow> iteration \<Rightarrow> event list" where
  "afterBounds a currentTime kubeclient it =
     (case listCluster it of
        Inl e \<Rightarrow> []
      | Inr nodes \<Rightarrow>
          (let s = reconcile currentTime kubeclient (fst nodes) it (reset a)
           in ls_trace s @ fst (deferredStatusUpdate kubeclient s)))"

definition unschedulablePodsToHelp :: "StaticAutoscaler \<Rightarrow> time \<Rightarrow> iteration \<Rightarrow> Pod list" where
  "unschedulablePodsToHelp a currentTime it =
     (case it_UnschedulablePods it of
        None \<Rightarrow> []
      | Some listed \<Rightarrow>
          filterOutYoungPods a
            (it_PodListProcessor it (fst (it_FilterOutExpendableAndSplit it listed))) currentTime)"

definition processedPods :: "iteration \<Rightarrow> Pod list" where
  "processedPods it =
     (case it_UnschedulablePods it of
        None \<Rightarrow> []
      | Some listed \<Rightarrow> it_PodListProcessor it (fst (it_FilterOutExpendableAndSplit it listed)))"

definition firstState :: "StaticAutoscaler \<Rightarrow> loop_state" where
  "firstState a =
     \<lparr>ls_autoscaler = a, ls_trace = [Call PodListProcess], ls_return = None,
      ls_scaleUpStatus = \<lparr>sus_Result = ScaleUpNotTried, sus_PodsRemainUnschedulable = []\<rparr>,
      ls_scaleUpStatusProcessorAlreadyCalled = False,
      ls_scaleDownResult = ScaleDownNotTried,
      ls_scaleDownStatusProcessorAlreadyCalled = False\<rparr>"

text \<open>The variables at line 631, after the scale-up part of the reconciliation.\<close>

definition scaleUpPart :: "StaticAutoscaler \<Rightarrow> time \<Rightarrow> kube_client \<Rightarrow> iteration \<Rightarrow> loop_state" where
  "scaleUpPart a currentTime kubeclient it =
     tryScaleUp currentTime kubeclient it (unschedulablePodsToHelp a currentTime it)
       (firstState (reset a))"

definition podCreatedAt :: "string \<Rightarrow> time \<Rightarrow> Pod" where
  "podCreatedAt name created =
     \<lparr>pod_Name = name, pod_Namespace = ''default'', pod_NodeName = [],
      pod_OwnerReferences = [\<lparr>or_Kind = ''ReplicaSet'', or_Name = ''rs''\<rparr>],
      pod_Volumes = [], pod_CreationTimestamp = created\<rparr>"

definition two_workers :: "Node list" where
  "two_workers = [nodeNamed ''cluster-worker1'', nodeNamed ''cluster-worker2'']"

definition it_pending :: "time \<Rightarrow> iteration" where
  "it_pending created =
     (uneventful two_workers)\<lparr>it_UnschedulablePods := Some [podCreatedAt ''pending'' created]\<rparr>"

text \<open>
  The cooldown of the specification: scale-down disabled for the iteration, or the current
  time before one of the three timestamps plus its delay.
\<close>

definition spec_cooldown :: "StaticAutoscaler \<Rightarrow> bool \<Rightarrow> time \<Rightarrow> bool" where
  "spec_cooldown a scale_down_disabled now =
     (scale_down_disabled \<or>
      now < lastScaleUpTime a + ScaleDownDelayAfterAdd (AutoscalingOptions a) \<or>
      now < lastScaleDownFailTime a + ScaleDownDelayAfterFailure (AutoscalingOptions a) \<or>
      now < lastScaleDownDeleteTime a + ScaleDownDelayAfterDelete (AutoscalingOptions a))"

definition autoscaler_cooling :: StaticAutoscaler where
  "autoscaler_cooling = autoscaler_running\<lparr>lastScaleUpTime := 50 * Second\<rparr>"

definition it_deleting :: iteration where
  "it_deleting = (uneventful two_workers)\<lparr>it_IsNonEmptyNodeDeleteInProgress := True\<rparr>"

text \<open>
  Each of the three timestamps of \<open>b\<close> is the one of \<open>a\<close> or the time \<open>now\<close>; the options
  and the processors are those of \<open>a\<close>.
\<close>

definition stamped :: "StaticAutoscaler \<Rightarrow> time \<Rightarrow> StaticAutoscaler \<Rightarrow> bool" where
  "stamped a now b =
     ((lastScaleUpTime b = lastScaleUpTime a \<or> lastScaleUpTime b = now) \<and>
      (lastScaleDownDeleteTime b = lastScaleDownDeleteTime a \<or> lastScaleDownDeleteTime b = now) \<and>
      (lastScaleDownFailTime b = lastScaleDownFailTime a \<or> lastScaleDownFailTime b = now))"

definition it_scaled :: iteration where
  "it_scaled = (it_pending 0)
     \<lparr>it_ScaleUp := (\<lambda>pods.
        \<lparr>suo_Status = \<lparr>sus_Result = ScaleUpSuccessful, sus_PodsRemainUnschedulable = []\<rparr>,
         suo_Err = None, suo_Effects = [PerformScaleUp 1]\<rparr>)\<rparr>"




section \<open>Properties of the removability predicate\<close>

lemma HasPrefix_prefix: "HasPrefix s p \<longleftrightarrow> prefix p s"
  by (induction s p rule: HasPrefix.induct) auto

lemma HasSuffix_suffix: "HasSuffix s suf \<longleftrightarrow> suffix suf s"
  by (simp add: HasSuffix_def HasPrefix_prefix suffix_to_prefix)

lemma Contains_sublist: "Contains s sub \<longleftrightarrow> sublist sub s"
  by (induction s) (auto simp: HasPrefix_prefix sublist_Cons_right)

lemma checkVolumes_eq:
  "checkVolumes volumes b = (b \<and> \<not> (\<exists>volume \<in> set volumes. vol_EmptyDir volume \<noteq> None))"
  by (induction volumes arbitrary: b) auto

lemma checkPods_eq:
  "\<forall>pod \<in> set pods. readable kubeclient w pod \<Longrightarrow>
   checkPods kubeclient w pods b = Inr (b \<and> \<not> (\<exists>pod \<in> set pods. blocks kubeclient w pod))"
proof (induction pods arbitrary: b)
  case Nil
  then show ?case by simp
next
  case (Cons pod pods)
  then have rest: "\<forall>q \<in> set pods. readable kubeclient w q" and here: "readable kubeclient w pod"
    by simp_all
  show ?case
  proof (cases "pod_NodeName pod = w")
    case False
    then show ?thesis using Cons.IH [OF rest] by (simp add: blocks_def)
  next
    case True
    then obtain owner owners where ow: "pod_OwnerReferences pod = owner # owners"
      using here by (auto simp: readable_def split: list.splits)
    show ?thesis
    proof (cases "or_Kind owner = ''DaemonSet''")
      case True
      then show ?thesis
        using Cons.IH [OF rest] \<open>pod_NodeName pod = w\<close> ow
        by (simp add: blocks_def notDaemonSet_def)
    next
      case False
      then obtain replicaset where
        rs: "kc_ReplicaSets kubeclient (pod_Namespace pod) (or_Name owner) = Some replicaset"
        using here \<open>pod_NodeName pod = w\<close> ow by (auto simp: readable_def)
      show ?thesis
        using Cons.IH [OF rest] \<open>pod_NodeName pod = w\<close> ow False rs
        by (auto simp: blocks_def notDaemonSet_def singleReplica_def hasEmptyDir_def
            checkVolumes_eq)
    qed
  qed
qed

lemma checkPods_crash:
  "\<exists>pod \<in> set pods. \<not> readable kubeclient w pod \<Longrightarrow> \<exists>c. checkPods kubeclient w pods b = Inl c"
proof (induction pods arbitrary: b)
  case Nil
  then show ?case by simp
next
  case (Cons pod pods)
  show ?case
  proof (cases "readable kubeclient w pod")
    case True
    then have "\<exists>q \<in> set pods. \<not> readable kubeclient w q" using Cons.prems by auto
    then show ?thesis using Cons.IH
      by (auto split: list.splits option.splits)
  next
    case False
    then show ?thesis
      by (auto simp: readable_def split: list.splits option.splits)
  qed
qed

text \<open>
  C1 (as the code has it). When the pod list is served and every pod on the node has a
  first owner reference (and, unless that is a DaemonSet, a replica set object), the
  predicate returns false exactly when some pod on the node that is not a DaemonSet's has
  a replica set with one replica or declares an EmptyDir volume, and true otherwise.
\<close>

theorem checkWorkerNodeCanBeRemove_blocks:
  assumes "kc_Pods kubeclient = Some pods"
    and "\<forall>pod \<in> set pods. readable kubeclient w pod"
  shows "checkWorkerNodeCanBeRemove kubeclient w =
           Inr (\<not> (\<exists>pod \<in> set pods. blocks kubeclient w pod))"
  using assms by (simp add: checkWorkerNodeCanBeRemove_def checkPods_eq)

theorem checkWorkerNodeCanBeRemove_blocks_witness:
  "kc_Pods kc_scenario2 = Some [pod_P] \<and>
   blocks kc_scenario2 ''cluster-worker3'' pod_P \<and>
   checkWorkerNodeCanBeRemove kc_scenario2 ''cluster-worker3'' = Inr False"
proof -
  have p: "kc_Pods kc_scenario2 = Some [pod_P]"
    by (simp add: kc_scenario2_def)
  have r: "\<forall>pod \<in> set [pod_P]. readable kc_scenario2 ''cluster-worker3'' pod"
    by (simp add: readable_def pod_P_def kc_scenario2_def)
  have b: "blocks kc_scenario2 ''cluster-worker3'' pod_P"
    by (simp add: blocks_def notDaemonSet_def singleReplica_def pod_P_def kc_scenario2_def)
  show ?thesis
    using checkWorkerNodeCanBeRemove_blocks [OF p r] p b by simp
qed

text \<open>
  C1 as stated fails: a DaemonSet's pod on the node with an EmptyDir volume meets rule (b)
  of the specification, and the predicate still returns true, because the volume loop runs
  inside the branch that excludes DaemonSet pods.
\<close>

theorem checkWorkerNodeCanBeRemove_daemonset_counterexample:
  "kc_Pods kc_daemon = Some [pod_D] \<and>
   spec_blocks kc_daemon ''cluster-worker3'' pod_D \<and>
   checkWorkerNodeCanBeRemove kc_daemon ''cluster-worker3'' = Inr True"
  by (simp add: checkWorkerNodeCanBeRemove_def spec_blocks_def hasEmptyDir_def
      kc_daemon_def pod_D_def)

section \<open>Properties of the gRPC expander\<close>

lemma populateOptionsMap_dom:
  "dom (populateOptionsMap options m) = eo_NodeGroupId ` set options \<union> dom m"
  by (induction options arbitrary: m) auto

lemma populateOptionsMap_ran:
  "populateOptionsMap options m i = Some known \<Longrightarrow> known \<in> set options \<or> m i = Some known"
proof (induction options arbitrary: m)
  case Nil
  then show ?case by simp
next
  case (Cons option options)
  have "populateOptionsMap options (m(eo_NodeGroupId option \<mapsto> option)) i = Some known"
    using Cons.prems by simp
  then have "known \<in> set options \<or> (m(eo_NodeGroupId option \<mapsto> option)) i = Some known"
    by (rule Cons.IH)
  then show ?case by (cases "i = eo_NodeGroupId option") auto
qed

lemma keyed_upd: "keyed m \<Longrightarrow> keyed (m(eo_NodeGroupId option \<mapsto> option))"
proof (unfold keyed_def, intro allI impI)
  fix j other
  assume inv: "\<forall>j other. m j = Some other \<longrightarrow> eo_NodeGroupId other = j"
    and h: "(m(eo_NodeGroupId option \<mapsto> option)) j = Some other"
  show "eo_NodeGroupId other = j"
  proof (cases "j = eo_NodeGroupId option")
    case True
    then have "other = option" using h by simp
    then show ?thesis using True by simp
  next
    case False
    then have "m j = Some other" using h by simp
    then show ?thesis using inv by blast
  qed
qed

lemma populateOptionsMap_keyed: "keyed m \<Longrightarrow> keyed (populateOptionsMap options m)"
  by (induction options arbitrary: m) (simp_all add: keyed_upd)

lemma transform_ids:
  "keyed m \<Longrightarrow>
   map eo_NodeGroupId (transformAndSanitizeOptionsFromGRPC responseOptions m) =
   filter (\<lambda>i. i \<in> dom m) (responseIds responseOptions)"
proof (induction responseOptions m rule: transformAndSanitizeOptionsFromGRPC.induct)
  case (1 m)
  then show ?case by simp
next
  case (2 rest m)
  then show ?case by simp
next
  case (3 option rest m)
  show ?case
  proof (cases "m (po_NodeGroupId option)")
    case None
    then show ?thesis using 3 by (simp add: domIff)
  next
    case (Some known)
    then have "eo_NodeGroupId known = po_NodeGroupId option"
      using "3.prems" unfolding keyed_def by blast
    then show ?thesis using 3 Some by (simp add: domIff)
  qed
qed

lemma transform_set:
  "known \<in> set (transformAndSanitizeOptionsFromGRPC responseOptions m) \<Longrightarrow>
   \<exists>i. m i = Some known"
  by (induction responseOptions m rule: transformAndSanitizeOptionsFromGRPC.induct)
     (auto split: option.splits)

lemma BestOptions_unfold:
  "BestOptions g opts ni =
     (case grpcClient g of
        None \<Rightarrow> opts
      | Some client \<Rightarrow>
          (case client gRPCTimeout (request opts ni) of
             Inl err \<Rightarrow> opts
           | Inr None \<Rightarrow> opts
           | Inr (Some r) \<Rightarrow>
               (case resp_Options r of
                  None \<Rightarrow> opts
                | Some ros \<Rightarrow>
                    if transformAndSanitizeOptionsFromGRPC ros (populateOptionsMap opts Map.empty) = []
                    then opts
                    else transformAndSanitizeOptionsFromGRPC ros (populateOptionsMap opts Map.empty))))"
  by (simp add: BestOptions_def populateOptionsForGRPC_def request_def Let_def
      split: option.splits sum.splits)

lemma transform_recognized:
  "map eo_NodeGroupId (transformAndSanitizeOptionsFromGRPC ros (populateOptionsMap opts Map.empty))
   = recognized opts ros"
proof -
  have "keyed Map.empty" by (simp add: keyed_def)
  then have "keyed (populateOptionsMap opts Map.empty)" by (rule populateOptionsMap_keyed)
  then show ?thesis
    by (simp add: transform_ids populateOptionsMap_dom recognized_def)
qed

lemma transform_subset:
  "set (transformAndSanitizeOptionsFromGRPC ros (populateOptionsMap opts Map.empty)) \<subseteq> set opts"
proof
  fix known
  assume "known \<in> set (transformAndSanitizeOptionsFromGRPC ros (populateOptionsMap opts Map.empty))"
  then obtain i where "populateOptionsMap opts Map.empty i = Some known"
    using transform_set by blast
  then show "known \<in> set opts"
    using populateOptionsMap_ran [of opts Map.empty i known] by simp
qed

lemma BestOptions_subset: "set (BestOptions g opts ni) \<subseteq> set opts"
  by (simp add: BestOptions_unfold transform_subset split: option.splits sum.splits)

text \<open>
  C7 (as the code has it). \<open>BestOptions\<close> hands the client a context that ends after
  \<open>gRPCTimeout\<close>, five seconds, and the request: one message per input option with the node
  count as \<open>int32\<close>. It returns its input unchanged when the client is not configured, when
  the call fails or times out, when the response or its option list is nil, and when no
  option of the response names a node group of the input. Otherwise it returns, for every
  option of the response that names a node group of the input, in the order of the response,
  the input option filed under that node group: as many options as the response has
  recognized entries, so an id that the response repeats gives its option again. In every
  case each returned option is one of the input options.
\<close>

theorem BestOptions_fail_open:
  "gRPCTimeout = 5 * Second \<and>
   map po_NodeCount (map the (req_Options (request opts ni))) = map (int32 \<circ> eo_NodeCount) opts \<and>
   map po_NodeGroupId (map the (req_Options (request opts ni))) = map eo_NodeGroupId opts \<and>
   (grpcClient g = None \<longrightarrow> BestOptions g opts ni = opts) \<and>
   (\<forall>client. grpcClient g = Some client \<longrightarrow>
      (case client gRPCTimeout (request opts ni) of
         Inl err \<Rightarrow> BestOptions g opts ni = opts
       | Inr None \<Rightarrow> BestOptions g opts ni = opts
       | Inr (Some r) \<Rightarrow>
           (case resp_Options r of
              None \<Rightarrow> BestOptions g opts ni = opts
            | Some ros \<Rightarrow>
                (recognized opts ros = [] \<longrightarrow> BestOptions g opts ni = opts) \<and>
                (recognized opts ros \<noteq> [] \<longrightarrow>
                   BestOptions g opts ni =
                     transformAndSanitizeOptionsFromGRPC ros (populateOptionsMap opts Map.empty) \<and>
                   map eo_NodeGroupId (BestOptions g opts ni) = recognized opts ros \<and>
                   length (BestOptions g opts ni) = length (recognized opts ros))))) \<and>
   set (BestOptions g opts ni) \<subseteq> set opts"
proof -
  have empty: "transformAndSanitizeOptionsFromGRPC ros (populateOptionsMap opts Map.empty) = [] \<longleftrightarrow>
      recognized opts ros = []" for ros
    using transform_recognized [of ros opts] by (metis map_is_Nil_conv)
  have len: "length (transformAndSanitizeOptionsFromGRPC ros (populateOptionsMap opts Map.empty)) =
      length (recognized opts ros)" for ros
    using transform_recognized [of ros opts] by (metis length_map)
  have count: "map po_NodeCount (map the (req_Options (request opts ni))) =
      map (int32 \<circ> eo_NodeCount) opts"
    by (simp add: request_def populateOptionsForGRPC_def newOptionMessage_def)
  have ids: "map po_NodeGroupId (map the (req_Options (request opts ni))) = map eo_NodeGroupId opts"
    by (simp add: request_def populateOptionsForGRPC_def newOptionMessage_def comp_def)
  have rest: "(grpcClient g = None \<longrightarrow> BestOptions g opts ni = opts) \<and>
   (\<forall>client. grpcClient g = Some client \<longrightarrow>
      (case client gRPCTimeout (request opts ni) of
         Inl err \<Rightarrow> BestOptions g opts ni = opts
       | Inr None \<Rightarrow> BestOptions g opts ni = opts
       | Inr (Some r) \<Rightarrow>
           (case resp_Options r of
              None \<Rightarrow> BestOptions g opts ni = opts
            | Some ros \<Rightarrow>
                (recognized opts ros = [] \<longrightarrow> BestOptions g opts ni = opts) \<and>
                (recognized opts ros \<noteq> [] \<longrightarrow>
                   BestOptions g opts ni =
                     transformAndSanitizeOptionsFromGRPC ros (populateOptionsMap opts Map.empty) \<and>
                   map eo_NodeGroupId (BestOptions g opts ni) = recognized opts ros \<and>
                   length (BestOptions g opts ni) = length (recognized opts ros))))) \<and>
   set (BestOptions g opts ni) \<subseteq> set opts"
    by (simp add: BestOptions_unfold [of g opts ni] empty len transform_recognized
        BestOptions_subset [unfolded BestOptions_unfold]
        split: option.splits sum.splits)
  show ?thesis using count ids rest by (simp add: gRPCTimeout_def)
qed

theorem BestOptions_fail_open_witness:
  "BestOptions client_timeout [option_A, option_B, option_C] Map.empty =
     [option_A, option_B, option_C] \<and>
   BestOptions client_slow [option_A, option_B, option_C] Map.empty =
     [option_A, option_B, option_C] \<and>
   BestOptions client_prefers_B_then_A [option_A, option_B, option_C] Map.empty =
     [option_B, option_A] \<and>
   map po_NodeCount (map the (req_Options (request [option_A, option_huge] Map.empty))) =
     [1, - (2 ^ 31)]"
proof -
  let ?opts = "[option_A, option_B, option_C]"
  let ?ros = "map (\<lambda>i. Some (newOptionMessage i 0 [] [])) [''group-b'', ''group-x'', ''group-a'']"
  have t: "grpcClient client_timeout = Some (\<lambda>timeout request. Inl DeadlineExceeded)"
    by (simp add: client_timeout_def)
  have s: "grpcClient client_slow = Some (\<lambda>timeout request.
        if timeout < 6 * Second then Inl DeadlineExceeded
        else Inr (Some (answer [''group-b''])))"
    by (simp add: client_slow_def)
  have p: "grpcClient client_prefers_B_then_A =
      Some (\<lambda>timeout request. Inr (Some (answer [''group-b'', ''group-x'', ''group-a''])))"
    by (simp add: client_prefers_B_then_A_def)
  have r: "recognized ?opts ?ros = [''group-b'', ''group-a'']"
    by (simp add: recognized_def newOptionMessage_def option_A_def option_B_def option_C_def)
  have f: "transformAndSanitizeOptionsFromGRPC ?ros (populateOptionsMap ?opts Map.empty) =
      [option_B, option_A]"
    by (simp add: newOptionMessage_def option_A_def option_B_def option_C_def)
  have 1: "BestOptions client_timeout ?opts Map.empty = ?opts"
    using BestOptions_fail_open [of ?opts Map.empty client_timeout] t by simp
  have 2: "BestOptions client_slow ?opts Map.empty = ?opts"
    using BestOptions_fail_open [of ?opts Map.empty client_slow] s
    by (simp add: gRPCTimeout_def Second_def)
  have 3: "BestOptions client_prefers_B_then_A ?opts Map.empty = [option_B, option_A]"
    using BestOptions_fail_open [of ?opts Map.empty client_prefers_B_then_A] p r f
    by (simp add: answer_def)
  have 4: "map po_NodeCount (map the (req_Options (request [option_A, option_huge] Map.empty))) =
      [1, - (2 ^ 31)]"
    using BestOptions_fail_open [of "[option_A, option_huge]" Map.empty client_timeout]
    by (simp add: option_A_def option_huge_def int32_def)
  show ?thesis using 1 2 3 4 by simp
qed

text \<open>
  C7 as stated fails: the result is not always a sublist of the input. For the one input
  option of \<open>group-a\<close> and a response that names \<open>group-a\<close> twice, \<open>BestOptions\<close> returns
  the option twice, a list longer than its input.
\<close>

theorem BestOptions_repeats_counterexample:
  "BestOptions client_repeats [option_A] Map.empty = [option_A, option_A] \<and>
   \<not> subseq (BestOptions client_repeats [option_A] Map.empty) [option_A] \<and>
   length [option_A] < length (BestOptions client_repeats [option_A] Map.empty)"
proof -
  have b: "BestOptions client_repeats [option_A] Map.empty = [option_A, option_A]"
    by (simp add: BestOptions_unfold client_repeats_def answer_def newOptionMessage_def option_A_def)
  have "\<not> subseq [option_A, option_A] [option_A]"
    using list_emb_length [of "(=)" "[option_A, option_A]" "[option_A]"] by auto
  then show ?thesis by (simp add: b)
qed

section \<open>Properties of the scale-up status processor\<close>

lemma Process_pods_events:
  "Process_pods kubeclient pods =
     (map (eventFor kubeclient) (takeWhile (hasEvents kubeclient) pods),
      case dropWhile (hasEvents kubeclient) pods of
        [] \<Rightarrow> None
      | pod # _ \<Rightarrow>
          (case kc_Events kubeclient (pod_Namespace pod) (pod_Name pod) of
             None \<Rightarrow> Some NilPointerDereference
           | Some _ \<Rightarrow> Some IndexOutOfRange))"
proof (induction pods)
  case Nil
  then show ?case by simp
next
  case (Cons pod pods)
  show ?case
  proof (cases "kc_Events kubeclient (pod_Namespace pod) (pod_Name pod)")
    case None
    then show ?thesis by (simp add: hasEvents_def)
  next
    case (Some items)
    then show ?thesis using Cons.IH
      by (cases items) (simp_all add: hasEvents_def eventFor_def Let_def)
  qed
qed

lemma Process_pods_safe:
  "snd (Process_pods kubeclient pods) = None \<longleftrightarrow> (\<forall>pod \<in> set pods. hasEvents kubeclient pod)"
proof (induction pods)
  case Nil
  then show ?case by simp
next
  case (Cons pod pods)
  show ?case
  proof (cases "kc_Events kubeclient (pod_Namespace pod) (pod_Name pod)")
    case None
    then show ?thesis by (simp add: hasEvents_def)
  next
    case (Some items)
    then show ?thesis using Cons.IH
      by (cases items) (simp_all add: hasEvents_def Let_def)
  qed
qed

lemma Process_event_per_pod:
  assumes "\<forall>pod \<in> set (sus_PodsRemainUnschedulable status). hasEvents kubeclient pod"
  shows "Process kubeclient status =
           (map (eventFor kubeclient) (sus_PodsRemainUnschedulable status), None)"
proof -
  have t: "takeWhile (hasEvents kubeclient) (sus_PodsRemainUnschedulable status) =
      sus_PodsRemainUnschedulable status"
    using assms by (simp add: takeWhile_eq_all_conv)
  have d: "dropWhile (hasEvents kubeclient) (sus_PodsRemainUnschedulable status) = []"
    using assms by (simp add: dropWhile_eq_Nil_conv)
  show ?thesis
    by (simp add: Process_def Process_pods_events t d)
qed

text \<open>
  C8 fails on the code for a pod without events. Here \<open>P\<close> has an event about insufficient
  cpu and \<open>D\<close> has none: \<open>P\<close> receives \<open>TriggerScaleUp\<close>, then the read of
  \<open>events.Items[0]\<close> for \<open>D\<close> panics, and \<open>D\<close> receives no event.
\<close>

theorem Process_panics_without_events:
  "Process kc_onlyP status_PD = ([RecorderEvent pod_P ''TriggerScaleUp''], Some IndexOutOfRange)"
  by (simp add: Process_def status_PD_def kc_onlyP_def pod_P_def pod_D_def)

text \<open>
  C10. \<open>Process\<close> ends without a panic exactly when every pod that remains unschedulable
  has at least one listed event; and the panic is reached: there is an input with a pod
  whose event list is empty, on which the read of \<open>events.Items[0]\<close> is out of range.
\<close>

theorem Process_safe_iff_events:
  "(snd (Process kubeclient status) = None \<longleftrightarrow>
      (\<forall>pod \<in> set (sus_PodsRemainUnschedulable status). hasEvents kubeclient pod)) \<and>
   (\<exists>kc st. \<exists>pod \<in> set (sus_PodsRemainUnschedulable st).
      kc_Events kc (pod_Namespace pod) (pod_Name pod) = Some [] \<and>
      snd (Process kc st) = Some IndexOutOfRange)"
proof
  show "snd (Process kubeclient status) = None \<longleftrightarrow>
      (\<forall>pod \<in> set (sus_PodsRemainUnschedulable status). hasEvents kubeclient pod)"
    by (simp add: Process_def Process_pods_safe)
next
  have "kc_Events kc_noEvents (pod_Namespace pod_P) (pod_Name pod_P) = Some [] \<and>
      snd (Process kc_noEvents status_P) = Some IndexOutOfRange"
    by (simp add: Process_def status_P_def kc_noEvents_def)
  moreover have "pod_P \<in> set (sus_PodsRemainUnschedulable status_P)"
    by (simp add: status_P_def)
  ultimately show "\<exists>kc st. \<exists>pod \<in> set (sus_PodsRemainUnschedulable st).
      kc_Events kc (pod_Namespace pod) (pod_Name pod) = Some [] \<and>
      snd (Process kc st) = Some IndexOutOfRange"
    by blast
qed

theorem Process_safe_iff_events_witness:
  "snd (Process kc_insufficient status_PD) = None \<and>
   snd (Process kc_noEvents status_P) \<noteq> None"
proof -
  have a: "\<forall>pod \<in> set (sus_PodsRemainUnschedulable status_PD). hasEvents kc_insufficient pod"
    by (simp add: status_PD_def hasEvents_def kc_insufficient_def)
  have b: "\<not> (\<forall>pod \<in> set (sus_PodsRemainUnschedulable status_P). hasEvents kc_noEvents pod)"
    by (simp add: status_P_def hasEvents_def kc_noEvents_def)
  show ?thesis
    using Process_safe_iff_events [of kc_insufficient status_PD]
      Process_safe_iff_events [of kc_noEvents status_P] a b
    by blast
qed

section \<open>Properties of the bounds enforcement\<close>

lemma wrap64_id: "fitsInt i \<Longrightarrow> wrap64 i = i"
proof -
  assume "fitsInt i"
  then have a: "- (2 ^ 63) \<le> i" and b: "i < 2 ^ 63" by (simp_all add: fitsInt_def)
  have "0 \<le> i + 2 ^ 63" using a by linarith
  moreover have "i + 2 ^ 63 < 2 ^ 64" using b by simp
  ultimately have "(i + 2 ^ 63) mod 2 ^ 64 = i + 2 ^ 63" by (rule mod_pos_pos_trivial)
  then show ?thesis unfolding wrap64_def by linarith
qed

lemma Atoi_range: "Atoi s = Some v \<Longrightarrow> fitsInt v"
  by (auto simp: Atoi_def Let_def split: if_splits option.splits)

lemma GetMinSizeNodeGroup_range: "GetMinSizeNodeGroup kubeclient = Inr m \<Longrightarrow> fitsInt m"
  by (auto simp: GetMinSizeNodeGroup_def fitsInt_def split: option.splits dest: Atoi_range)

lemma GetMaxSizeNodeGroup_range: "GetMaxSizeNodeGroup kubeclient = Inr m \<Longrightarrow> fitsInt m"
  by (auto simp: GetMaxSizeNodeGroup_def fitsInt_def split: option.splits dest: Atoi_range)

lemma scalingRounds_Suc:
  "scalingRounds (Suc n) =
     Sleep (30 * Second) # CheckStatusCluster # CheckErrorStatusCluster # scalingRounds n"
  by (simp add: scalingRounds_def)

lemma waitingRounds_Suc:
  "waitingRounds (Suc n) = Sleep (30 * Second) # CheckStatusCluster # waitingRounds n"
  by (simp add: waitingRounds_def)

lemma pollAfterRetry_succeeds:
  "\<forall>x \<in> set mid. \<not> isSucceededStatus x \<Longrightarrow> isSucceededStatus q \<Longrightarrow>
   pollAfterRetry (mid @ q # post) = (waitingRounds (length mid) @ succeededRound, True)"
proof (induction mid)
  case Nil
  then show ?case by (simp add: waitingRounds_def succeededRound_def)
next
  case (Cons x mid)
  then show ?case by (simp add: waitingRounds_Suc Let_def)
qed

lemma pollAfterRetry_never:
  "\<forall>x \<in> set ps. \<not> isSucceededStatus x \<Longrightarrow>
   pollAfterRetry ps = (waitingRounds (length ps), False)"
proof (induction ps)
  case Nil
  then show ?case by (simp add: waitingRounds_def)
next
  case (Cons x ps)
  then show ?case by (simp add: waitingRounds_Suc Let_def)
qed

lemma pollProvider_scaling:
  "\<not> isSucceededStatus x \<Longrightarrow> \<not> isErrorStatus x \<Longrightarrow>
   pollProvider r (x # ps) =
     (Sleep (30 * Second) # CheckStatusCluster # CheckErrorStatusCluster # fst (pollProvider r ps),
      snd (pollProvider r ps))"
  by (simp add: Let_def)

lemma pollProvider_succeeded:
  "isSucceededStatus p \<Longrightarrow> pollProvider r (p # ps) = (succeededRound, True)"
  by (simp add: succeededRound_def)

lemma pollProvider_errored:
  "\<not> isSucceededStatus p \<Longrightarrow> isErrorStatus p \<Longrightarrow>
   pollProvider r (p # ps) = (errorRound r @ fst (pollAfterRetry ps), snd (pollAfterRetry ps))"
  by (simp add: errorRound_def Let_def)

lemma pollProvider_prefix:
  assumes "\<forall>x \<in> set pre. \<not> isSucceededStatus x \<and> \<not> isErrorStatus x"
  shows "pollProvider r (pre @ ps) =
           (scalingRounds (length pre) @ fst (pollProvider r ps), snd (pollProvider r ps))"
  using assms
proof (induction pre)
  case Nil
  show ?case by (simp add: scalingRounds_def)
next
  case (Cons x pre)
  have x: "\<not> isSucceededStatus x" "\<not> isErrorStatus x" using Cons.prems by simp_all
  have rest: "\<forall>x \<in> set pre. \<not> isSucceededStatus x \<and> \<not> isErrorStatus x" using Cons.prems by simp
  have IH: "pollProvider r (pre @ ps) =
      (scalingRounds (length pre) @ fst (pollProvider r ps), snd (pollProvider r ps))"
    using Cons.IH [OF rest] .
  have "pollProvider r ((x # pre) @ ps) = pollProvider r (x # (pre @ ps))" by simp
  also have "\<dots> = (Sleep (30 * Second) # CheckStatusCluster # CheckErrorStatusCluster #
       fst (pollProvider r (pre @ ps)), snd (pollProvider r (pre @ ps)))"
    using x by (rule pollProvider_scaling)
  also have "\<dots> = (scalingRounds (Suc (length pre)) @ fst (pollProvider r ps), snd (pollProvider r ps))"
    by (simp only: IH fst_conv snd_conv scalingRounds_Suc append_Cons)
  finally show ?case by simp
qed

lemma pollProvider_succeeds:
  assumes "\<forall>x \<in> set pre. \<not> isSucceededStatus x \<and> \<not> isErrorStatus x" and "isSucceededStatus p"
  shows "pollProvider r (pre @ p # post) = (scalingRounds (length pre) @ succeededRound, True)"
  by (simp only: pollProvider_prefix [OF assms(1)] pollProvider_succeeded [OF assms(2)] fst_conv snd_conv)

lemma pollProvider_retries:
  assumes "\<forall>x \<in> set pre. \<not> isSucceededStatus x \<and> \<not> isErrorStatus x"
    and "\<not> isSucceededStatus p" and "isErrorStatus p"
    and "\<forall>x \<in> set mid. \<not> isSucceededStatus x" and "isSucceededStatus q"
  shows "pollProvider r (pre @ p # mid @ q # post) =
     (scalingRounds (length pre) @ errorRound r @ waitingRounds (length mid) @ succeededRound, True)"
  by (simp only: pollProvider_prefix [OF assms(1)] pollProvider_errored [OF assms(2,3)]
      pollAfterRetry_succeeds [OF assms(4,5)] fst_conv snd_conv)

lemma pollProvider_never:
  "\<forall>x \<in> set ps. \<not> isSucceededStatus x \<Longrightarrow> snd (pollProvider r ps) = False"
proof (induction ps)
  case Nil
  then show ?case by simp
next
  case (Cons x ps)
  then show ?case by (simp add: Let_def pollAfterRetry_never)
qed

lemma enforceBounds_below_min:
  assumes "GetMinSizeNodeGroup kubeclient = Inr minSize"
    and "int (length (workerNodeNames allNodes)) < minSize"
  shows "enforceBounds kubeclient polls allNodes =
           scaleAndPoll (PerformScaleUp (minSize - int (length (workerNodeNames allNodes)))) polls"
proof -
  have "fitsInt minSize" using GetMinSizeNodeGroup_range [OF assms(1)] .
  then have "fitsInt (minSize - int (length (workerNodeNames allNodes)))"
    using assms(2) by (simp add: fitsInt_def)
  then have "go_sub minSize (int (length (workerNodeNames allNodes))) =
      minSize - int (length (workerNodeNames allNodes))"
    by (simp add: go_sub_def wrap64_id)
  then show ?thesis using assms by (simp add: enforceBounds_def Let_def)
qed

lemma enforceBounds_above_max:
  assumes "GetMinSizeNodeGroup kubeclient = Inr minSize"
    and "GetMaxSizeNodeGroup kubeclient = Inr maxSize"
    and "\<not> int (length (workerNodeNames allNodes)) < minSize"
    and "maxSize < int (length (workerNodeNames allNodes))"
  shows "enforceBounds kubeclient polls allNodes =
     (case checkWorkerNodeCanBeRemove kubeclient
             (selectWorker (workerNodeNames allNodes)
                (''worker'' @ Itoa (int (length (workerNodeNames allNodes)))) []) of
        Inl c \<Rightarrow> ([], BoundsCrashed c)
      | Inr False \<Rightarrow> ([], BoundsReturnedNil)
      | Inr True \<Rightarrow>
          scaleAndPoll (PerformScaleDown (go_sub (int (length (workerNodeNames allNodes))) maxSize))
            polls)"
  using assms by (simp add: enforceBounds_def Let_def)

lemma enforceBounds_within:
  assumes "GetMinSizeNodeGroup kubeclient = Inr minSize"
    and "GetMaxSizeNodeGroup kubeclient = Inr maxSize"
    and "\<not> int (length (workerNodeNames allNodes)) < minSize"
    and "\<not> maxSize < int (length (workerNodeNames allNodes))"
  shows "enforceBounds kubeclient polls allNodes = ([], BoundsPassed)"
  using assms by (simp add: enforceBounds_def Let_def)

lemma RunOnce_trace_prefix:
  "\<exists>rest. run_trace (RunOnce a currentTime kubeclient it) =
     map Effect (snd (cleanUpIfRequired a (it_ReadyNodesAtCleanUp it)) @
                 fst (enforceBounds kubeclient (it_Provider it) (firstNodeList it))) @ rest"
  by (simp add: RunOnce_def Let_def split: bounds_end.splits sum.splits)

lemma RunOnce_stopped_in_bounds:
  assumes "snd (enforceBounds kubeclient (it_Provider it) (firstNodeList it)) \<noteq> BoundsPassed"
  shows "RunOnce a currentTime kubeclient it =
     \<lparr>run_autoscaler = (fst (cleanUpIfRequired a (it_ReadyNodesAtCleanUp it)))
                          \<lparr>disableScaleDownForLoop := False\<rparr>,
      run_trace = map Effect (snd (cleanUpIfRequired a (it_ReadyNodesAtCleanUp it)) @
                    fst (enforceBounds kubeclient (it_Provider it) (firstNodeList it))),
      run_ending = (case snd (enforceBounds kubeclient (it_Provider it) (firstNodeList it)) of
                      BoundsCrashed c \<Rightarrow> Crashed c
                    | BoundsStillPolling \<Rightarrow> StillPolling
                    | _ \<Rightarrow> Returned None),
      run_scaleUpResult = ScaleUpNotTried, run_scaleDownResult = ScaleDownNotTried\<rparr>"
  using assms by (simp add: RunOnce_def Let_def split: bounds_end.splits)

lemma afterScaleUp_return:
  "ls_return s \<noteq> Some StillPolling \<Longrightarrow>
   ls_return (afterScaleUp currentTime out s) \<noteq> Some StillPolling"
  by (simp add: afterScaleUp_def split: option.splits)

lemma tryScaleUp_return:
  "ls_return s \<noteq> Some StillPolling \<Longrightarrow>
   ls_return (tryScaleUp currentTime kubeclient it pods s) \<noteq> Some StillPolling"
  by (simp add: tryScaleUp_def Let_def afterScaleUp_return split: option.splits)

lemma startScaleDown_return:
  "ls_return s \<noteq> Some StillPolling \<Longrightarrow>
   ls_return (startScaleDown currentTime it s) \<noteq> Some StillPolling"
  by (simp add: startScaleDown_def Let_def split: option.splits)

lemma tryScaleDown_return:
  "ls_return s \<noteq> Some StillPolling \<Longrightarrow>
   ls_return (tryScaleDown currentTime allNodes it s) \<noteq> Some StillPolling"
  by (simp add: tryScaleDown_def Let_def startScaleDown_return split: option.splits sum.splits)

lemma reconcile_return:
  "ls_return (reconcile currentTime kubeclient allNodes it a) \<noteq> Some StillPolling"
  by (simp add: reconcile_def Let_def tryScaleUp_return tryScaleDown_return split: option.splits)

lemma listCluster_return: "listCluster it \<noteq> Inl StillPolling"
  by (simp add: listCluster_def split: option.splits sum.splits)

lemma RunOnce_passed_not_polling:
  assumes "snd (enforceBounds kubeclient (it_Provider it) (firstNodeList it)) = BoundsPassed"
  shows "run_ending (RunOnce a currentTime kubeclient it) \<noteq> StillPolling"
proof (cases "listCluster it")
  case (Inl e)
  then have "e \<noteq> StillPolling" using listCluster_return [of it] by auto
  then show ?thesis using assms Inl by (simp add: RunOnce_def Let_def)
next
  case (Inr nodes)
  have "ls_return (reconcile currentTime kubeclient (fst nodes) it
      ((fst (cleanUpIfRequired a (it_ReadyNodesAtCleanUp it)))\<lparr>disableScaleDownForLoop := False\<rparr>))
      \<noteq> Some StillPolling"
    by (rule reconcile_return)
  then show ?thesis using assms Inr
    by (auto simp: RunOnce_def Let_def split: option.splits)
qed

lemma pollProvider_scaling_forever:
  assumes "\<forall>x \<in> set ps. \<not> isSucceededStatus x \<and> \<not> isErrorStatus x"
  shows "pollProvider r ps = (scalingRounds (length ps), False)"
  using pollProvider_prefix [OF assms, of r "[]"] by simp

lemma pollProvider_waiting_forever:
  assumes "\<forall>x \<in> set pre. \<not> isSucceededStatus x \<and> \<not> isErrorStatus x"
    and "\<not> isSucceededStatus p" and "isErrorStatus p"
    and "\<forall>x \<in> set mid. \<not> isSucceededStatus x"
  shows "pollProvider r (pre @ p # mid) =
     (scalingRounds (length pre) @ errorRound r @ waitingRounds (length mid), False)"
  by (simp only: pollProvider_prefix [OF assms(1)] pollProvider_errored [OF assms(2,3)]
      pollAfterRetry_never [OF assms(4)] fst_conv snd_conv)

lemma isRequest_scalingRounds: "filter isRequest (scalingRounds n) = []"
  by (induction n) (simp_all add: scalingRounds_def)

lemma isRequest_waitingRounds: "filter isRequest (waitingRounds n) = []"
  by (induction n) (simp_all add: waitingRounds_def)

lemma RunOnce_passed_trace:
  assumes "snd (enforceBounds kubeclient (it_Provider it) (firstNodeList it)) = BoundsPassed"
  shows "run_trace (RunOnce a currentTime kubeclient it) =
     map Effect (cleanUpEffects a it @
       fst (enforceBounds kubeclient (it_Provider it) (firstNodeList it))) @
     afterBounds a currentTime kubeclient it"
proof -
  have r: "(fst (cleanUpIfRequired a (it_ReadyNodesAtCleanUp it)))\<lparr>disableScaleDownForLoop := False\<rparr> =
      reset a"
    by (simp add: cleanUpIfRequired_def reset_def)
  show ?thesis
    using assms
    by (simp add: RunOnce_def afterBounds_def cleanUpEffects_def Let_def r split: sum.splits)
qed

text \<open>
  C3. When the worker count is below the minimum, the trace of \<open>RunOnce\<close> is fixed by the
  rounds of the provider. After the clean-up comes one scale-up request of the difference,
  then a sleep of thirty seconds before each status check. If the status is SUCCEEDED
  before any ERROR, nothing more is requested: the run leaves the loop and goes on with the
  listing and the reconciliation. If an ERROR comes first, the same request is sent once
  more, the run checks only for SUCCEEDED from then on, and leaves the loop when it comes.
  As long as no SUCCEEDED is seen the run stays in the loop, with one request when no ERROR
  was seen and two when one was.
\<close>

theorem RunOnce_below_minimum:
  assumes "GetMinSizeNodeGroup kubeclient = Inr minSize" and "numberWorkerNode it < minSize"
  shows
   "(\<forall>pre p post.
       it_Provider it = pre @ p # post \<and>
       (\<forall>x \<in> set pre. \<not> isSucceededStatus x \<and> \<not> isErrorStatus x) \<and> isSucceededStatus p \<longrightarrow>
       run_trace (RunOnce a currentTime kubeclient it) =
          map Effect (cleanUpEffects a it @
            PerformScaleUp (minSize - numberWorkerNode it) #
            scalingRounds (length pre) @ succeededRound) @
          afterBounds a currentTime kubeclient it \<and>
       filter isRequest (fst (enforceBounds kubeclient (it_Provider it) (firstNodeList it))) =
          [PerformScaleUp (minSize - numberWorkerNode it)] \<and>
       run_ending (RunOnce a currentTime kubeclient it) \<noteq> StillPolling) \<and>
    (\<forall>pre p mid q post.
       it_Provider it = pre @ p # mid @ q # post \<and>
       (\<forall>x \<in> set pre. \<not> isSucceededStatus x \<and> \<not> isErrorStatus x) \<and>
       \<not> isSucceededStatus p \<and> isErrorStatus p \<and>
       (\<forall>x \<in> set mid. \<not> isSucceededStatus x) \<and> isSucceededStatus q \<longrightarrow>
       run_trace (RunOnce a currentTime kubeclient it) =
          map Effect (cleanUpEffects a it @
            PerformScaleUp (minSize - numberWorkerNode it) #
            scalingRounds (length pre) @
            errorRound (PerformScaleUp (minSize - numberWorkerNode it)) @
            waitingRounds (length mid) @ succeededRound) @
          afterBounds a currentTime kubeclient it \<and>
       filter isRequest (fst (enforceBounds kubeclient (it_Provider it) (firstNodeList it))) =
          [PerformScaleUp (minSize - numberWorkerNode it),
           PerformScaleUp (minSize - numberWorkerNode it)] \<and>
       run_ending (RunOnce a currentTime kubeclient it) \<noteq> StillPolling) \<and>
    ((\<forall>x \<in> set (it_Provider it). \<not> isSucceededStatus x \<and> \<not> isErrorStatus x) \<longrightarrow>
       run_trace (RunOnce a currentTime kubeclient it) =
          map Effect (cleanUpEffects a it @
            PerformScaleUp (minSize - numberWorkerNode it) #
            scalingRounds (length (it_Provider it))) \<and>
       run_ending (RunOnce a currentTime kubeclient it) = StillPolling) \<and>
    (\<forall>pre p mid.
       it_Provider it = pre @ p # mid \<and>
       (\<forall>x \<in> set pre. \<not> isSucceededStatus x \<and> \<not> isErrorStatus x) \<and>
       \<not> isSucceededStatus p \<and> isErrorStatus p \<and>
       (\<forall>x \<in> set mid. \<not> isSucceededStatus x) \<longrightarrow>
       run_trace (RunOnce a currentTime kubeclient it) =
          map Effect (cleanUpEffects a it @
            PerformScaleUp (minSize - numberWorkerNode it) #
            scalingRounds (length pre) @
            errorRound (PerformScaleUp (minSize - numberWorkerNode it)) @
            waitingRounds (length mid)) \<and>
       run_ending (RunOnce a currentTime kubeclient it) = StillPolling) \<and>
    ((\<forall>x \<in> set (it_Provider it). \<not> isSucceededStatus x) \<longrightarrow>
       run_ending (RunOnce a currentTime kubeclient it) = StillPolling)"
proof -
  let ?up = "PerformScaleUp (minSize - numberWorkerNode it)"
  let ?run = "RunOnce a currentTime kubeclient it"
  let ?bounds = "enforceBounds kubeclient (it_Provider it) (firstNodeList it)"
  have bounds: "?bounds = scaleAndPoll ?up (it_Provider it)"
    using enforceBounds_below_min [of kubeclient minSize "firstNodeList it" "it_Provider it"] assms
    by (simp add: numberWorkerNode_def)
  have left: "run_trace ?run = map Effect (cleanUpEffects a it @ ?up # polled) @
        afterBounds a currentTime kubeclient it \<and>
      filter isRequest (fst ?bounds) = ?up # filter isRequest polled \<and>
      run_ending ?run \<noteq> StillPolling"
    if "pollProvider ?up (it_Provider it) = (polled, True)" for polled
  proof -
    have b: "?bounds = (?up # polled, BoundsPassed)"
      using that by (simp add: bounds scaleAndPoll_def)
    show ?thesis
      using RunOnce_passed_trace [of kubeclient it a currentTime]
        RunOnce_passed_not_polling [of kubeclient it a currentTime]
      by (simp add: b)
  qed
  have stays: "run_trace ?run = map Effect (cleanUpEffects a it @ ?up # polled) \<and>
      run_ending ?run = StillPolling"
    if "pollProvider ?up (it_Provider it) = (polled, False)" for polled
  proof -
    have b: "?bounds = (?up # polled, BoundsStillPolling)"
      using that by (simp add: bounds scaleAndPoll_def)
    show ?thesis
      using RunOnce_stopped_in_bounds [of kubeclient it a currentTime]
      by (simp add: b cleanUpEffects_def)
  qed
  have 1: "run_trace ?run =
          map Effect (cleanUpEffects a it @ ?up # scalingRounds (length pre) @ succeededRound) @
          afterBounds a currentTime kubeclient it \<and>
       filter isRequest (fst ?bounds) = [?up] \<and>
       run_ending ?run \<noteq> StillPolling"
    if "it_Provider it = pre @ p # post"
      and "\<forall>x \<in> set pre. \<not> isSucceededStatus x \<and> \<not> isErrorStatus x"
      and "isSucceededStatus p" for pre p post
  proof -
    have "pollProvider ?up (it_Provider it) = (scalingRounds (length pre) @ succeededRound, True)"
      unfolding that(1) by (rule pollProvider_succeeds [OF that(2,3)])
    from left [OF this] show ?thesis
      by (simp add: isRequest_scalingRounds succeededRound_def)
  qed
  have 2: "run_trace ?run =
          map Effect (cleanUpEffects a it @ ?up # scalingRounds (length pre) @ errorRound ?up @
            waitingRounds (length mid) @ succeededRound) @
          afterBounds a currentTime kubeclient it \<and>
       filter isRequest (fst ?bounds) = [?up, ?up] \<and>
       run_ending ?run \<noteq> StillPolling"
    if "it_Provider it = pre @ p # mid @ q # post"
      and "\<forall>x \<in> set pre. \<not> isSucceededStatus x \<and> \<not> isErrorStatus x"
      and "\<not> isSucceededStatus p" and "isErrorStatus p"
      and "\<forall>x \<in> set mid. \<not> isSucceededStatus x" and "isSucceededStatus q" for pre p mid q post
  proof -
    have "pollProvider ?up (it_Provider it) =
        (scalingRounds (length pre) @ errorRound ?up @ waitingRounds (length mid) @ succeededRound,
         True)"
      unfolding that(1) by (rule pollProvider_retries [OF that(2,3,4,5,6)])
    from left [OF this] show ?thesis
      by (simp add: isRequest_scalingRounds isRequest_waitingRounds succeededRound_def
          errorRound_def)
  qed
  have 3: "run_trace ?run =
          map Effect (cleanUpEffects a it @ ?up # scalingRounds (length (it_Provider it))) \<and>
       run_ending ?run = StillPolling"
    if "\<forall>x \<in> set (it_Provider it). \<not> isSucceededStatus x \<and> \<not> isErrorStatus x"
    using stays [OF pollProvider_scaling_forever [OF that]] .
  have 4: "run_trace ?run =
          map Effect (cleanUpEffects a it @ ?up # scalingRounds (length pre) @ errorRound ?up @
            waitingRounds (length mid)) \<and>
       run_ending ?run = StillPolling"
    if "it_Provider it = pre @ p # mid"
      and "\<forall>x \<in> set pre. \<not> isSucceededStatus x \<and> \<not> isErrorStatus x"
      and "\<not> isSucceededStatus p" and "isErrorStatus p"
      and "\<forall>x \<in> set mid. \<not> isSucceededStatus x" for pre p mid
  proof -
    have "pollProvider ?up (it_Provider it) =
        (scalingRounds (length pre) @ errorRound ?up @ waitingRounds (length mid), False)"
      unfolding that(1) by (rule pollProvider_waiting_forever [OF that(2,3,4,5)])
    from stays [OF this] show ?thesis .
  qed
  have 5: "run_ending ?run = StillPolling"
    if "\<forall>x \<in> set (it_Provider it). \<not> isSucceededStatus x"
  proof -
    have "snd ?bounds = BoundsStillPolling"
      using pollProvider_never [OF that, of ?up] by (simp add: bounds scaleAndPoll_def Let_def)
    then show ?thesis
      using RunOnce_stopped_in_bounds [of kubeclient it a currentTime] by simp
  qed
  show ?thesis using 1 2 3 4 5 by blast
qed

lemmas eval_config =
  GetMinSizeNodeGroup_def GetMaxSizeNodeGroup_def kc_bounds_def kc_scenario2_def
  Atoi_def signAndDigits_def digitValue_def fitsInt_def

lemmas eval_nodes =
  numberWorkerNode_def firstNodeList_def obtainNodeLists_def uneventful_def nodeNamed_def
  workerNameToRemove_def Itoa_def formatNat.simps digitChar_def HasSuffix_def

theorem RunOnce_below_minimum_witness:
  "GetMinSizeNodeGroup (kc_bounds ''3'' ''5'' []) = Inr 3 \<and>
   numberWorkerNode it_growth = 1 \<and> numberWorkerNode it_retry = 1 \<and>
   run_trace (RunOnce autoscaler_running 0 (kc_bounds ''3'' ''5'' []) it_growth) =
      map Effect [PerformScaleUp 2,
                  Sleep (30 * Second), CheckStatusCluster, CheckErrorStatusCluster,
                  Sleep (30 * Second), CheckStatusCluster] @
      afterBounds autoscaler_running 0 (kc_bounds ''3'' ''5'' []) it_growth \<and>
   run_ending (RunOnce autoscaler_running 0 (kc_bounds ''3'' ''5'' []) it_growth) \<noteq> StillPolling \<and>
   run_trace (RunOnce autoscaler_running 0 (kc_bounds ''3'' ''5'' []) it_retry) =
      map Effect [PerformScaleUp 2,
                  Sleep (30 * Second), CheckStatusCluster, CheckErrorStatusCluster,
                  Sleep (30 * Second), CheckStatusCluster, CheckErrorStatusCluster,
                  PerformScaleUp 2,
                  Sleep (30 * Second), CheckStatusCluster,
                  Sleep (30 * Second), CheckStatusCluster] @
      afterBounds autoscaler_running 0 (kc_bounds ''3'' ''5'' []) it_retry \<and>
   run_ending (RunOnce autoscaler_running 0 (kc_bounds ''3'' ''5'' []) it_retry) \<noteq> StillPolling \<and>
   afterBounds autoscaler_running 0 (kc_bounds ''3'' ''5'' []) it_retry =
     [Call PodListProcess, Call UpdateUnneededNodes, Effect StatusConfigMapWritten,
      Call (ScaleDownStatusProcess ScaleDownInCooldown), Call AutoscalingStatusProcess]"
proof -
  let ?kc = "kc_bounds ''3'' ''5'' []"
  have m: "GetMinSizeNodeGroup ?kc = Inr 3" by (simp add: eval_config)
  have w: "numberWorkerNode it_growth = 1" by (simp add: it_growth_def eval_nodes)
  have w': "numberWorkerNode it_retry = 1" by (simp add: it_retry_def eval_nodes)
  have below: "numberWorkerNode it_growth < 3" by (simp add: w)
  have below': "numberWorkerNode it_retry < 3" by (simp add: w')
  have p: "it_Provider it_growth = [poll_scaling] @ poll_succeeded # []"
    by (simp add: it_growth_def uneventful_def)
  have p': "it_Provider it_retry = [poll_scaling] @ poll_error # [poll_scaling] @ poll_succeeded # []"
    by (simp add: it_retry_def uneventful_def)
  have s: "\<forall>x \<in> set [poll_scaling]. \<not> isSucceededStatus x \<and> \<not> isErrorStatus x"
    by (simp add: poll_scaling_def)
  have s': "\<forall>x \<in> set [poll_scaling]. \<not> isSucceededStatus x"
    by (simp add: poll_scaling_def)
  have q: "isSucceededStatus poll_succeeded" by (simp add: poll_succeeded_def)
  have e: "\<not> isSucceededStatus poll_error \<and> isErrorStatus poll_error" by (simp add: poll_error_def)
  have c: "cleanUpEffects autoscaler_running it = []" for it
    by (simp add: cleanUpEffects_def cleanUpIfRequired_def autoscaler_running_def)
  have 1: "run_trace (RunOnce autoscaler_running 0 ?kc it_growth) =
          map Effect (cleanUpEffects autoscaler_running it_growth @
            PerformScaleUp (3 - numberWorkerNode it_growth) #
            scalingRounds (length [poll_scaling]) @ succeededRound) @
          afterBounds autoscaler_running 0 ?kc it_growth \<and>
       run_ending (RunOnce autoscaler_running 0 ?kc it_growth) \<noteq> StillPolling"
    using RunOnce_below_minimum [OF m below, of autoscaler_running 0] p s q by blast
  have 2: "run_trace (RunOnce autoscaler_running 0 ?kc it_retry) =
          map Effect (cleanUpEffects autoscaler_running it_retry @
            PerformScaleUp (3 - numberWorkerNode it_retry) #
            scalingRounds (length [poll_scaling]) @
            errorRound (PerformScaleUp (3 - numberWorkerNode it_retry)) @
            waitingRounds (length [poll_scaling]) @ succeededRound) @
          afterBounds autoscaler_running 0 ?kc it_retry \<and>
       run_ending (RunOnce autoscaler_running 0 ?kc it_retry) \<noteq> StillPolling"
    using RunOnce_below_minimum [OF m below', of autoscaler_running 0] p' s s' q e by blast
  have 3: "afterBounds autoscaler_running 0 ?kc it_retry =
     [Call PodListProcess, Call UpdateUnneededNodes, Effect StatusConfigMapWritten,
      Call (ScaleDownStatusProcess ScaleDownInCooldown), Call AutoscalingStatusProcess]"
    by (simp add: afterBounds_def it_retry_def listCluster_def obtainNodeLists_def uneventful_def
        Let_def reconcile_def tryScaleUp_def tryScaleDown_def deferredStatusUpdate_def
        scaleDownNodes_def scaleDownInCooldown_def filterOutYoungPods_def
        time_After_def time_Add_def Second_def reset_def Process_def
        autoscaler_running_def options_default_def)
  show ?thesis
    using 1 2 3 m w w'
    by (simp add: c scalingRounds_def waitingRounds_def succeededRound_def errorRound_def)
qed

lemma workerNodeNames_filter:
  "workerNodeNames nodes = filter (\<lambda>name. Contains name ''worker'') (map node_Name nodes)"
  by (induction nodes) simp_all

lemma selectWorker_last:
  "selectWorker names wanted current =
     (if filter (\<lambda>name. HasSuffix name wanted) names = [] then current
      else last (filter (\<lambda>name. HasSuffix name wanted) names))"
  by (induction names arbitrary: current) simp_all

text \<open>
  C2 (as the code has it). When the worker count is above the maximum and not below the
  minimum, the candidate is the last listed worker whose name ends with \<open>worker\<close> and the
  worker count in decimal, and the empty name when there is none. When the removability
  predicate returns false on it, \<open>RunOnce\<close> returns nil at once: nothing but the clean-up
  is in the trace and the three timestamps are as before. When it returns true, the next
  thing \<open>RunOnce\<close> does is a scale-down request of the worker count minus the maximum,
  computed in 64-bit integers, followed by the polling.
\<close>

theorem RunOnce_above_maximum:
  assumes "GetMinSizeNodeGroup kubeclient = Inr minSize"
    and "GetMaxSizeNodeGroup kubeclient = Inr maxSize"
    and "\<not> numberWorkerNode it < minSize"
    and "maxSize < numberWorkerNode it"
  shows
   "workerNameToRemove it =
      (if filter (\<lambda>name. HasSuffix name (''worker'' @ Itoa (numberWorkerNode it)))
            (workerNodeNames (firstNodeList it)) = [] then []
       else last (filter (\<lambda>name. HasSuffix name (''worker'' @ Itoa (numberWorkerNode it)))
                    (workerNodeNames (firstNodeList it)))) \<and>
    (checkWorkerNodeCanBeRemove kubeclient (workerNameToRemove it) = Inr False \<longrightarrow>
       run_trace (RunOnce a currentTime kubeclient it) = map Effect (cleanUpEffects a it) \<and>
       run_ending (RunOnce a currentTime kubeclient it) = Returned None \<and>
       lastScaleUpTime (run_autoscaler (RunOnce a currentTime kubeclient it)) = lastScaleUpTime a \<and>
       lastScaleDownDeleteTime (run_autoscaler (RunOnce a currentTime kubeclient it)) =
         lastScaleDownDeleteTime a \<and>
       lastScaleDownFailTime (run_autoscaler (RunOnce a currentTime kubeclient it)) =
         lastScaleDownFailTime a) \<and>
    (checkWorkerNodeCanBeRemove kubeclient (workerNameToRemove it) = Inr True \<longrightarrow>
       (\<exists>rest. run_trace (RunOnce a currentTime kubeclient it) =
          map Effect (cleanUpEffects a it @
            PerformScaleDown (go_sub (numberWorkerNode it) maxSize) #
            fst (pollProvider (PerformScaleDown (go_sub (numberWorkerNode it) maxSize))
                   (it_Provider it))) @ rest)) \<and>
    (fitsInt (numberWorkerNode it - maxSize) \<longrightarrow>
       go_sub (numberWorkerNode it) maxSize = numberWorkerNode it - maxSize)"
proof -
  let ?run = "RunOnce a currentTime kubeclient it"
  let ?down = "PerformScaleDown (go_sub (numberWorkerNode it) maxSize)"
  have bounds: "enforceBounds kubeclient (it_Provider it) (firstNodeList it) =
     (case checkWorkerNodeCanBeRemove kubeclient (workerNameToRemove it) of
        Inl c \<Rightarrow> ([], BoundsCrashed c)
      | Inr False \<Rightarrow> ([], BoundsReturnedNil)
      | Inr True \<Rightarrow> scaleAndPoll ?down (it_Provider it))"
    unfolding numberWorkerNode_def workerNameToRemove_def
    by (rule enforceBounds_above_max
        [OF assms(1) assms(2) assms(3) [unfolded numberWorkerNode_def]
          assms(4) [unfolded numberWorkerNode_def]])
  have 1: "workerNameToRemove it =
      (if filter (\<lambda>name. HasSuffix name (''worker'' @ Itoa (numberWorkerNode it)))
            (workerNodeNames (firstNodeList it)) = [] then []
       else last (filter (\<lambda>name. HasSuffix name (''worker'' @ Itoa (numberWorkerNode it)))
                    (workerNodeNames (firstNodeList it))))"
    unfolding workerNameToRemove_def by (rule selectWorker_last)
  have 2: "run_trace ?run = map Effect (cleanUpEffects a it) \<and>
       run_ending ?run = Returned None \<and>
       lastScaleUpTime (run_autoscaler ?run) = lastScaleUpTime a \<and>
       lastScaleDownDeleteTime (run_autoscaler ?run) = lastScaleDownDeleteTime a \<and>
       lastScaleDownFailTime (run_autoscaler ?run) = lastScaleDownFailTime a"
    if blocked: "checkWorkerNodeCanBeRemove kubeclient (workerNameToRemove it) = Inr False"
  proof -
    have b: "enforceBounds kubeclient (it_Provider it) (firstNodeList it) = ([], BoundsReturnedNil)"
      by (simp add: bounds blocked)
    have "snd (enforceBounds kubeclient (it_Provider it) (firstNodeList it)) \<noteq> BoundsPassed"
      by (simp add: b)
    from RunOnce_stopped_in_bounds [OF this, of a currentTime]
    show ?thesis
      by (simp add: b cleanUpEffects_def cleanUpIfRequired_def)
  qed
  have 3: "\<exists>rest. run_trace ?run =
          map Effect (cleanUpEffects a it @ ?down # fst (pollProvider ?down (it_Provider it))) @ rest"
    if free: "checkWorkerNodeCanBeRemove kubeclient (workerNameToRemove it) = Inr True"
    using RunOnce_trace_prefix [of a currentTime kubeclient it]
    by (simp add: bounds free scaleAndPoll_def Let_def cleanUpEffects_def)
  have 4: "go_sub (numberWorkerNode it) maxSize = numberWorkerNode it - maxSize"
    if "fitsInt (numberWorkerNode it - maxSize)"
    using that by (simp add: go_sub_def wrap64_id)
  show ?thesis using 1 2 3 4 by blast
qed

theorem RunOnce_above_maximum_witness:
  "workerNameToRemove it_shrink = ''cluster-worker3'' \<and>
   checkWorkerNodeCanBeRemove kc_scenario2 ''cluster-worker3'' = Inr False \<and>
   run_trace (RunOnce autoscaler_running 0 kc_scenario2 it_shrink) = [] \<and>
   run_ending (RunOnce autoscaler_running 0 kc_scenario2 it_shrink) = Returned None \<and>
   checkWorkerNodeCanBeRemove (kc_bounds ''1'' ''2'' []) ''cluster-worker3'' = Inr True \<and>
   (\<exists>rest. run_trace (RunOnce autoscaler_running 0 (kc_bounds ''1'' ''2'' []) it_shrink) =
      map Effect [PerformScaleDown 1, Sleep (30 * Second), CheckStatusCluster] @ rest)"
proof -
  have w: "numberWorkerNode it_shrink = 3" by (simp add: it_shrink_def eval_nodes)
  have n: "workerNameToRemove it_shrink = ''cluster-worker3''"
    by (simp add: it_shrink_def eval_nodes)
  have c: "cleanUpEffects autoscaler_running it_shrink = []"
    by (simp add: cleanUpEffects_def cleanUpIfRequired_def autoscaler_running_def)
  have p: "it_Provider it_shrink = [poll_succeeded]"
    by (simp add: it_shrink_def uneventful_def)
  have m2: "GetMinSizeNodeGroup kc_scenario2 = Inr 1" by (simp add: eval_config)
  have x2: "GetMaxSizeNodeGroup kc_scenario2 = Inr 2" by (simp add: eval_config)
  have b2: "checkWorkerNodeCanBeRemove kc_scenario2 ''cluster-worker3'' = Inr False"
    by (simp add: checkWorkerNodeCanBeRemove_def kc_scenario2_def pod_P_def)
  have m: "GetMinSizeNodeGroup (kc_bounds ''1'' ''2'' []) = Inr 1" by (simp add: eval_config)
  have x: "GetMaxSizeNodeGroup (kc_bounds ''1'' ''2'' []) = Inr 2" by (simp add: eval_config)
  have b: "checkWorkerNodeCanBeRemove (kc_bounds ''1'' ''2'' []) ''cluster-worker3'' = Inr True"
    by (simp add: checkWorkerNodeCanBeRemove_def kc_bounds_def)
  have g: "go_sub 3 2 = 1" by (simp add: go_sub_def wrap64_def)
  have blocked: "run_trace (RunOnce autoscaler_running 0 kc_scenario2 it_shrink) = [] \<and>
      run_ending (RunOnce autoscaler_running 0 kc_scenario2 it_shrink) = Returned None"
    using RunOnce_above_maximum [OF m2 x2, of it_shrink autoscaler_running 0] w n b2 c by simp
  have free: "\<exists>rest. run_trace (RunOnce autoscaler_running 0 (kc_bounds ''1'' ''2'' []) it_shrink) =
      map Effect [PerformScaleDown 1, Sleep (30 * Second), CheckStatusCluster] @ rest"
    using RunOnce_above_maximum [OF m x, of it_shrink autoscaler_running 0] w n b c p g
    by (simp add: poll_succeeded_def)
  show ?thesis using n b2 blocked b free by simp
qed

text \<open>
  C2 as stated fails when the minimum is configured above the maximum: with a minimum of
  5, a maximum of 2 and three workers, the worker count exceeds the maximum and the
  predicate fails on \<open>cluster-worker3\<close>, yet \<open>RunOnce\<close> does not return at once: the
  comparison with the minimum comes first, and a scale-up of two nodes is requested.
\<close>

theorem RunOnce_above_maximum_counterexample:
  "GetMaxSizeNodeGroup (kc_bounds ''5'' ''2'' [pod_P]) = Inr 2 \<and>
   numberWorkerNode it_conflict = 3 \<and>
   workerNameToRemove it_conflict = ''cluster-worker3'' \<and>
   checkWorkerNodeCanBeRemove (kc_bounds ''5'' ''2'' [pod_P]) ''cluster-worker3'' = Inr False \<and>
   run_trace (RunOnce autoscaler_running 0 (kc_bounds ''5'' ''2'' [pod_P]) it_conflict) =
     map Effect [PerformScaleUp 2, Sleep (30 * Second), CheckStatusCluster] \<and>
   run_ending (RunOnce autoscaler_running 0 (kc_bounds ''5'' ''2'' [pod_P]) it_conflict) =
     Returned (Some ApiCallError)"
proof -
  let ?kc = "kc_bounds ''5'' ''2'' [pod_P]"
  have x: "GetMaxSizeNodeGroup ?kc = Inr 2" by (simp add: eval_config)
  have m: "GetMinSizeNodeGroup ?kc = Inr 5" by (simp add: eval_config)
  have w: "numberWorkerNode it_conflict = 3" by (simp add: it_conflict_def it_shrink_def eval_nodes)
  have n: "workerNameToRemove it_conflict = ''cluster-worker3''"
    by (simp add: it_conflict_def it_shrink_def eval_nodes)
  have b: "checkWorkerNodeCanBeRemove ?kc ''cluster-worker3'' = Inr False"
    by (simp add: checkWorkerNodeCanBeRemove_def kc_bounds_def pod_P_def)
  have below: "int (length (workerNodeNames (firstNodeList it_conflict))) < 5"
    using w by (simp add: numberWorkerNode_def)
  have bounds: "enforceBounds ?kc (it_Provider it_conflict) (firstNodeList it_conflict) =
      ([PerformScaleUp 2, Sleep (30 * Second), CheckStatusCluster], BoundsPassed)"
    using enforceBounds_below_min [OF m below, of "it_Provider it_conflict"] w
    by (simp add: numberWorkerNode_def scaleAndPoll_def it_conflict_def it_shrink_def
        uneventful_def poll_succeeded_def)
  have l: "listCluster it_conflict = Inl (Returned (Some ApiCallError))"
    by (simp add: listCluster_def obtainNodeLists_def it_conflict_def it_shrink_def uneventful_def)
  have c: "cleanUpIfRequired autoscaler_running (it_ReadyNodesAtCleanUp it_conflict) =
      (autoscaler_running, [])"
    by (simp add: cleanUpIfRequired_def autoscaler_running_def)
  have "run_trace (RunOnce autoscaler_running 0 ?kc it_conflict) =
     map Effect [PerformScaleUp 2, Sleep (30 * Second), CheckStatusCluster] \<and>
   run_ending (RunOnce autoscaler_running 0 ?kc it_conflict) = Returned (Some ApiCallError)"
    by (simp add: RunOnce_def bounds l c Let_def)
  then show ?thesis using x w n b by simp
qed

section \<open>Properties of the scale-up decision\<close>

lemma calls_append [simp]: "calls (xs @ ys) = calls xs @ calls ys"
  by (induction xs rule: calls.induct) simp_all

lemma calls_Effect [simp]: "calls (map Effect xs) = []"
  by (induction xs) simp_all

lemma effects_append [simp]: "effects (xs @ ys) = effects xs @ effects ys"
  by (induction xs rule: effects.induct) simp_all

lemma effects_Effect [simp]: "effects (map Effect xs) = xs"
  by (induction xs) simp_all

lemma cleanUpIfRequired_reset:
  "(fst (cleanUpIfRequired a listed))\<lparr>disableScaleDownForLoop := False\<rparr> = reset a"
  by (simp add: cleanUpIfRequired_def reset_def)

lemma RunOnce_reconciles:
  assumes "entersReconcile kubeclient it"
  shows "RunOnce a currentTime kubeclient it =
     (let s = reconcile currentTime kubeclient (secondNodeList it) it (reset a);
          deferred = deferredStatusUpdate kubeclient s
      in \<lparr>run_autoscaler = ls_autoscaler s,
          run_trace = map Effect (cleanUpEffects a it @
                        fst (enforceBounds kubeclient (it_Provider it) (firstNodeList it))) @
                      ls_trace s @ fst deferred,
          run_ending = (case snd deferred of
                          Some c \<Rightarrow> Crashed c
                        | None \<Rightarrow> (case ls_return s of None \<Rightarrow> Returned None | Some e \<Rightarrow> e)),
          run_scaleUpResult = sus_Result (ls_scaleUpStatus s),
          run_scaleDownResult = ls_scaleDownResult s\<rparr>)"
  using assms
  by (simp add: RunOnce_def entersReconcile_def secondNodeList_def Let_def cleanUpEffects_def
      cleanUpIfRequired_reset split: sum.splits)

lemma RunOnce_leaves_early:
  assumes "\<not> entersReconcile kubeclient it"
  shows "run_autoscaler (RunOnce a currentTime kubeclient it) = reset a \<and>
     run_trace (RunOnce a currentTime kubeclient it) =
       map Effect (cleanUpEffects a it @
         fst (enforceBounds kubeclient (it_Provider it) (firstNodeList it))) \<and>
     run_scaleUpResult (RunOnce a currentTime kubeclient it) = ScaleUpNotTried \<and>
     run_scaleDownResult (RunOnce a currentTime kubeclient it) = ScaleDownNotTried"
  using assms
  by (simp add: RunOnce_def entersReconcile_def Let_def cleanUpEffects_def
      cleanUpIfRequired_reset split: sum.splits bounds_end.splits)

lemma deferred_calls:
  "c \<in> set (calls (fst (deferredStatusUpdate kubeclient s))) \<Longrightarrow>
   c = AutoscalingStatusProcess \<or> (\<exists>r. c = ScaleDownStatusProcess r)"
  by (auto simp: deferredStatusUpdate_def Let_def split: option.splits if_splits)

lemma afterScaleUp_trace: "ls_trace (afterScaleUp currentTime out s) = ls_trace s"
  by (simp add: afterScaleUp_def split: option.splits)

lemma tryScaleUp_calls:
  "calls (ls_trace (tryScaleUp currentTime kubeclient it pods s)) =
     calls (ls_trace s) @
     (if pods \<noteq> [] \<and> \<not> allPodsAreNew pods currentTime then [ScaleUp pods] else [])"
  by (simp add: tryScaleUp_def Let_def afterScaleUp_trace split: option.splits)

lemma tryScaleUp_none:
  "tryScaleUp currentTime kubeclient it [] s =
     s\<lparr>ls_scaleUpStatus := (ls_scaleUpStatus s)\<lparr>sus_Result := ScaleUpNotNeeded\<rparr>\<rparr>"
  by (simp add: tryScaleUp_def)

lemma tryScaleUp_new:
  "pods \<noteq> [] \<Longrightarrow> allPodsAreNew pods currentTime \<Longrightarrow>
   tryScaleUp currentTime kubeclient it pods s =
     s\<lparr>ls_autoscaler := (ls_autoscaler s)\<lparr>disableScaleDownForLoop := True\<rparr>,
       ls_scaleUpStatus := (ls_scaleUpStatus s)\<lparr>sus_Result := ScaleUpInCooldown\<rparr>\<rparr>"
  by (simp add: tryScaleUp_def)

lemma startScaleDown_frame:
  "ls_scaleUpStatus (startScaleDown currentTime it s) = ls_scaleUpStatus s \<and>
   ls_scaleDownResult (startScaleDown currentTime it s) = ls_scaleDownResult s \<and>
   disableScaleDownForLoop (ls_autoscaler (startScaleDown currentTime it s)) =
     disableScaleDownForLoop (ls_autoscaler s)"
  by (simp add: startScaleDown_def Let_def split: option.splits)

lemma tryScaleDown_frame:
  "ls_scaleUpStatus (tryScaleDown currentTime allNodes it s) = ls_scaleUpStatus s \<and>
   disableScaleDownForLoop (ls_autoscaler (tryScaleDown currentTime allNodes it s)) =
     disableScaleDownForLoop (ls_autoscaler s)"
  by (simp add: tryScaleDown_def Let_def startScaleDown_frame split: option.splits sum.splits)

lemma startScaleDown_calls:
  "calls (ls_trace (startScaleDown currentTime it s)) =
     calls (ls_trace s) @ TryToScaleDown #
     (if (sdo_Result (scaleDown_TryToScaleDown it) = ScaleDownNoNodeDeleted \<or>
          sdo_Result (scaleDown_TryToScaleDown it) = ScaleDownNoUnneeded) \<and>
         MaxBulkSoftTaintCount (AutoscalingOptions (ls_autoscaler s)) \<noteq> 0
      then [SoftTaintUnneededNodes] else []) @
     (if ScaleDownStatusProcessor (ls_autoscaler s)
      then [ScaleDownStatusProcess (sdo_Result (scaleDown_TryToScaleDown it))] else [])"
  by (auto simp: startScaleDown_def Let_def split: option.splits)

lemma tryScaleDown_calls:
  "c \<in> set (calls (ls_trace (tryScaleDown currentTime allNodes it s))) \<Longrightarrow>
   c \<in> set (calls (ls_trace s)) \<or> c = UpdateUnneededNodes \<or> c = TryToScaleDown \<or>
   c = SoftTaintUnneededNodes \<or> (\<exists>r. c = ScaleDownStatusProcess r)"
  by (auto simp: tryScaleDown_def Let_def startScaleDown_calls
      split: option.splits sum.splits if_splits)

lemma tryScaleDown_planner:
  "TryToScaleDown \<in> set (calls (ls_trace (tryScaleDown currentTime allNodes it s))) \<Longrightarrow>
   TryToScaleDown \<in> set (calls (ls_trace s)) \<or>
   \<not> scaleDownInCooldown (ls_autoscaler s) currentTime \<and> \<not> it_IsNonEmptyNodeDeleteInProgress it"
  by (auto simp: tryScaleDown_def Let_def startScaleDown_calls
      split: option.splits sum.splits if_splits)

lemma reconcile_reached:
  assumes "PodListProcess \<in> set (calls (ls_trace (reconcile currentTime kubeclient allNodes it a)))"
  shows "reconcile currentTime kubeclient allNodes it a =
     (let s1 = tryScaleUp currentTime kubeclient it (unschedulablePodsToHelp a currentTime it)
                 (firstState a)
      in if ls_return s1 \<noteq> None then s1 else tryScaleDown currentTime allNodes it s1)"
  using assms
  by (auto simp: reconcile_def Let_def firstState_def unschedulablePodsToHelp_def
      split: option.splits if_splits)

lemma RunOnce_reached:
  assumes "PodListProcess \<in> set (calls (run_trace (RunOnce a currentTime kubeclient it)))"
  shows "entersReconcile kubeclient it \<and>
    PodListProcess \<in> set (calls (ls_trace (reconcile currentTime kubeclient (secondNodeList it) it (reset a))))"
proof -
  have e: "entersReconcile kubeclient it"
  proof (rule ccontr)
    assume "\<not> entersReconcile kubeclient it"
    from RunOnce_leaves_early [OF this, of a currentTime] assms show False by simp
  qed
  have "PodListProcess \<in> set (calls (ls_trace (reconcile currentTime kubeclient (secondNodeList it) it (reset a)))) \<or>
      PodListProcess \<in> set (calls (fst (deferredStatusUpdate kubeclient
        (reconcile currentTime kubeclient (secondNodeList it) it (reset a)))))"
    using assms by (simp add: RunOnce_reconciles [OF e] Let_def)
  then show ?thesis using e deferred_calls by blast
qed

lemma filterOutYoungPods_filter:
  "filterOutYoungPods a pods currentTime =
     filter (\<lambda>pod. NewPodScaleUpDelay (AutoscalingOptions a) <
                     time_Sub currentTime (pod_CreationTimestamp pod)) pods"
  unfolding filterOutYoungPods_def
  by (induction pods) (simp_all add: Let_def)

lemma time_Sub_older:
  "minDuration \<le> d \<Longrightarrow> d < time_Sub t u \<longleftrightarrow> d < t - u \<and> d < maxDuration"
  by (auto simp: time_Sub_def)

lemma oldestFrom_after:
  "t < oldestFrom oldest pods + d \<longleftrightarrow>
     t < oldest + d \<and> (\<forall>pod \<in> set pods. t < pod_CreationTimestamp pod + d)"
  by (induction pods arbitrary: oldest) auto

lemma allPodsAreNew_iff:
  "pods \<noteq> [] \<Longrightarrow>
   allPodsAreNew pods currentTime \<longleftrightarrow>
     (\<forall>pod \<in> set pods. currentTime - pod_CreationTimestamp pod < 2 * Second)"
proof -
  assume "pods \<noteq> []"
  then obtain pod rest where p: "pods = pod # rest" by (cases pods) auto
  have "allPodsAreNew pods currentTime \<longleftrightarrow>
      currentTime < oldestFrom (pod_CreationTimestamp pod) rest + 2 * Second"
    by (simp add: allPodsAreNew_def GetOldestCreateTime_def p time_After_def time_Add_def
        unschedulablePodTimeBuffer_def)
  also have "\<dots> \<longleftrightarrow> (\<forall>q \<in> set pods. currentTime < pod_CreationTimestamp q + 2 * Second)"
    by (simp add: oldestFrom_after p)
  also have "\<dots> \<longleftrightarrow> (\<forall>q \<in> set pods. currentTime - pod_CreationTimestamp q < 2 * Second)"
    by (simp add: algebra_simps)
  finally show ?thesis .
qed

lemma unschedulablePodsToHelp_reset:
  "unschedulablePodsToHelp (reset a) currentTime it = unschedulablePodsToHelp a currentTime it"
  by (simp add: unschedulablePodsToHelp_def filterOutYoungPods_def reset_def split: option.splits)

lemma unschedulablePodsToHelp_filter:
  "unschedulablePodsToHelp a currentTime it =
     filter (\<lambda>pod. NewPodScaleUpDelay (AutoscalingOptions a) <
                     time_Sub currentTime (pod_CreationTimestamp pod)) (processedPods it)"
  by (simp add: unschedulablePodsToHelp_def processedPods_def filterOutYoungPods_filter
      split: option.splits)

lemma tryScaleDown_extends:
  "\<exists>more. ls_trace (tryScaleDown currentTime allNodes it s) = ls_trace s @ more"
  by (simp add: tryScaleDown_def startScaleDown_def Let_def split: option.splits sum.splits)

lemma RunOnce_after_scale_up:
  assumes "PodListProcess \<in> set (calls (run_trace (RunOnce a currentTime kubeclient it)))"
  defines "s1 \<equiv> tryScaleUp currentTime kubeclient it (unschedulablePodsToHelp a currentTime it)
                   (firstState (reset a))"
  defines "s \<equiv> if ls_return s1 \<noteq> None then s1
                 else tryScaleDown currentTime (secondNodeList it) it s1"
  shows "run_autoscaler (RunOnce a currentTime kubeclient it) = ls_autoscaler s"
    and "run_scaleUpResult (RunOnce a currentTime kubeclient it) = sus_Result (ls_scaleUpStatus s)"
    and "run_scaleDownResult (RunOnce a currentTime kubeclient it) = ls_scaleDownResult s"
    and "calls (run_trace (RunOnce a currentTime kubeclient it)) =
           calls (ls_trace s) @ calls (fst (deferredStatusUpdate kubeclient s))"
    and "effects (run_trace (RunOnce a currentTime kubeclient it)) =
           cleanUpEffects a it @
           fst (enforceBounds kubeclient (it_Provider it) (firstNodeList it)) @
           effects (ls_trace s) @ effects (fst (deferredStatusUpdate kubeclient s))"
proof -
  have e: "entersReconcile kubeclient it"
    and p: "PodListProcess \<in> set (calls (ls_trace
        (reconcile currentTime kubeclient (secondNodeList it) it (reset a))))"
    using RunOnce_reached [OF assms(1)] by simp_all
  have r: "reconcile currentTime kubeclient (secondNodeList it) it (reset a) = s"
    using reconcile_reached [OF p]
    by (simp add: s_def s1_def Let_def unschedulablePodsToHelp_reset)
  show "run_autoscaler (RunOnce a currentTime kubeclient it) = ls_autoscaler s"
    by (simp add: RunOnce_reconciles [OF e] r Let_def)
  show "run_scaleUpResult (RunOnce a currentTime kubeclient it) = sus_Result (ls_scaleUpStatus s)"
    by (simp add: RunOnce_reconciles [OF e] r Let_def)
  show "run_scaleDownResult (RunOnce a currentTime kubeclient it) = ls_scaleDownResult s"
    by (simp add: RunOnce_reconciles [OF e] r Let_def)
  show "calls (run_trace (RunOnce a currentTime kubeclient it)) =
           calls (ls_trace s) @ calls (fst (deferredStatusUpdate kubeclient s))"
    by (simp add: RunOnce_reconciles [OF e] r Let_def)
  show "effects (run_trace (RunOnce a currentTime kubeclient it)) =
           cleanUpEffects a it @
           fst (enforceBounds kubeclient (it_Provider it) (firstNodeList it)) @
           effects (ls_trace s) @ effects (fst (deferredStatusUpdate kubeclient s))"
    by (simp add: RunOnce_reconciles [OF e] r Let_def)
qed

lemma RunOnce_not_needed:
  assumes "PodListProcess \<in> set (calls (run_trace (RunOnce a currentTime kubeclient it)))"
    and "unschedulablePodsToHelp a currentTime it = []"
  shows "run_scaleUpResult (RunOnce a currentTime kubeclient it) = ScaleUpNotNeeded \<and>
         (\<forall>pods. ScaleUp pods \<notin> set (calls (run_trace (RunOnce a currentTime kubeclient it))))"
proof -
  let ?s1 = "tryScaleUp currentTime kubeclient it (unschedulablePodsToHelp a currentTime it)
               (firstState (reset a))"
  let ?s = "tryScaleDown currentTime (secondNodeList it) it ?s1"
  have s1: "?s1 = (firstState (reset a))
      \<lparr>ls_scaleUpStatus := (ls_scaleUpStatus (firstState (reset a)))\<lparr>sus_Result := ScaleUpNotNeeded\<rparr>\<rparr>"
    unfolding assms(2) by (rule tryScaleUp_none)
  have ret: "ls_return ?s1 = None" unfolding s1 by (simp add: firstState_def)
  have sel: "(if ls_return ?s1 \<noteq> None then ?s1 else ?s) = ?s" using ret by simp
  note run = RunOnce_after_scale_up [OF assms(1), unfolded sel]
  have c1: "calls (ls_trace ?s1) = [PodListProcess]" unfolding s1 by (simp add: firstState_def)
  have u1: "sus_Result (ls_scaleUpStatus ?s1) = ScaleUpNotNeeded"
    unfolding s1 by (simp add: firstState_def)
  have up: "run_scaleUpResult (RunOnce a currentTime kubeclient it) = ScaleUpNotNeeded"
    using run(2) tryScaleDown_frame [of currentTime "secondNodeList it" it ?s1] u1 by simp
  have "ScaleUp pods \<notin> set (calls (run_trace (RunOnce a currentTime kubeclient it)))" for pods
  proof
    assume "ScaleUp pods \<in> set (calls (run_trace (RunOnce a currentTime kubeclient it)))"
    then have "ScaleUp pods \<in> set (calls (ls_trace ?s)) \<or>
        ScaleUp pods \<in> set (calls (fst (deferredStatusUpdate kubeclient ?s)))"
      using run(4) by simp
    then have "ScaleUp pods \<in> set (calls (ls_trace ?s1))"
      using tryScaleDown_calls [of "ScaleUp pods" currentTime "secondNodeList it" it ?s1]
        deferred_calls [of "ScaleUp pods" kubeclient ?s] by auto
    then show False using c1 by simp
  qed
  then show ?thesis using up by simp
qed

lemma RunOnce_pods_new:
  assumes "PodListProcess \<in> set (calls (run_trace (RunOnce a currentTime kubeclient it)))"
    and "unschedulablePodsToHelp a currentTime it \<noteq> []"
    and "allPodsAreNew (unschedulablePodsToHelp a currentTime it) currentTime"
  shows "run_scaleUpResult (RunOnce a currentTime kubeclient it) = ScaleUpInCooldown \<and>
         disableScaleDownForLoop (run_autoscaler (RunOnce a currentTime kubeclient it)) \<and>
         (\<forall>pods. ScaleUp pods \<notin> set (calls (run_trace (RunOnce a currentTime kubeclient it)))) \<and>
         TryToScaleDown \<notin> set (calls (run_trace (RunOnce a currentTime kubeclient it)))"
proof -
  let ?pods = "unschedulablePodsToHelp a currentTime it"
  let ?s1 = "tryScaleUp currentTime kubeclient it ?pods (firstState (reset a))"
  let ?s = "tryScaleDown currentTime (secondNodeList it) it ?s1"
  have s1: "?s1 = (firstState (reset a))
      \<lparr>ls_autoscaler := (ls_autoscaler (firstState (reset a)))\<lparr>disableScaleDownForLoop := True\<rparr>,
       ls_scaleUpStatus := (ls_scaleUpStatus (firstState (reset a)))\<lparr>sus_Result := ScaleUpInCooldown\<rparr>\<rparr>"
    using assms(2,3) by (rule tryScaleUp_new)
  have ret: "ls_return ?s1 = None" unfolding s1 by (simp add: firstState_def)
  have sel: "(if ls_return ?s1 \<noteq> None then ?s1 else ?s) = ?s" using ret by simp
  note run = RunOnce_after_scale_up [OF assms(1), unfolded sel]
  have c1: "calls (ls_trace ?s1) = [PodListProcess]" unfolding s1 by (simp add: firstState_def)
  have u1: "sus_Result (ls_scaleUpStatus ?s1) = ScaleUpInCooldown"
    unfolding s1 by (simp add: firstState_def)
  have d1: "disableScaleDownForLoop (ls_autoscaler ?s1)"
    unfolding s1 by (simp add: firstState_def)
  have cool: "scaleDownInCooldown (ls_autoscaler ?s1) currentTime"
    using d1 by (simp add: scaleDownInCooldown_def)
  have frame: "ls_scaleUpStatus ?s = ls_scaleUpStatus ?s1"
      "disableScaleDownForLoop (ls_autoscaler ?s) = disableScaleDownForLoop (ls_autoscaler ?s1)"
    using tryScaleDown_frame [of currentTime "secondNodeList it" it ?s1] by simp_all
  have up: "run_scaleUpResult (RunOnce a currentTime kubeclient it) = ScaleUpInCooldown"
    using run(2) frame(1) u1 by simp
  have dis: "disableScaleDownForLoop (run_autoscaler (RunOnce a currentTime kubeclient it))"
    using run(1) frame(2) d1 by simp
  have nocall: "c \<in> set (calls (run_trace (RunOnce a currentTime kubeclient it))) \<Longrightarrow>
      c \<in> set (calls (ls_trace ?s)) \<or> c = AutoscalingStatusProcess \<or> (\<exists>r. c = ScaleDownStatusProcess r)" for c
    using run(4) deferred_calls [of c kubeclient ?s] by auto
  have noup: "ScaleUp pods \<notin> set (calls (run_trace (RunOnce a currentTime kubeclient it)))" for pods
    using nocall [of "ScaleUp pods"]
      tryScaleDown_calls [of "ScaleUp pods" currentTime "secondNodeList it" it ?s1] c1 by auto
  have nodown: "TryToScaleDown \<notin> set (calls (run_trace (RunOnce a currentTime kubeclient it)))"
    using nocall [of TryToScaleDown]
      tryScaleDown_planner [of currentTime "secondNodeList it" it ?s1] c1 cool by auto
  show ?thesis using up dis noup nodown by simp
qed

lemma RunOnce_scale_up_considered:
  assumes "PodListProcess \<in> set (calls (run_trace (RunOnce a currentTime kubeclient it)))"
    and "unschedulablePodsToHelp a currentTime it \<noteq> []"
    and "\<not> allPodsAreNew (unschedulablePodsToHelp a currentTime it) currentTime"
  shows "ScaleUp (unschedulablePodsToHelp a currentTime it) \<in>
           set (calls (run_trace (RunOnce a currentTime kubeclient it)))"
proof -
  let ?pods = "unschedulablePodsToHelp a currentTime it"
  let ?s1 = "tryScaleUp currentTime kubeclient it ?pods (firstState (reset a))"
  let ?s = "if ls_return ?s1 \<noteq> None then ?s1
            else tryScaleDown currentTime (secondNodeList it) it ?s1"
  note run = RunOnce_after_scale_up [OF assms(1)]
  have "ScaleUp ?pods \<in> set (calls (ls_trace ?s1))"
    using assms(2,3) by (simp add: tryScaleUp_calls)
  moreover have "\<exists>more. ls_trace ?s = ls_trace ?s1 @ more"
    using tryScaleDown_extends [of currentTime "secondNodeList it" it ?s1] by auto
  ultimately have "ScaleUp ?pods \<in> set (calls (ls_trace ?s))" by auto
  then show ?thesis using run(4) by simp
qed

text \<open>
  C4. In a run that gets as far as the pod-list processor, the pods handed on are those of
  its output whose age exceeds \<open>NewPodScaleUpDelay\<close>, so every pod that is not older than
  the delay is dropped. If none remains, the scale-up result is not-needed and the planner
  is not called. If some remain and all of them are younger than two seconds, scale-down
  is disabled for the iteration, the scale-up result is in-cooldown, and neither planner
  is called. If one of them is two seconds old or more, the scale-up planner is called on
  them. In particular one pod aged one second never has the planner called (and puts the
  run in cooldown when the delay is below one second), and one pod aged three seconds has
  it called when the delay is below three seconds.
\<close>

theorem RunOnce_age_filter:
  assumes "PodListProcess \<in> set (calls (run_trace (RunOnce a currentTime kubeclient it)))"
  shows
   "unschedulablePodsToHelp a currentTime it =
      filter (\<lambda>pod. NewPodScaleUpDelay (AutoscalingOptions a) <
                      time_Sub currentTime (pod_CreationTimestamp pod)) (processedPods it) \<and>
    (minDuration \<le> NewPodScaleUpDelay (AutoscalingOptions a) \<longrightarrow>
       (\<forall>pod \<in> set (processedPods it).
          currentTime - pod_CreationTimestamp pod \<le> NewPodScaleUpDelay (AutoscalingOptions a) \<longrightarrow>
          pod \<notin> set (unschedulablePodsToHelp a currentTime it))) \<and>
    (unschedulablePodsToHelp a currentTime it = [] \<longrightarrow>
       run_scaleUpResult (RunOnce a currentTime kubeclient it) = ScaleUpNotNeeded \<and>
       (\<forall>pods. ScaleUp pods \<notin> set (calls (run_trace (RunOnce a currentTime kubeclient it))))) \<and>
    (unschedulablePodsToHelp a currentTime it \<noteq> [] \<and>
     (\<forall>pod \<in> set (unschedulablePodsToHelp a currentTime it).
        currentTime - pod_CreationTimestamp pod < 2 * Second) \<longrightarrow>
       run_scaleUpResult (RunOnce a currentTime kubeclient it) = ScaleUpInCooldown \<and>
       disableScaleDownForLoop (run_autoscaler (RunOnce a currentTime kubeclient it)) \<and>
       (\<forall>pods. ScaleUp pods \<notin> set (calls (run_trace (RunOnce a currentTime kubeclient it)))) \<and>
       TryToScaleDown \<notin> set (calls (run_trace (RunOnce a currentTime kubeclient it)))) \<and>
    ((\<exists>pod \<in> set (unschedulablePodsToHelp a currentTime it).
        2 * Second \<le> currentTime - pod_CreationTimestamp pod) \<longrightarrow>
       ScaleUp (unschedulablePodsToHelp a currentTime it) \<in>
         set (calls (run_trace (RunOnce a currentTime kubeclient it)))) \<and>
    (\<forall>pod. processedPods it = [pod] \<and> currentTime - pod_CreationTimestamp pod = Second \<longrightarrow>
       (\<forall>pods. ScaleUp pods \<notin> set (calls (run_trace (RunOnce a currentTime kubeclient it)))) \<and>
       (NewPodScaleUpDelay (AutoscalingOptions a) < Second \<longrightarrow>
          run_scaleUpResult (RunOnce a currentTime kubeclient it) = ScaleUpInCooldown \<and>
          TryToScaleDown \<notin> set (calls (run_trace (RunOnce a currentTime kubeclient it))))) \<and>
    (\<forall>pod. processedPods it = [pod] \<and> currentTime - pod_CreationTimestamp pod = 3 * Second \<and>
           NewPodScaleUpDelay (AutoscalingOptions a) < 3 * Second \<longrightarrow>
       ScaleUp [pod] \<in> set (calls (run_trace (RunOnce a currentTime kubeclient it))))"
proof -
  let ?run = "RunOnce a currentTime kubeclient it"
  let ?toHelp = "unschedulablePodsToHelp a currentTime it"
  let ?delay = "NewPodScaleUpDelay (AutoscalingOptions a)"
  have 1: "?toHelp = filter (\<lambda>pod. ?delay < time_Sub currentTime (pod_CreationTimestamp pod))
      (processedPods it)"
    by (rule unschedulablePodsToHelp_filter)
  have 2: "pod \<notin> set ?toHelp"
    if "minDuration \<le> ?delay" and "currentTime - pod_CreationTimestamp pod \<le> ?delay" for pod
    using that by (simp add: 1 time_Sub_older)
  note 3 = RunOnce_not_needed [OF assms]
  have 4: "run_scaleUpResult ?run = ScaleUpInCooldown \<and>
       disableScaleDownForLoop (run_autoscaler ?run) \<and>
       (\<forall>pods. ScaleUp pods \<notin> set (calls (run_trace ?run))) \<and>
       TryToScaleDown \<notin> set (calls (run_trace ?run))"
    if "?toHelp \<noteq> []"
      and "\<forall>pod \<in> set ?toHelp. currentTime - pod_CreationTimestamp pod < 2 * Second"
    using RunOnce_pods_new [OF assms that(1)] allPodsAreNew_iff [OF that(1), of currentTime] that(2)
    by blast
  have 5: "ScaleUp ?toHelp \<in> set (calls (run_trace ?run))"
    if "\<exists>pod \<in> set ?toHelp. 2 * Second \<le> currentTime - pod_CreationTimestamp pod"
  proof -
    have ne: "?toHelp \<noteq> []" using that by auto
    have "\<not> allPodsAreNew ?toHelp currentTime"
      using allPodsAreNew_iff [OF ne, of currentTime] that by auto
    then show ?thesis using RunOnce_scale_up_considered [OF assms ne] by simp
  qed
  have 6: "(\<forall>pods. ScaleUp pods \<notin> set (calls (run_trace ?run))) \<and>
       (?delay < Second \<longrightarrow>
          run_scaleUpResult ?run = ScaleUpInCooldown \<and>
          TryToScaleDown \<notin> set (calls (run_trace ?run)))"
    if p: "processedPods it = [pod]" and age: "currentTime - pod_CreationTimestamp pod = Second"
    for pod
  proof -
    have ts: "time_Sub currentTime (pod_CreationTimestamp pod) = Second"
      by (simp add: time_Sub_def age maxDuration_def minDuration_def Second_def)
    show ?thesis
    proof (cases "?toHelp = []")
      case True
      then have "\<not> ?delay < Second" unfolding 1 p by (simp add: ts split: if_splits)
      then show ?thesis using 3 True by simp
    next
      case False
      then have "?toHelp = [pod]" unfolding 1 p by (simp split: if_splits)
      then have "\<forall>q \<in> set ?toHelp. currentTime - pod_CreationTimestamp q < 2 * Second"
        using age by (simp add: Second_def)
      then show ?thesis using 4 [OF False] by simp
    qed
  qed
  have 7: "ScaleUp [pod] \<in> set (calls (run_trace ?run))"
    if p: "processedPods it = [pod]" and age: "currentTime - pod_CreationTimestamp pod = 3 * Second"
      and d: "?delay < 3 * Second" for pod
  proof -
    have "time_Sub currentTime (pod_CreationTimestamp pod) = 3 * Second"
      by (simp add: time_Sub_def age maxDuration_def minDuration_def Second_def)
    then have t: "?toHelp = [pod]" using d unfolding 1 p by simp
    have "\<exists>q \<in> set ?toHelp. 2 * Second \<le> currentTime - pod_CreationTimestamp q"
      by (simp add: t age Second_def)
    from 5 [OF this] show ?thesis by (simp add: t)
  qed
  show ?thesis using 1 2 3 4 5 6 7 by blast
qed

lemma RunOnce_reaches:
  assumes "entersReconcile kubeclient it" and "it_IsClusterHealthy it"
    and "it_UnschedulablePods it = Some listed"
    and "\<not> list_ex (it_AddPodFails it) (snd (it_FilterOutExpendableAndSplit it listed))"
  shows "PodListProcess \<in> set (calls (run_trace (RunOnce a currentTime kubeclient it)))"
proof -
  let ?s1 = "tryScaleUp currentTime kubeclient it (unschedulablePodsToHelp (reset a) currentTime it)
               (firstState (reset a))"
  let ?s = "if ls_return ?s1 \<noteq> None then ?s1
            else tryScaleDown currentTime (secondNodeList it) it ?s1"
  have r: "reconcile currentTime kubeclient (secondNodeList it) it (reset a) = ?s"
    using assms(2,3,4)
    by (simp add: reconcile_def Let_def firstState_def unschedulablePodsToHelp_def)
  have "PodListProcess \<in> set (calls (ls_trace ?s1))"
    by (simp add: tryScaleUp_calls firstState_def)
  moreover have "\<exists>more. ls_trace ?s = ls_trace ?s1 @ more"
    using tryScaleDown_extends [of currentTime "secondNodeList it" it ?s1] by auto
  ultimately have "PodListProcess \<in> set (calls (ls_trace ?s))" by auto
  then show ?thesis by (simp add: RunOnce_reconciles [OF assms(1)] r Let_def)
qed

lemma entersReconcile_within:
  assumes "GetMinSizeNodeGroup kubeclient = Inr minSize"
    and "GetMaxSizeNodeGroup kubeclient = Inr maxSize"
    and "\<not> numberWorkerNode it < minSize" and "\<not> maxSize < numberWorkerNode it"
    and "listCluster it = Inr nodes"
  shows "entersReconcile kubeclient it"
  using enforceBounds_within [OF assms(1,2), of "firstNodeList it" "it_Provider it"] assms(3,4,5)
  by (simp add: entersReconcile_def numberWorkerNode_def)

lemmas eval_list =
  listCluster_def obtainNodeLists_def uneventful_def

theorem RunOnce_age_filter_witness:
  "PodListProcess \<in> set (calls (run_trace
      (RunOnce autoscaler_running (100 * Second) (kc_bounds ''1'' ''10'' [])
         (it_pending (99 * Second))))) \<and>
   run_scaleUpResult
      (RunOnce autoscaler_running (100 * Second) (kc_bounds ''1'' ''10'' [])
         (it_pending (99 * Second))) = ScaleUpInCooldown \<and>
   ScaleUp [podCreatedAt ''pending'' (97 * Second)] \<in> set (calls (run_trace
      (RunOnce autoscaler_running (100 * Second) (kc_bounds ''1'' ''10'' [])
         (it_pending (97 * Second)))))"
proof -
  let ?kc = "kc_bounds ''1'' ''10'' []"
  let ?t = "100 * Second"
  have m: "GetMinSizeNodeGroup ?kc = Inr 1" by (simp add: eval_config)
  have x: "GetMaxSizeNodeGroup ?kc = Inr 10" by (simp add: eval_config)
  have w: "numberWorkerNode (it_pending c) = 2" for c
    by (simp add: it_pending_def two_workers_def eval_nodes)
  have l: "listCluster (it_pending c) = Inr (two_workers, two_workers)" for c
    by (simp add: it_pending_def eval_list)
  have e: "entersReconcile ?kc (it_pending c)" for c
    using entersReconcile_within [OF m x _ _ l [of c]] by (simp add: w)
  have h: "it_IsClusterHealthy (it_pending c)" for c
    by (simp add: it_pending_def uneventful_def)
  have u: "it_UnschedulablePods (it_pending c) = Some [podCreatedAt ''pending'' c]" for c
    by (simp add: it_pending_def uneventful_def)
  have f: "\<not> list_ex (it_AddPodFails (it_pending c))
      (snd (it_FilterOutExpendableAndSplit (it_pending c) [podCreatedAt ''pending'' c]))" for c
    by (simp add: it_pending_def uneventful_def)
  have reach: "PodListProcess \<in> set (calls (run_trace
      (RunOnce autoscaler_running ?t ?kc (it_pending c))))" for c
    by (rule RunOnce_reaches [OF e h u f])
  have p: "processedPods (it_pending c) = [podCreatedAt ''pending'' c]" for c
    by (simp add: processedPods_def it_pending_def uneventful_def)
  have d: "NewPodScaleUpDelay (AutoscalingOptions autoscaler_running) = 0"
    by (simp add: autoscaler_running_def options_default_def)
  have a1: "?t - pod_CreationTimestamp (podCreatedAt ''pending'' (99 * Second)) = Second"
    by (simp add: podCreatedAt_def Second_def)
  have a3: "?t - pod_CreationTimestamp (podCreatedAt ''pending'' (97 * Second)) = 3 * Second"
    by (simp add: podCreatedAt_def Second_def)
  have young: "run_scaleUpResult (RunOnce autoscaler_running ?t ?kc (it_pending (99 * Second))) =
      ScaleUpInCooldown"
    using RunOnce_age_filter [OF reach [of "99 * Second"]] p [of "99 * Second"] a1 d
    by (simp add: Second_def)
  have old: "ScaleUp [podCreatedAt ''pending'' (97 * Second)] \<in> set (calls (run_trace
      (RunOnce autoscaler_running ?t ?kc (it_pending (97 * Second)))))"
    using RunOnce_age_filter [OF reach [of "97 * Second"]] p [of "97 * Second"] a3 d
    by (simp add: Second_def)
  show ?thesis using reach [of "99 * Second"] young old by simp
qed

section \<open>Properties of the scale-down cooldown\<close>

lemma scaleDownInCooldown_spec:
  "scaleDownInCooldown a currentTime = spec_cooldown a (disableScaleDownForLoop a) currentTime"
  by (simp add: scaleDownInCooldown_def spec_cooldown_def time_After_def time_Add_def)

lemma reconcile_calls:
  "c \<in> set (calls (ls_trace (reconcile currentTime kubeclient allNodes it a))) \<Longrightarrow>
   c = CleanUpUnneededNodes \<or>
   PodListProcess \<in> set (calls (ls_trace (reconcile currentTime kubeclient allNodes it a)))"
proof -
  assume c: "c \<in> set (calls (ls_trace (reconcile currentTime kubeclient allNodes it a)))"
  show ?thesis
  proof (cases "it_IsClusterHealthy it")
    case False
    then show ?thesis using c by (simp add: reconcile_def Let_def)
  next
    case True
    show ?thesis
    proof (cases "it_UnschedulablePods it")
      case None
      then show ?thesis using c True by (simp add: reconcile_def Let_def)
    next
      case (Some listed)
      show ?thesis
      proof (cases "list_ex (it_AddPodFails it) (snd (it_FilterOutExpendableAndSplit it listed))")
        case True
        then show ?thesis using c \<open>it_IsClusterHealthy it\<close> Some
          by (simp add: reconcile_def Let_def)
      next
        case False
        let ?s1 = "tryScaleUp currentTime kubeclient it (unschedulablePodsToHelp a currentTime it)
               (firstState a)"
        let ?s = "if ls_return ?s1 \<noteq> None then ?s1
            else tryScaleDown currentTime allNodes it ?s1"
        have r: "reconcile currentTime kubeclient allNodes it a = ?s"
          using \<open>it_IsClusterHealthy it\<close> Some False
          by (simp add: reconcile_def Let_def firstState_def unschedulablePodsToHelp_def)
        have "PodListProcess \<in> set (calls (ls_trace ?s1))"
          by (simp add: tryScaleUp_calls firstState_def)
        moreover have "\<exists>more. ls_trace ?s = ls_trace ?s1 @ more"
          using tryScaleDown_extends [of currentTime allNodes it ?s1] by auto
        ultimately have "PodListProcess \<in> set (calls (ls_trace ?s))" by auto
        then show ?thesis by (simp only: r) simp
      qed
    qed
  qed
qed

lemma RunOnce_reached_update:
  assumes "UpdateUnneededNodes \<in> set (calls (run_trace (RunOnce a currentTime kubeclient it)))"
  shows "PodListProcess \<in> set (calls (run_trace (RunOnce a currentTime kubeclient it)))"
proof -
  have e: "entersReconcile kubeclient it"
  proof (rule ccontr)
    assume "\<not> entersReconcile kubeclient it"
    from RunOnce_leaves_early [OF this, of a currentTime] assms show False by simp
  qed
  let ?s = "reconcile currentTime kubeclient (secondNodeList it) it (reset a)"
  have "UpdateUnneededNodes \<in> set (calls (ls_trace ?s)) \<or>
      UpdateUnneededNodes \<in> set (calls (fst (deferredStatusUpdate kubeclient ?s)))"
    using assms by (simp add: RunOnce_reconciles [OF e] Let_def)
  then have "UpdateUnneededNodes \<in> set (calls (ls_trace ?s))"
    using deferred_calls [of UpdateUnneededNodes kubeclient ?s] by auto
  then have "PodListProcess \<in> set (calls (ls_trace ?s))"
    using reconcile_calls [of UpdateUnneededNodes currentTime kubeclient "secondNodeList it" it "reset a"]
    by auto
  then show ?thesis by (simp add: RunOnce_reconciles [OF e] Let_def)
qed

lemma afterScaleUp_autoscaler:
  "ls_return (afterScaleUp currentTime out s) = None \<Longrightarrow> afterScaleUp currentTime out s = s"
  by (simp add: afterScaleUp_def split: option.splits if_splits)

lemma tryScaleUp_autoscaler:
  assumes "ls_return (tryScaleUp currentTime kubeclient it pods s) = None"
  shows "ls_autoscaler (tryScaleUp currentTime kubeclient it pods s) =
           (ls_autoscaler s)\<lparr>disableScaleDownForLoop :=
              disableScaleDownForLoop (ls_autoscaler (tryScaleUp currentTime kubeclient it pods s))\<rparr>"
proof (cases "pods = [] \<or> allPodsAreNew pods currentTime")
  case True
  then show ?thesis by (auto simp: tryScaleUp_def)
next
  case False
  let ?out = "it_ScaleUp it pods"
  let ?s1 = "s\<lparr>ls_scaleUpStatus := suo_Status ?out,
                ls_trace := ls_trace s @ Call (ScaleUp pods) # map Effect (suo_Effects ?out)\<rparr>"
  show ?thesis
  proof (cases "ScaleUpStatusProcessor (ls_autoscaler s)")
    case False
    then have t: "tryScaleUp currentTime kubeclient it pods s = afterScaleUp currentTime ?out ?s1"
      using \<open>\<not> (pods = [] \<or> allPodsAreNew pods currentTime)\<close> by (simp add: tryScaleUp_def Let_def)
    then have "afterScaleUp currentTime ?out ?s1 = ?s1"
      using assms afterScaleUp_autoscaler by simp
    then show ?thesis by (simp add: t)
  next
    case True
    let ?p = "Process kubeclient (suo_Status ?out)"
    let ?s2 = "?s1\<lparr>ls_trace := ls_trace ?s1 @ map Effect (fst ?p)\<rparr>"
    show ?thesis
    proof (cases "snd ?p")
      case (Some c)
      then have "ls_return (tryScaleUp currentTime kubeclient it pods s) = Some (Crashed c)"
        using True \<open>\<not> (pods = [] \<or> allPodsAreNew pods currentTime)\<close>
        by (simp add: tryScaleUp_def Let_def)
      then show ?thesis using assms by simp
    next
      case None
      then have t: "tryScaleUp currentTime kubeclient it pods s =
          afterScaleUp currentTime ?out (?s2\<lparr>ls_scaleUpStatusProcessorAlreadyCalled := True\<rparr>)"
        using True \<open>\<not> (pods = [] \<or> allPodsAreNew pods currentTime)\<close>
        by (simp add: tryScaleUp_def Let_def)
      then have "afterScaleUp currentTime ?out (?s2\<lparr>ls_scaleUpStatusProcessorAlreadyCalled := True\<rparr>)
          = ?s2\<lparr>ls_scaleUpStatusProcessorAlreadyCalled := True\<rparr>"
        using assms afterScaleUp_autoscaler by simp
      then show ?thesis by (simp add: t)
    qed
  qed
qed

lemma tryScaleDown_reached:
  assumes "UpdateUnneededNodes \<in> set (calls (ls_trace (tryScaleDown currentTime allNodes it s)))"
    and "UpdateUnneededNodes \<notin> set (calls (ls_trace s))"
    and "it_UpdateUnneededNodes it = None"
  shows "tryScaleDown currentTime allNodes it s =
     (if scaleDownInCooldown (ls_autoscaler s) currentTime then
        s\<lparr>ls_trace := ls_trace s @ [Call UpdateUnneededNodes],
          ls_scaleDownResult := ScaleDownInCooldown\<rparr>
      else if it_IsNonEmptyNodeDeleteInProgress it then
        s\<lparr>ls_trace := ls_trace s @ [Call UpdateUnneededNodes],
          ls_scaleDownResult := ScaleDownInProgress\<rparr>
      else startScaleDown currentTime it (s\<lparr>ls_trace := ls_trace s @ [Call UpdateUnneededNodes]\<rparr>))"
  using assms
  by (auto simp: tryScaleDown_def Let_def split: option.splits sum.splits if_splits)

lemma RunOnce_at_cooldown_check:
  assumes "UpdateUnneededNodes \<in> set (calls (run_trace (RunOnce a currentTime kubeclient it)))"
    and "it_UpdateUnneededNodes it = None"
  defines "s1 \<equiv> tryScaleUp currentTime kubeclient it (unschedulablePodsToHelp a currentTime it)
                   (firstState (reset a))"
  defines "s \<equiv> tryScaleDown currentTime (secondNodeList it) it s1"
  defines "u \<equiv> s1\<lparr>ls_trace := ls_trace s1 @ [Call UpdateUnneededNodes]\<rparr>"
  shows "run_autoscaler (RunOnce a currentTime kubeclient it) = ls_autoscaler s"
    and "run_scaleDownResult (RunOnce a currentTime kubeclient it) = ls_scaleDownResult s"
    and "calls (run_trace (RunOnce a currentTime kubeclient it)) =
           calls (ls_trace s) @ calls (fst (deferredStatusUpdate kubeclient s))"
    and "effects (run_trace (RunOnce a currentTime kubeclient it)) =
           cleanUpEffects a it @
           fst (enforceBounds kubeclient (it_Provider it) (firstNodeList it)) @
           effects (ls_trace s) @ effects (fst (deferredStatusUpdate kubeclient s))"
    and "s = (if scaleDownInCooldown (ls_autoscaler s1) currentTime then
                u\<lparr>ls_scaleDownResult := ScaleDownInCooldown\<rparr>
              else if it_IsNonEmptyNodeDeleteInProgress it then
                u\<lparr>ls_scaleDownResult := ScaleDownInProgress\<rparr>
              else startScaleDown currentTime it u)"
    and "ls_autoscaler s1 =
           (reset a)\<lparr>disableScaleDownForLoop := disableScaleDownForLoop (ls_autoscaler s1)\<rparr>"
    and "calls (ls_trace s1) =
           PodListProcess #
           (if unschedulablePodsToHelp a currentTime it \<noteq> [] \<and>
               \<not> allPodsAreNew (unschedulablePodsToHelp a currentTime it) currentTime
            then [ScaleUp (unschedulablePodsToHelp a currentTime it)] else [])"
    and "ls_scaleDownResult s1 = ScaleDownNotTried"
proof -
  have reach: "PodListProcess \<in> set (calls (run_trace (RunOnce a currentTime kubeclient it)))"
    using assms(1) by (rule RunOnce_reached_update)
  let ?s = "if ls_return s1 \<noteq> None then s1 else s"
  note run = RunOnce_after_scale_up [OF reach, folded s1_def, folded s_def]
  show c1: "calls (ls_trace s1) =
           PodListProcess #
           (if unschedulablePodsToHelp a currentTime it \<noteq> [] \<and>
               \<not> allPodsAreNew (unschedulablePodsToHelp a currentTime it) currentTime
            then [ScaleUp (unschedulablePodsToHelp a currentTime it)] else [])"
    unfolding s1_def by (simp add: tryScaleUp_calls firstState_def)
  have "UpdateUnneededNodes \<in> set (calls (ls_trace ?s)) \<or>
      UpdateUnneededNodes \<in> set (calls (fst (deferredStatusUpdate kubeclient ?s)))"
    using assms(1) run(4) by simp
  then have upd: "UpdateUnneededNodes \<in> set (calls (ls_trace ?s))"
    using deferred_calls [of UpdateUnneededNodes kubeclient ?s] by auto
  have no1: "UpdateUnneededNodes \<notin> set (calls (ls_trace s1))" by (simp add: c1)
  then have ret: "ls_return s1 = None" using upd by (cases "ls_return s1") auto
  then have sel: "?s = s" by simp
  show "run_autoscaler (RunOnce a currentTime kubeclient it) = ls_autoscaler s"
    using run(1) sel by simp
  show "run_scaleDownResult (RunOnce a currentTime kubeclient it) = ls_scaleDownResult s"
    using run(3) sel by simp
  show "calls (run_trace (RunOnce a currentTime kubeclient it)) =
           calls (ls_trace s) @ calls (fst (deferredStatusUpdate kubeclient s))"
    using run(4) sel by simp
  show "effects (run_trace (RunOnce a currentTime kubeclient it)) =
           cleanUpEffects a it @
           fst (enforceBounds kubeclient (it_Provider it) (firstNodeList it)) @
           effects (ls_trace s) @ effects (fst (deferredStatusUpdate kubeclient s))"
    using run(5) sel by simp
  have upd': "UpdateUnneededNodes \<in> set (calls (ls_trace (tryScaleDown currentTime (secondNodeList it) it s1)))"
    using upd sel by (simp add: s_def)
  show "s = (if scaleDownInCooldown (ls_autoscaler s1) currentTime then
                u\<lparr>ls_scaleDownResult := ScaleDownInCooldown\<rparr>
              else if it_IsNonEmptyNodeDeleteInProgress it then
                u\<lparr>ls_scaleDownResult := ScaleDownInProgress\<rparr>
              else startScaleDown currentTime it u)"
    unfolding s_def u_def using tryScaleDown_reached [OF upd' no1 assms(2)] by simp
  have "ls_autoscaler s1 = (ls_autoscaler (firstState (reset a)))
      \<lparr>disableScaleDownForLoop := disableScaleDownForLoop (ls_autoscaler s1)\<rparr>"
    using tryScaleUp_autoscaler [OF ret [unfolded s1_def]] unfolding s1_def .
  then show "ls_autoscaler s1 =
           (reset a)\<lparr>disableScaleDownForLoop := disableScaleDownForLoop (ls_autoscaler s1)\<rparr>"
    by (simp add: firstState_def)
  have "ls_scaleDownResult (tryScaleUp currentTime kubeclient it pods x) = ls_scaleDownResult x"
    if "ls_return (tryScaleUp currentTime kubeclient it pods x) = None" for pods x
    using that
    by (auto simp: tryScaleUp_def Let_def afterScaleUp_def split: option.splits if_splits)
  from this [OF ret [unfolded s1_def]] show "ls_scaleDownResult s1 = ScaleDownNotTried"
    unfolding s1_def by (simp add: firstState_def)
qed

lemma spec_cooldown_frame:
  "spec_cooldown ((reset a)\<lparr>disableScaleDownForLoop := f\<rparr>) d now = spec_cooldown a d now"
  by (simp add: spec_cooldown_def reset_def)

lemma deferredStatusUpdate_trace:
  "deferredStatusUpdate kubeclient (s\<lparr>ls_trace := t, ls_scaleDownResult := r\<rparr>) =
   deferredStatusUpdate kubeclient (s\<lparr>ls_scaleDownResult := r\<rparr>)"
  by (simp add: deferredStatusUpdate_def Let_def split: option.splits)

lemma RunOnce_trace_at_cooldown_check:
  assumes "UpdateUnneededNodes \<in> set (calls (run_trace (RunOnce a currentTime kubeclient it)))"
  defines "s \<equiv> tryScaleDown currentTime (secondNodeList it) it
                   (scaleUpPart a currentTime kubeclient it)"
  shows "run_trace (RunOnce a currentTime kubeclient it) =
     map Effect (cleanUpEffects a it @
       fst (enforceBounds kubeclient (it_Provider it) (firstNodeList it))) @
     ls_trace s @ fst (deferredStatusUpdate kubeclient s)"
proof -
  let ?s1 = "scaleUpPart a currentTime kubeclient it"
  let ?R = "reconcile currentTime kubeclient (secondNodeList it) it (reset a)"
  have reach: "PodListProcess \<in> set (calls (run_trace (RunOnce a currentTime kubeclient it)))"
    using assms(1) by (rule RunOnce_reached_update)
  have e: "entersReconcile kubeclient it"
    and p: "PodListProcess \<in> set (calls (ls_trace ?R))"
    using RunOnce_reached [OF reach] by simp_all
  have r: "?R = (if ls_return ?s1 \<noteq> None then ?s1 else s)"
    using reconcile_reached [OF p]
    by (simp add: s_def scaleUpPart_def Let_def unschedulablePodsToHelp_reset)
  have "UpdateUnneededNodes \<in> set (calls (ls_trace ?R)) \<or>
      UpdateUnneededNodes \<in> set (calls (fst (deferredStatusUpdate kubeclient ?R)))"
    using assms(1) by (simp add: RunOnce_reconciles [OF e] Let_def)
  then have upd: "UpdateUnneededNodes \<in> set (calls (ls_trace ?R))"
    using deferred_calls [of UpdateUnneededNodes kubeclient ?R] by auto
  have "UpdateUnneededNodes \<notin> set (calls (ls_trace ?s1))"
    by (simp add: scaleUpPart_def tryScaleUp_calls firstState_def)
  then have "ls_return ?s1 = None" using upd r by (cases "ls_return ?s1") auto
  then have "?R = s" using r by simp
  then show ?thesis by (simp add: RunOnce_reconciles [OF e] Let_def)
qed

text \<open>
  C5. In a run that gets as far as \<open>UpdateUnneededNodes\<close> and gets no error from it, the
  cooldown computed at line 719 is the disjunction of the specification: scale-down
  disabled for the iteration, or the current time before one of the three timestamps plus
  its delay. When it holds, the scale-down result is in-cooldown, and between the scale-up
  part and the deferred status update the run does nothing but call \<open>UpdateUnneededNodes\<close>:
  neither \<open>TryToScaleDown\<close> nor the soft-taint pass is called, and the autoscaler keeps its
  timestamps. When it does not hold and a deletion is in progress, the result is
  in-progress, with the same trace. Otherwise \<open>TryToScaleDown\<close> is called.
\<close>

theorem RunOnce_cooldown:
  assumes "UpdateUnneededNodes \<in> set (calls (run_trace (RunOnce a currentTime kubeclient it)))"
    and "it_UpdateUnneededNodes it = None"
  shows
   "scaleDownInCooldown
      ((reset a)\<lparr>disableScaleDownForLoop :=
          disableScaleDownForLoop (run_autoscaler (RunOnce a currentTime kubeclient it))\<rparr>)
      currentTime =
    spec_cooldown a (disableScaleDownForLoop (run_autoscaler (RunOnce a currentTime kubeclient it)))
      currentTime \<and>
    (spec_cooldown a (disableScaleDownForLoop (run_autoscaler (RunOnce a currentTime kubeclient it)))
       currentTime \<longrightarrow>
       run_scaleDownResult (RunOnce a currentTime kubeclient it) = ScaleDownInCooldown \<and>
       TryToScaleDown \<notin> set (calls (run_trace (RunOnce a currentTime kubeclient it))) \<and>
       SoftTaintUnneededNodes \<notin> set (calls (run_trace (RunOnce a currentTime kubeclient it))) \<and>
       run_trace (RunOnce a currentTime kubeclient it) =
         map Effect (cleanUpEffects a it @
           fst (enforceBounds kubeclient (it_Provider it) (firstNodeList it))) @
         ls_trace (scaleUpPart a currentTime kubeclient it) @ [Call UpdateUnneededNodes] @
         fst (deferredStatusUpdate kubeclient
           ((scaleUpPart a currentTime kubeclient it)\<lparr>ls_scaleDownResult := ScaleDownInCooldown\<rparr>)) \<and>
       run_autoscaler (RunOnce a currentTime kubeclient it) =
         ls_autoscaler (scaleUpPart a currentTime kubeclient it)) \<and>
    (\<not> spec_cooldown a (disableScaleDownForLoop (run_autoscaler (RunOnce a currentTime kubeclient it)))
         currentTime \<and> it_IsNonEmptyNodeDeleteInProgress it \<longrightarrow>
       run_scaleDownResult (RunOnce a currentTime kubeclient it) = ScaleDownInProgress \<and>
       TryToScaleDown \<notin> set (calls (run_trace (RunOnce a currentTime kubeclient it))) \<and>
       SoftTaintUnneededNodes \<notin> set (calls (run_trace (RunOnce a currentTime kubeclient it))) \<and>
       run_trace (RunOnce a currentTime kubeclient it) =
         map Effect (cleanUpEffects a it @
           fst (enforceBounds kubeclient (it_Provider it) (firstNodeList it))) @
         ls_trace (scaleUpPart a currentTime kubeclient it) @ [Call UpdateUnneededNodes] @
         fst (deferredStatusUpdate kubeclient
           ((scaleUpPart a currentTime kubeclient it)\<lparr>ls_scaleDownResult := ScaleDownInProgress\<rparr>)) \<and>
       run_autoscaler (RunOnce a currentTime kubeclient it) =
         ls_autoscaler (scaleUpPart a currentTime kubeclient it)) \<and>
    (\<not> spec_cooldown a (disableScaleDownForLoop (run_autoscaler (RunOnce a currentTime kubeclient it)))
         currentTime \<and> \<not> it_IsNonEmptyNodeDeleteInProgress it \<longrightarrow>
       TryToScaleDown \<in> set (calls (run_trace (RunOnce a currentTime kubeclient it)))) \<and>
    lastScaleUpTime (ls_autoscaler (scaleUpPart a currentTime kubeclient it)) = lastScaleUpTime a \<and>
    lastScaleDownDeleteTime (ls_autoscaler (scaleUpPart a currentTime kubeclient it)) =
      lastScaleDownDeleteTime a \<and>
    lastScaleDownFailTime (ls_autoscaler (scaleUpPart a currentTime kubeclient it)) =
      lastScaleDownFailTime a \<and>
    SoftTaintUnneededNodes \<notin> set (calls (ls_trace (scaleUpPart a currentTime kubeclient it)))"
proof -
  let ?run = "RunOnce a currentTime kubeclient it"
  let ?s1 = "tryScaleUp currentTime kubeclient it (unschedulablePodsToHelp a currentTime it)
               (firstState (reset a))"
  let ?s = "tryScaleDown currentTime (secondNodeList it) it ?s1"
  let ?u = "?s1\<lparr>ls_trace := ls_trace ?s1 @ [Call UpdateUnneededNodes]\<rparr>"
  let ?f = "disableScaleDownForLoop (run_autoscaler ?run)"
  note at = RunOnce_at_cooldown_check [OF assms]
  note tr = RunOnce_trace_at_cooldown_check [OF assms(1), unfolded scaleUpPart_def]
  have flag: "?f = disableScaleDownForLoop (ls_autoscaler ?s1)"
    using at(1) tryScaleDown_frame [of currentTime "secondNodeList it" it ?s1] by simp
  have x: "ls_autoscaler ?s1 = (reset a)\<lparr>disableScaleDownForLoop := ?f\<rparr>"
    using at(6) flag by simp
  have cool: "scaleDownInCooldown (ls_autoscaler ?s1) currentTime = spec_cooldown a ?f currentTime"
  proof -
    have "spec_cooldown (ls_autoscaler ?s1) ?f currentTime = spec_cooldown a ?f currentTime"
      by (subst x) (rule spec_cooldown_frame)
    then show ?thesis using flag by (simp add: scaleDownInCooldown_spec)
  qed
  have 1: "scaleDownInCooldown ((reset a)\<lparr>disableScaleDownForLoop := ?f\<rparr>) currentTime =
      spec_cooldown a ?f currentTime"
    using cool x by simp
  have nodef: "TryToScaleDown \<notin> set (calls (fst (deferredStatusUpdate kubeclient ?s)))"
    using deferred_calls [of TryToScaleDown kubeclient ?s] by auto
  have nosoft: "SoftTaintUnneededNodes \<notin> set (calls (fst (deferredStatusUpdate kubeclient ?s)))"
    using deferred_calls [of SoftTaintUnneededNodes kubeclient ?s] by auto
  have no1: "TryToScaleDown \<notin> set (calls (ls_trace ?s1))" by (simp add: at(7))
  have no2: "SoftTaintUnneededNodes \<notin> set (calls (ls_trace ?s1))" by (simp add: at(7))
  have stays: "run_scaleDownResult ?run = result \<and>
      TryToScaleDown \<notin> set (calls (run_trace ?run)) \<and>
      SoftTaintUnneededNodes \<notin> set (calls (run_trace ?run)) \<and>
      run_trace ?run =
         map Effect (cleanUpEffects a it @
           fst (enforceBounds kubeclient (it_Provider it) (firstNodeList it))) @
         ls_trace ?s1 @ [Call UpdateUnneededNodes] @
         fst (deferredStatusUpdate kubeclient (?s1\<lparr>ls_scaleDownResult := result\<rparr>)) \<and>
      run_autoscaler ?run = ls_autoscaler ?s1"
    if s: "?s = ?u\<lparr>ls_scaleDownResult := result\<rparr>" for result
  proof -
    have "TryToScaleDown \<notin> set (calls (ls_trace ?s))" using no1 by (simp add: s)
    moreover have "SoftTaintUnneededNodes \<notin> set (calls (ls_trace ?s))" using no2 by (simp add: s)
    moreover have "ls_scaleDownResult ?s = result" by (simp add: s)
    moreover have "ls_autoscaler ?s = ls_autoscaler ?s1" by (simp add: s)
    moreover have "ls_trace ?s = ls_trace ?s1 @ [Call UpdateUnneededNodes]" by (simp add: s)
    moreover have "deferredStatusUpdate kubeclient ?s =
        deferredStatusUpdate kubeclient (?s1\<lparr>ls_scaleDownResult := result\<rparr>)"
      unfolding s by (rule deferredStatusUpdate_trace)
    ultimately show ?thesis using at(1,2,3) nodef nosoft tr by simp
  qed
  have 2: "run_scaleDownResult ?run = ScaleDownInCooldown \<and>
      TryToScaleDown \<notin> set (calls (run_trace ?run)) \<and>
      SoftTaintUnneededNodes \<notin> set (calls (run_trace ?run)) \<and>
      run_trace ?run =
         map Effect (cleanUpEffects a it @
           fst (enforceBounds kubeclient (it_Provider it) (firstNodeList it))) @
         ls_trace ?s1 @ [Call UpdateUnneededNodes] @
         fst (deferredStatusUpdate kubeclient (?s1\<lparr>ls_scaleDownResult := ScaleDownInCooldown\<rparr>)) \<and>
      run_autoscaler ?run = ls_autoscaler ?s1"
    if "spec_cooldown a ?f currentTime"
  proof -
    have "?s = ?u\<lparr>ls_scaleDownResult := ScaleDownInCooldown\<rparr>"
      using at(5) that cool by simp
    then show ?thesis by (rule stays)
  qed
  have 3: "run_scaleDownResult ?run = ScaleDownInProgress \<and>
      TryToScaleDown \<notin> set (calls (run_trace ?run)) \<and>
      SoftTaintUnneededNodes \<notin> set (calls (run_trace ?run)) \<and>
      run_trace ?run =
         map Effect (cleanUpEffects a it @
           fst (enforceBounds kubeclient (it_Provider it) (firstNodeList it))) @
         ls_trace ?s1 @ [Call UpdateUnneededNodes] @
         fst (deferredStatusUpdate kubeclient (?s1\<lparr>ls_scaleDownResult := ScaleDownInProgress\<rparr>)) \<and>
      run_autoscaler ?run = ls_autoscaler ?s1"
    if "\<not> spec_cooldown a ?f currentTime" and "it_IsNonEmptyNodeDeleteInProgress it"
  proof -
    have "?s = ?u\<lparr>ls_scaleDownResult := ScaleDownInProgress\<rparr>"
      using at(5) that cool by simp
    then show ?thesis by (rule stays)
  qed
  have 4: "TryToScaleDown \<in> set (calls (run_trace ?run))"
    if "\<not> spec_cooldown a ?f currentTime" and "\<not> it_IsNonEmptyNodeDeleteInProgress it"
  proof -
    have s: "?s = startScaleDown currentTime it ?u"
      using at(5) that cool by simp
    have "TryToScaleDown \<in> set (calls (ls_trace ?s))"
      by (simp only: s startScaleDown_calls) simp
    then show ?thesis using at(3) by simp
  qed
  have 5: "lastScaleUpTime (ls_autoscaler ?s1) = lastScaleUpTime a \<and>
      lastScaleDownDeleteTime (ls_autoscaler ?s1) = lastScaleDownDeleteTime a \<and>
      lastScaleDownFailTime (ls_autoscaler ?s1) = lastScaleDownFailTime a"
    by (subst x, subst x, subst x) (simp add: reset_def)
  show ?thesis unfolding scaleUpPart_def using 1 2 3 4 5 no2 by blast
qed

lemmas eval_run =
  reconcile_def tryScaleUp_def tryScaleDown_def startScaleDown_def afterScaleUp_def
  deferredStatusUpdate_def scaleDownNodes_def scaleDownInCooldown_def
  filterOutYoungPods_def allPodsAreNew_def GetOldestCreateTime_def
  time_After_def time_Add_def time_Sub_def maxDuration_def minDuration_def
  unschedulablePodTimeBuffer_def Second_def
  secondNodeList_def reset_def Process_def
  scaleDown_TryToScaleDown_def scaleDown_SoftTaintUnneededNodes_def
  autoscaler_running_def options_default_def

lemma entersReconcile_two_workers:
  "entersReconcile (kc_bounds ''1'' ''10'' []) ((uneventful two_workers)\<lparr>it_IsNonEmptyNodeDeleteInProgress := b\<rparr>)"
proof -
  let ?kc = "kc_bounds ''1'' ''10'' []"
  let ?it = "(uneventful two_workers)\<lparr>it_IsNonEmptyNodeDeleteInProgress := b\<rparr>"
  have m: "GetMinSizeNodeGroup ?kc = Inr 1" by (simp add: eval_config)
  have x: "GetMaxSizeNodeGroup ?kc = Inr 10" by (simp add: eval_config)
  have w: "numberWorkerNode ?it = 2" by (simp add: two_workers_def eval_nodes)
  have l: "listCluster ?it = Inr (two_workers, two_workers)" by (simp add: eval_list)
  show ?thesis using entersReconcile_within [OF m x _ _ l] by (simp add: w)
qed

theorem RunOnce_cooldown_witness:
  "UpdateUnneededNodes \<in> set (calls (run_trace
      (RunOnce autoscaler_cooling (100 * Second) (kc_bounds ''1'' ''10'' []) (uneventful two_workers)))) \<and>
   spec_cooldown autoscaler_cooling False (100 * Second) \<and>
   run_scaleDownResult
      (RunOnce autoscaler_cooling (100 * Second) (kc_bounds ''1'' ''10'' []) (uneventful two_workers)) =
     ScaleDownInCooldown \<and>
   \<not> spec_cooldown autoscaler_running False (1000 * Second) \<and>
   run_scaleDownResult
      (RunOnce autoscaler_running (1000 * Second) (kc_bounds ''1'' ''10'' []) it_deleting) =
     ScaleDownInProgress \<and>
   run_trace
      (RunOnce autoscaler_cooling (100 * Second) (kc_bounds ''1'' ''10'' []) (uneventful two_workers)) =
     [Call PodListProcess, Call UpdateUnneededNodes, Effect StatusConfigMapWritten,
      Call (ScaleDownStatusProcess ScaleDownInCooldown), Call AutoscalingStatusProcess] \<and>
   run_trace
      (RunOnce autoscaler_running (1000 * Second) (kc_bounds ''1'' ''10'' []) it_deleting) =
     [Call PodListProcess, Call UpdateUnneededNodes, Effect StatusConfigMapWritten,
      Call (ScaleDownStatusProcess ScaleDownInProgress), Call AutoscalingStatusProcess]"
proof -
  let ?kc = "kc_bounds ''1'' ''10'' []"
  let ?it = "uneventful two_workers"
  have e1: "entersReconcile ?kc ?it"
    using entersReconcile_two_workers [of False] by (simp add: uneventful_def)
  have e2: "entersReconcile ?kc it_deleting"
    unfolding it_deleting_def by (rule entersReconcile_two_workers)
  have c1: "calls (run_trace (RunOnce autoscaler_cooling (100 * Second) ?kc ?it)) =
      [PodListProcess, UpdateUnneededNodes, ScaleDownStatusProcess ScaleDownInCooldown,
       AutoscalingStatusProcess]"
    by (simp only: RunOnce_reconciles [OF e1])
       (simp add: Let_def eval_run autoscaler_cooling_def uneventful_def)
  have f1: "disableScaleDownForLoop (run_autoscaler
      (RunOnce autoscaler_cooling (100 * Second) ?kc ?it)) = False"
    by (simp only: RunOnce_reconciles [OF e1])
       (simp add: Let_def eval_run autoscaler_cooling_def uneventful_def)
  have c2: "calls (run_trace (RunOnce autoscaler_running (1000 * Second) ?kc it_deleting)) =
      [PodListProcess, UpdateUnneededNodes, ScaleDownStatusProcess ScaleDownInProgress,
       AutoscalingStatusProcess]"
    by (simp only: RunOnce_reconciles [OF e2])
       (simp add: Let_def eval_run it_deleting_def uneventful_def)
  have f2: "disableScaleDownForLoop (run_autoscaler
      (RunOnce autoscaler_running (1000 * Second) ?kc it_deleting)) = False"
    by (simp only: RunOnce_reconciles [OF e2])
       (simp add: Let_def eval_run it_deleting_def uneventful_def)
  have u1: "UpdateUnneededNodes \<in> set (calls (run_trace
      (RunOnce autoscaler_cooling (100 * Second) ?kc ?it)))"
    by (simp add: c1)
  have u2: "UpdateUnneededNodes \<in> set (calls (run_trace
      (RunOnce autoscaler_running (1000 * Second) ?kc it_deleting)))"
    by (simp add: c2)
  have n1: "it_UpdateUnneededNodes ?it = None" by (simp add: uneventful_def)
  have n2: "it_UpdateUnneededNodes it_deleting = None" by (simp add: it_deleting_def uneventful_def)
  have p2: "it_IsNonEmptyNodeDeleteInProgress it_deleting" by (simp add: it_deleting_def)
  have s1: "spec_cooldown autoscaler_cooling False (100 * Second)"
    by (simp add: spec_cooldown_def autoscaler_cooling_def autoscaler_running_def
        options_default_def Second_def)
  have s2: "\<not> spec_cooldown autoscaler_running False (1000 * Second)"
    by (simp add: spec_cooldown_def autoscaler_running_def options_default_def Second_def)
  have r1: "run_scaleDownResult (RunOnce autoscaler_cooling (100 * Second) ?kc ?it) =
      ScaleDownInCooldown"
    using RunOnce_cooldown [OF u1 n1] s1 by (simp add: f1)
  have r2: "run_scaleDownResult (RunOnce autoscaler_running (1000 * Second) ?kc it_deleting) =
      ScaleDownInProgress"
    using RunOnce_cooldown [OF u2 n2] s2 p2 by (simp add: f2)
  have m: "GetMinSizeNodeGroup ?kc = Inr 1" by (simp add: eval_config)
  have x: "GetMaxSizeNodeGroup ?kc = Inr 10" by (simp add: eval_config)
  have w: "int (length (workerNodeNames (firstNodeList
      ((uneventful two_workers)\<lparr>it_IsNonEmptyNodeDeleteInProgress := d\<rparr>)))) = 2" for d
    by (simp add: two_workers_def eval_nodes)
  have b: "enforceBounds ?kc polls (firstNodeList
      ((uneventful two_workers)\<lparr>it_IsNonEmptyNodeDeleteInProgress := d\<rparr>)) = ([], BoundsPassed)"
    for d polls
    by (rule enforceBounds_within [OF m x]) (simp_all add: w)
  have b1: "enforceBounds ?kc polls (firstNodeList ?it) = ([], BoundsPassed)" for polls
    using b [of polls False] by (simp add: uneventful_def)
  have b2: "enforceBounds ?kc polls (firstNodeList it_deleting) = ([], BoundsPassed)" for polls
    unfolding it_deleting_def by (rule b)
  have t1: "run_trace (RunOnce autoscaler_cooling (100 * Second) ?kc ?it) =
     [Call PodListProcess, Call UpdateUnneededNodes, Effect StatusConfigMapWritten,
      Call (ScaleDownStatusProcess ScaleDownInCooldown), Call AutoscalingStatusProcess]"
    using RunOnce_cooldown [OF u1 n1] s1
    by (simp add: f1 b1)
       (simp add: scaleUpPart_def unschedulablePodsToHelp_def firstState_def cleanUpEffects_def
          cleanUpIfRequired_def Let_def eval_run autoscaler_cooling_def uneventful_def)
  have t2: "run_trace (RunOnce autoscaler_running (1000 * Second) ?kc it_deleting) =
     [Call PodListProcess, Call UpdateUnneededNodes, Effect StatusConfigMapWritten,
      Call (ScaleDownStatusProcess ScaleDownInProgress), Call AutoscalingStatusProcess]"
    using RunOnce_cooldown [OF u2 n2] s2 p2
    by (simp add: f2 b2)
       (simp add: scaleUpPart_def unschedulablePodsToHelp_def firstState_def cleanUpEffects_def
          cleanUpIfRequired_def Let_def eval_run it_deleting_def uneventful_def)
  show ?thesis using u1 s1 r1 s2 r2 t1 t2 by simp
qed

section \<open>Properties of the cooldown timestamps\<close>

lemma stamped_reset: "stamped a now (reset a)"
  by (simp add: stamped_def reset_def)

lemma afterScaleUp_stamped:
  "stamped a currentTime (ls_autoscaler s) \<Longrightarrow>
   stamped a currentTime (ls_autoscaler (afterScaleUp currentTime out s))"
  by (simp add: afterScaleUp_def stamped_def split: option.splits)

lemma tryScaleUp_stamped:
  "stamped a currentTime (ls_autoscaler s) \<Longrightarrow>
   stamped a currentTime (ls_autoscaler (tryScaleUp currentTime kubeclient it pods s))"
proof -
  assume st: "stamped a currentTime (ls_autoscaler s)"
  have flag: "stamped a currentTime ((ls_autoscaler s)\<lparr>disableScaleDownForLoop := True\<rparr>)"
    using st by (simp add: stamped_def)
  have after: "stamped a currentTime (ls_autoscaler (afterScaleUp currentTime out x))"
    if "ls_autoscaler x = ls_autoscaler s" for out x
    using afterScaleUp_stamped [of a currentTime x out] st that by simp
  show ?thesis
    by (simp add: tryScaleUp_def Let_def st flag after split: option.splits)
qed

lemma startScaleDown_stamped:
  "stamped a currentTime (ls_autoscaler s) \<Longrightarrow>
   stamped a currentTime (ls_autoscaler (startScaleDown currentTime it s))"
  by (simp add: startScaleDown_def Let_def stamped_def split: option.splits)

lemma tryScaleDown_stamped:
  "stamped a currentTime (ls_autoscaler s) \<Longrightarrow>
   stamped a currentTime (ls_autoscaler (tryScaleDown currentTime allNodes it s))"
proof -
  assume st: "stamped a currentTime (ls_autoscaler s)"
  have start: "stamped a currentTime (ls_autoscaler (startScaleDown currentTime it x))"
    if "ls_autoscaler x = ls_autoscaler s" for x
    using startScaleDown_stamped [of a currentTime x it] st that by simp
  show ?thesis
    by (simp add: tryScaleDown_def Let_def st start split: option.splits sum.splits)
qed

lemma reconcile_stamped:
  "stamped a currentTime b \<Longrightarrow>
   stamped a currentTime (ls_autoscaler (reconcile currentTime kubeclient allNodes it b))"
proof -
  assume st: "stamped a currentTime b"
  have up: "stamped a currentTime (ls_autoscaler (tryScaleUp currentTime kubeclient it pods x))"
    if "ls_autoscaler x = b" for pods x
    using tryScaleUp_stamped [of a currentTime x kubeclient it pods] st that by simp
  have down: "stamped a currentTime (ls_autoscaler
      (tryScaleDown currentTime allNodes it (tryScaleUp currentTime kubeclient it pods x)))"
    if "ls_autoscaler x = b" for pods x
    using tryScaleDown_stamped [OF up [OF that]] .
  show ?thesis
    by (simp add: reconcile_def Let_def st up down split: option.splits)
qed

lemma RunOnce_stamped: "stamped a currentTime (run_autoscaler (RunOnce a currentTime kubeclient it))"
proof (cases "entersReconcile kubeclient it")
  case True
  show ?thesis
    using reconcile_stamped [OF stamped_reset [of a currentTime]]
    by (simp add: RunOnce_reconciles [OF True] Let_def)
next
  case False
  show ?thesis
    using RunOnce_leaves_early [OF False, of a currentTime] stamped_reset [of a currentTime]
    by simp
qed

text \<open>
  C6 (as the code has it). After every run each of the three timestamps is its value
  before the run or the time the run was given; so when that time is not earlier than a
  timestamp, the timestamp is not decreased.
\<close>

theorem RunOnce_timestamps:
  "stamped a currentTime (run_autoscaler (RunOnce a currentTime kubeclient it)) \<and>
   (lastScaleUpTime a \<le> currentTime \<longrightarrow>
      lastScaleUpTime a \<le> lastScaleUpTime (run_autoscaler (RunOnce a currentTime kubeclient it))) \<and>
   (lastScaleDownDeleteTime a \<le> currentTime \<longrightarrow>
      lastScaleDownDeleteTime a \<le>
        lastScaleDownDeleteTime (run_autoscaler (RunOnce a currentTime kubeclient it))) \<and>
   (lastScaleDownFailTime a \<le> currentTime \<longrightarrow>
      lastScaleDownFailTime a \<le>
        lastScaleDownFailTime (run_autoscaler (RunOnce a currentTime kubeclient it)))"
  using RunOnce_stamped [of a currentTime kubeclient it] by (auto simp: stamped_def)

lemma entersReconcile_pending:
  "entersReconcile (kc_bounds ''1'' ''10'' []) ((it_pending c)\<lparr>it_ScaleUp := f\<rparr>)"
proof -
  let ?kc = "kc_bounds ''1'' ''10'' []"
  let ?it = "(it_pending c)\<lparr>it_ScaleUp := f\<rparr>"
  have m: "GetMinSizeNodeGroup ?kc = Inr 1" by (simp add: eval_config)
  have x: "GetMaxSizeNodeGroup ?kc = Inr 10" by (simp add: eval_config)
  have w: "numberWorkerNode ?it = 2" by (simp add: it_pending_def two_workers_def eval_nodes)
  have l: "listCluster ?it = Inr (two_workers, two_workers)" by (simp add: it_pending_def eval_list)
  show ?thesis using entersReconcile_within [OF m x _ _ l] by (simp add: w)
qed

lemma RunOnce_scaled_late:
  "lastScaleUpTime (run_autoscaler
      (RunOnce autoscaler_cooling (100 * Second) (kc_bounds ''1'' ''10'' []) it_scaled)) =
     100 * Second"
proof -
  have e: "entersReconcile (kc_bounds ''1'' ''10'' []) it_scaled"
    unfolding it_scaled_def by (rule entersReconcile_pending)
  show ?thesis
    by (simp only: RunOnce_reconciles [OF e])
       (simp add: Let_def eval_run autoscaler_cooling_def it_scaled_def it_pending_def
          uneventful_def podCreatedAt_def)
qed

lemma RunOnce_scaled_early:
  "lastScaleUpTime (run_autoscaler
      (RunOnce autoscaler_cooling (10 * Second) (kc_bounds ''1'' ''10'' []) it_scaled)) =
     10 * Second \<and>
   run_ending (RunOnce autoscaler_cooling (10 * Second) (kc_bounds ''1'' ''10'' []) it_scaled) =
     Returned None"
proof -
  have e: "entersReconcile (kc_bounds ''1'' ''10'' []) it_scaled"
    unfolding it_scaled_def by (rule entersReconcile_pending)
  show ?thesis
    by (simp only: RunOnce_reconciles [OF e])
       (simp add: Let_def eval_run autoscaler_cooling_def it_scaled_def it_pending_def
          uneventful_def podCreatedAt_def)
qed

theorem RunOnce_timestamps_witness:
  "lastScaleUpTime autoscaler_cooling \<le> 100 * Second \<and>
   lastScaleDownDeleteTime autoscaler_cooling \<le> 100 * Second \<and>
   lastScaleDownFailTime autoscaler_cooling \<le> 100 * Second \<and>
   lastScaleUpTime autoscaler_cooling \<le>
     lastScaleUpTime (run_autoscaler
       (RunOnce autoscaler_cooling (100 * Second) (kc_bounds ''1'' ''10'' []) it_scaled)) \<and>
   lastScaleDownDeleteTime autoscaler_cooling \<le>
     lastScaleDownDeleteTime (run_autoscaler
       (RunOnce autoscaler_cooling (100 * Second) (kc_bounds ''1'' ''10'' []) it_scaled)) \<and>
   lastScaleDownFailTime autoscaler_cooling \<le>
     lastScaleDownFailTime (run_autoscaler
       (RunOnce autoscaler_cooling (100 * Second) (kc_bounds ''1'' ''10'' []) it_scaled)) \<and>
   lastScaleUpTime (run_autoscaler
       (RunOnce autoscaler_cooling (100 * Second) (kc_bounds ''1'' ''10'' []) it_scaled)) =
     100 * Second"
proof -
  have a: "lastScaleUpTime autoscaler_cooling \<le> 100 * Second"
    and b: "lastScaleDownDeleteTime autoscaler_cooling \<le> 100 * Second"
    and c: "lastScaleDownFailTime autoscaler_cooling \<le> 100 * Second"
    by (simp_all add: autoscaler_cooling_def autoscaler_running_def Second_def)
  show ?thesis
    using RunOnce_timestamps [of autoscaler_cooling "100 * Second" "kc_bounds ''1'' ''10'' []" it_scaled]
      a b c RunOnce_scaled_late
    by blast
qed

text \<open>
  C6 as stated fails for a run that is given a time earlier than a timestamp: the last
  scale-up was at second 50, the run is given second 10 and its scale-up succeeds, and the
  timestamp goes back to second 10.
\<close>

theorem RunOnce_timestamps_counterexample:
  "run_ending (RunOnce autoscaler_cooling (10 * Second) (kc_bounds ''1'' ''10'' []) it_scaled) =
     Returned None \<and>
   lastScaleUpTime autoscaler_cooling = 50 * Second \<and>
   lastScaleUpTime (run_autoscaler
       (RunOnce autoscaler_cooling (10 * Second) (kc_bounds ''1'' ''10'' []) it_scaled)) =
     10 * Second \<and>
   lastScaleUpTime (run_autoscaler
       (RunOnce autoscaler_cooling (10 * Second) (kc_bounds ''1'' ''10'' []) it_scaled)) <
     lastScaleUpTime autoscaler_cooling"
  using RunOnce_scaled_early by (simp add: autoscaler_cooling_def Second_def)

section \<open>Properties of a run in the steady state\<close>













end
